(* ===== verification/Prelude.thy ===== *)
theory Prelude
  imports Complex_Main
begin

text \<open>
  Shared vocabulary of the development: the Python exceptions the program can raise,
  the result type \<open>'a result = py_exc + 'a\<close> in which every raise of the source is an
  \<open>Inl\<close> branch, the combinators that thread such results through a sequence of
  statements (\<open>rbind\<close>) and through a list comprehension (\<open>rmap\<close>), Python's
  \<open>str\<close> of integers (used in the error messages), and generic counting lemmas on
  lists. The collection \<open>result_simps\<close> gathers the evaluation rules of the combinators.
\<close>

named_theorems result_simps "evaluation rules of the error-propagating combinators"
named_theorems model_eval "rewrite rules that let the simplifier evaluate the model on concrete inputs"

section \<open>Exceptions and results\<close>

text \<open>The exception classes raised along the request path, each with its message.\<close>

datatype py_exc =
    ValueError string
  | IndexError string
  | TypeError string
  | ZeroDivisionError string
  | OverflowError string
  | AttributeError string
  | KeyError string
  | LibError string \<comment> \<open>an exception of a third-party library whose class is not observed\<close>

text \<open>\<open>str(e)\<close>: the message of an exception.\<close>

fun exc_str :: "py_exc \<Rightarrow> string" where
  "exc_str (ValueError m) = m"
| "exc_str (IndexError m) = m"
| "exc_str (TypeError m) = m"
| "exc_str (ZeroDivisionError m) = m"
| "exc_str (OverflowError m) = m"
| "exc_str (AttributeError m) = m"
| "exc_str (KeyError m) = m"
| "exc_str (LibError m) = m"

type_synonym 'a result = "py_exc + 'a"

text \<open>Sequencing of two statements: an exception of the first skips the second.\<close>

definition rbind :: "'a result \<Rightarrow> ('a \<Rightarrow> 'b result) \<Rightarrow> 'b result" where
  "rbind r f = (case r of Inl e \<Rightarrow> Inl e | Inr x \<Rightarrow> f x)"

text \<open>\<open>except Exception as e: raise ...(f(e))\<close>: re-raising under a new exception.\<close>

definition rewrap :: "(py_exc \<Rightarrow> py_exc) \<Rightarrow> 'a result \<Rightarrow> 'a result" where
  "rewrap h r = (case r of Inl e \<Rightarrow> Inl (h e) | Inr x \<Rightarrow> Inr x)"

text \<open>A list comprehension \<open>[f(x) for x in xs]\<close> whose body may raise: the first
  exception, in list order, ends the comprehension.\<close>

fun rmap :: "('a \<Rightarrow> 'b result) \<Rightarrow> 'a list \<Rightarrow> 'b list result" where
  "rmap f [] = Inr []"
| "rmap f (x # xs) = rbind (f x) (\<lambda>y. rbind (rmap f xs) (\<lambda>ys. Inr (y # ys)))"

section \<open>Python's \<open>str\<close> of integers\<close>

text \<open>Decimal digits, most significant first, as \<open>str(n)\<close> prints them.\<close>

fun nat_str :: "nat \<Rightarrow> string" where
  "nat_str n = (if n < 10 then [char_of (48 + n)]
                else nat_str (n div 10) @ [char_of (48 + n mod 10)])"

definition int_str :: "int \<Rightarrow> string" where
  "int_str i = (if i < 0 then CHR ''-'' # nat_str (nat (- i)) else nat_str (nat i))"

section \<open>Lemmas on results\<close>

lemma rbind_Inl [simp, result_simps]: "rbind (Inl e) f = Inl e"
  by (simp add: rbind_def)

lemma rbind_Inr [simp, result_simps]: "rbind (Inr x) f = f x"
  by (simp add: rbind_def)

lemma rewrap_Inl [simp, result_simps]: "rewrap h (Inl e) = Inl (h e)"
  by (simp add: rewrap_def)

lemma rewrap_Inr [simp, result_simps]: "rewrap h (Inr x) = Inr x"
  by (simp add: rewrap_def)

lemma rbind_eq_Inr_iff [simp]:
  "rbind r f = Inr y \<longleftrightarrow> (\<exists>x. r = Inr x \<and> f x = Inr y)"
  by (cases r) auto

lemma rbind_eq_Inl_iff:
  "rbind r f = Inl e \<longleftrightarrow> r = Inl e \<or> (\<exists>x. r = Inr x \<and> f x = Inl e)"
  by (cases r) auto

lemma rewrap_eq_Inr_iff [simp]: "rewrap h r = Inr y \<longleftrightarrow> r = Inr y"
  by (cases r) auto

lemma rewrap_eq_Inl_iff: "rewrap h r = Inl e \<longleftrightarrow> (\<exists>e'. r = Inl e' \<and> e = h e')"
  by (cases r) auto

text \<open>A successful comprehension is the pointwise image of its input.\<close>

lemma rmap_eq_Inr_iff: "rmap f xs = Inr ys \<longleftrightarrow> list_all2 (\<lambda>x y. f x = Inr y) xs ys"
proof (induction xs arbitrary: ys)
  case Nil
  then show ?case by auto
next
  case (Cons x xs)
  then show ?case by (cases ys) auto
qed

lemma rmap_Inr_length: "rmap f xs = Inr ys \<Longrightarrow> length ys = length xs"
  by (auto simp: rmap_eq_Inr_iff dest: list_all2_lengthD)

lemma rmap_Inr_nth:
  "rmap f xs = Inr ys \<Longrightarrow> i < length xs \<Longrightarrow> f (xs ! i) = Inr (ys ! i)"
  by (auto simp: rmap_eq_Inr_iff list_all2_conv_all_nth)

lemma rmap_pointwise: "(\<And>x. x \<in> set xs \<Longrightarrow> f x = Inr (g x)) \<Longrightarrow> rmap f xs = Inr (map g xs)"
  by (induction xs) auto

lemma rmap_Inl_elem: "rmap f xs = Inl e \<Longrightarrow> \<exists>x \<in> set xs. f x = Inl e"
  by (induction xs) (auto simp: rbind_eq_Inl_iff)

lemma rmap_elem_Inl: "x \<in> set xs \<Longrightarrow> f x = Inl e \<Longrightarrow> \<exists>e'. rmap f xs = Inl e'"
proof (induction xs)
  case Nil
  then show ?case by simp
next
  case (Cons y ys)
  show ?case
  proof (cases "f y")
    case (Inl e')
    then show ?thesis by simp
  next
    case (Inr v)
    with Cons have "y \<noteq> x" by auto
    with Cons obtain e' where "rmap f ys = Inl e'" by auto
    with Inr show ?thesis by simp
  qed
qed

lemma rmap_Inr_set: "rmap f xs = Inr ys \<Longrightarrow> y \<in> set ys \<Longrightarrow> \<exists>x \<in> set xs. f x = Inr y"
  by (auto simp: rmap_eq_Inr_iff list_all2_conv_all_nth in_set_conv_nth) (metis nth_mem)

lemma rmap_append:
  "rmap f (xs @ ys) = rbind (rmap f xs) (\<lambda>a. rbind (rmap f ys) (\<lambda>b. Inr (a @ b)))"
proof (induction xs)
  case Nil
  then show ?case by (cases "rmap f ys") auto
next
  case (Cons x xs)
  then show ?case by (cases "f x"; cases "rmap f xs"; cases "rmap f ys") auto
qed

text \<open>A comprehension over a concatenation runs block by block.\<close>

lemma rmap_concat:
  "rmap f (concat xss) = rbind (rmap (rmap f) xss) (\<lambda>yss. Inr (concat yss))"
proof (induction xss)
  case Nil
  then show ?case by simp
next
  case (Cons xs xss)
  then show ?case by (cases "rmap f xs"; cases "rmap (rmap f) xss") (auto simp: rmap_append)
qed

declare nat_str.simps [simp del]
declare char_of_eq_iff [model_eval] nat_str.simps [model_eval]

lemma nat_str_nonempty: "nat_str n \<noteq> []"
  by (subst nat_str.simps) simp

section \<open>Counting\<close>

text \<open>Grouping a list by a key that ranges over a distinct list of keys partitions it.\<close>

lemma sum_filter_partition:
  assumes "distinct L" "set (map f zs) \<subseteq> set L"
  shows "(\<Sum>a \<leftarrow> L. length (filter (\<lambda>z. f z = a) zs)) = length zs"
  using assms(2)
proof (induction zs)
  case Nil
  then show ?case by simp
next
  case (Cons z zs)
  have one: "(\<Sum>a \<leftarrow> L. (if f z = a then 1 else 0 :: nat)) = 1"
    using Cons.prems assms(1) by (simp add: sum_list_distinct_conv_sum_set)
  have "(\<Sum>a \<leftarrow> L. length (filter (\<lambda>x. f x = a) (z # zs)))
        = (\<Sum>a \<leftarrow> L. (if f z = a then 1 else 0) + length (filter (\<lambda>x. f x = a) zs))"
    by (rule arg_cong[where f = sum_list], rule map_cong) auto
  also have "\<dots> = (\<Sum>a \<leftarrow> L. (if f z = a then 1 else 0 :: nat))
                   + (\<Sum>a \<leftarrow> L. length (filter (\<lambda>x. f x = a) zs))"
    by (simp add: sum_list_addf)
  also have "\<dots> = Suc (length zs)"
    using one Cons by simp
  finally show ?case by simp
qed

text \<open>Counting every class index below \<open>k\<close> counts every element of a list whose
  elements all lie below \<open>k\<close>: the per-class counts partition the list.\<close>

lemma sum_count_upt:
  "list_all (\<lambda>x. x < k) xs \<Longrightarrow> (\<Sum>i \<leftarrow> [0..<k]. count_list xs i) = length xs"
proof (induction xs)
  case Nil
  then show ?case by simp
next
  case (Cons x xs)
  have one: "(\<Sum>i \<leftarrow> [0..<k]. (if x = i then 1 else 0 :: nat)) = 1"
    using Cons.prems by (simp add: sum_list_distinct_conv_sum_set)
  have "(\<Sum>i \<leftarrow> [0..<k]. count_list (x # xs) i)
        = (\<Sum>i \<leftarrow> [0..<k]. (if x = i then 1 else 0) + count_list xs i)"
    by (rule arg_cong[where f = sum_list], rule map_cong) auto
  also have "\<dots> = (\<Sum>i \<leftarrow> [0..<k]. (if x = i then 1 else 0 :: nat)) + (\<Sum>i \<leftarrow> [0..<k]. count_list xs i)"
    by (simp add: sum_list_addf)
  also have "\<dots> = Suc (length xs)"
    using one Cons by simp
  finally show ?case by simp
qed

end
