(* ===== verification/PyValues.thy ===== *)
theory PyValues
  imports Prelude
begin

text \<open>
  The values the pipeline of \<^verbatim>\<open>src/model_handler.py\<close> computes with, and the
  library primitives it applies to them: IEEE floats with NaN and the infinities
  (\<open>pyfloat\<close>), the cells of a parsed CSV table (\<open>cell\<close>), nested Python
  dictionaries and lists (\<open>pyval\<close>, the shape of the classification report and of
  the JSON responses), numpy's \<open>argmax\<close> and \<open>max\<close> along a row, Python's
  \<open>int()\<close> on a cell, and Keras' \<open>to_categorical\<close>. Each primitive raises
  where the library raises. The lemmas show that \<open>argmax\<close> picks the entry that
  \<open>max\<close> returns, and that \<open>int()\<close> reads back what \<open>str()\<close> prints.
\<close>

section \<open>Floats\<close>

datatype pyfloat = Fin real | NaN | PInf | NInf

fun isnan :: "pyfloat \<Rightarrow> bool" where
  "isnan NaN = True"
| "isnan _ = False"

text \<open>IEEE \<open>x <= y\<close>: false as soon as one operand is NaN.\<close>

fun pf_le :: "pyfloat \<Rightarrow> pyfloat \<Rightarrow> bool" where
  "pf_le NaN _ = False"
| "pf_le _ NaN = False"
| "pf_le NInf _ = True"
| "pf_le _ PInf = True"
| "pf_le PInf _ = False"
| "pf_le _ NInf = False"
| "pf_le (Fin a) (Fin b) = (a \<le> b)"

text \<open>\<open>np.maximum\<close>: NaN propagates, otherwise the larger operand.\<close>

definition pf_maximum :: "pyfloat \<Rightarrow> pyfloat \<Rightarrow> pyfloat" where
  "pf_maximum a b = (if isnan a \<or> isnan b then NaN else if pf_le a b then b else a)"

text \<open>
  \<open>np.argmax\<close> on a float row, as numpy's loop computes it: the running maximum
  \<open>mp\<close> is replaced when \<open>not (x <= mp)\<close>, which also holds for a NaN, and the
  loop stops at the first NaN. \<open>i\<close> is the index of the head of the remaining row.
\<close>

fun argmax_loop :: "nat \<Rightarrow> nat \<Rightarrow> pyfloat \<Rightarrow> pyfloat list \<Rightarrow> nat" where
  "argmax_loop i best mp [] = best"
| "argmax_loop i best mp (x # xs) =
     (if \<not> pf_le x mp
      then (if isnan x then i else argmax_loop (Suc i) i x xs)
      else argmax_loop (Suc i) best mp xs)"

definition np_argmax :: "pyfloat list \<Rightarrow> nat result" where
  "np_argmax xs = (case xs of
      [] \<Rightarrow> Inl (ValueError ''attempt to get argmax of an empty sequence'')
    | x # rest \<Rightarrow> Inr (if isnan x then 0 else argmax_loop 1 0 x rest))"

text \<open>\<open>np.max\<close> along a row: the reduction of \<open>np.maximum\<close>.\<close>

definition np_max :: "pyfloat list \<Rightarrow> pyfloat result" where
  "np_max xs = (case xs of
      [] \<Rightarrow> Inl (ValueError ''zero-size array to reduction operation maximum which has no identity'')
    | x # rest \<Rightarrow> Inr (fold (\<lambda>y m. pf_maximum m y) rest x))"

section \<open>Cells of a parsed table and Python's \<open>int()\<close>\<close>

text \<open>A cell of the table \<open>pd.read_csv\<close> returns: an integer, a float (a blank
  field is NaN) or, in a column pandas could not read as numbers, a string.\<close>

datatype cell = CInt int | CFloat pyfloat | CStr string

text \<open>The whitespace \<open>int()\<close> strips (CPython's ASCII whitespace table).\<close>

definition py_space :: "char \<Rightarrow> bool" where
  "py_space c \<longleftrightarrow> (let n = (of_char c :: nat) in (9 \<le> n \<and> n \<le> 13) \<or> (28 \<le> n \<and> n \<le> 32))"

definition strip_space :: "string \<Rightarrow> string" where
  "strip_space s = rev (dropWhile py_space (rev (dropWhile py_space s)))"

definition is_dec_digit :: "char \<Rightarrow> bool" where
  "is_dec_digit c \<longleftrightarrow> (let n = (of_char c :: nat) in 48 \<le> n \<and> n \<le> 57)"

text \<open>The body of a decimal literal: digits, with single underscores between digits.\<close>

fun dec_body :: "string \<Rightarrow> bool" and dec_rest :: "string \<Rightarrow> bool" where
  "dec_body [] = False"
| "dec_body (c # cs) = (is_dec_digit c \<and> dec_rest cs)"
| "dec_rest [] = True"
| "dec_rest (c # cs) = (if c = CHR ''_'' then dec_body cs else is_dec_digit c \<and> dec_rest cs)"

definition dec_value :: "string \<Rightarrow> nat" where
  "dec_value s = foldl (\<lambda>acc c. 10 * acc + (of_char c - 48)) 0 (filter is_dec_digit s)"

definition split_sign :: "string \<Rightarrow> int \<times> string" where
  "split_sign t = (case t of
      [] \<Rightarrow> (1, [])
    | c # r \<Rightarrow> (if c = CHR ''-'' then (-1, r) else if c = CHR ''+'' then (1, r) else (1, t)))"

text \<open>\<open>int(s)\<close> for a string, base 10.\<close>

definition parse_int_literal :: "string \<Rightarrow> int option" where
  "parse_int_literal s = (case split_sign (strip_space s) of
      (sg, b) \<Rightarrow> if dec_body b then Some (sg * int (dec_value b)) else None)"

text \<open>\<open>int(val)\<close> for a cell: integers pass, floats truncate towards zero, NaN and the
  infinities raise, strings are parsed.\<close>

fun py_int :: "cell \<Rightarrow> int result" where
  "py_int (CInt i) = Inr i"
| "py_int (CFloat (Fin r)) = Inr (if r < 0 then - \<lfloor>- r\<rfloor> else \<lfloor>r\<rfloor>)"
| "py_int (CFloat NaN) = Inl (ValueError ''cannot convert float NaN to integer'')"
| "py_int (CFloat PInf) = Inl (OverflowError ''cannot convert float infinity to integer'')"
| "py_int (CFloat NInf) = Inl (OverflowError ''cannot convert float infinity to integer'')"
| "py_int (CStr s) = (case parse_int_literal s of
      Some i \<Rightarrow> Inr i
    | None \<Rightarrow> Inl (ValueError (''invalid literal for int() with base 10: '' @ [CHR 0x27] @ s @ [CHR 0x27])))"

text \<open>\<open>float(s)\<close> for a string: an optional sign, then \<open>inf\<close>, \<open>infinity\<close> or
  \<open>nan\<close> in any case, or a decimal literal with an optional fraction and exponent,
  digits grouped by single underscores. The value is the exact decimal; a magnitude that
  rounds beyond the largest double is an infinity.\<close>

definition ascii_lower :: "char \<Rightarrow> char" where
  "ascii_lower c = (let n = (of_char c :: nat) in if 65 \<le> n \<and> n \<le> 90 then char_of (n + 32) else c)"

definition float_overflow_bound :: real where
  "float_overflow_bound = (2 ^ 54 - 1) * 2 ^ 970"

definition round_float :: "real \<Rightarrow> pyfloat" where
  "round_float v = (if float_overflow_bound \<le> \<bar>v\<bar> then (if 0 < v then PInf else NInf) else Fin v)"

text \<open>An optional digit part: empty, or a decimal body.\<close>

definition opt_digits :: "string \<Rightarrow> bool" where
  "opt_digits s \<longleftrightarrow> s = [] \<or> dec_body s"

definition parse_exponent :: "string \<Rightarrow> int option" where
  "parse_exponent e = (case split_sign e of
      (sg, b) \<Rightarrow> if dec_body b then Some (sg * int (dec_value b)) else None)"

text \<open>The mantissa \<open>ip.fp\<close> or \<open>ip\<close>, as the exact value.\<close>

definition parse_mantissa :: "string \<Rightarrow> real option" where
  "parse_mantissa m =
     (let ip = takeWhile (\<lambda>c. c \<noteq> CHR ''.'') m; rest = dropWhile (\<lambda>c. c \<noteq> CHR ''.'') m in
      if rest = [] then (if dec_body ip then Some (real (dec_value ip)) else None)
      else let fp = tl rest in
        if opt_digits ip \<and> opt_digits fp \<and> (ip \<noteq> [] \<or> fp \<noteq> [])
        then Some (real (dec_value ip) + real (dec_value fp) / 10 ^ length (filter is_dec_digit fp))
        else None)"

definition parse_float_literal :: "string \<Rightarrow> pyfloat option" where
  "parse_float_literal s = (case split_sign (strip_space s) of
      (sg, b) \<Rightarrow>
        let lb = map ascii_lower b in
        if lb = ''inf'' \<or> lb = ''infinity'' then Some (if sg < 0 then NInf else PInf)
        else if lb = ''nan'' then Some NaN
        else let m = takeWhile (\<lambda>c. c \<noteq> CHR ''e'' \<and> c \<noteq> CHR ''E'') b;
                 ex = dropWhile (\<lambda>c. c \<noteq> CHR ''e'' \<and> c \<noteq> CHR ''E'') b in
        (case (parse_mantissa m, if ex = [] then Some 0 else parse_exponent (tl ex)) of
           (Some v, Some e) \<Rightarrow>
             Some (round_float (of_int sg * v * (if 0 \<le> e then 10 ^ nat e else 1 / 10 ^ nat (- e))))
         | _ \<Rightarrow> None))"

text \<open>\<open>float(val)\<close> as numpy converts a feature cell of an object array: an int is
  converted (one too large for a double raises), a float passes, a string is parsed.\<close>

fun to_float :: "cell \<Rightarrow> pyfloat result" where
  "to_float (CInt i) =
     (if float_overflow_bound \<le> \<bar>of_int i\<bar> then Inl (OverflowError ''int too large to convert to float'')
      else Inr (Fin (of_int i)))"
| "to_float (CFloat f) = Inr f"
| "to_float (CStr s) = (case parse_float_literal s of
      Some f \<Rightarrow> Inr f
    | None \<Rightarrow> Inl (ValueError (''could not convert string to float: '' @ [CHR 0x27] @ s @ [CHR 0x27])))"

section \<open>Keras \<open>to_categorical\<close>\<close>

text \<open>
  \<open>to_categorical(y, k)\<close> converts \<open>y\<close> to an \<open>int64\<close> array and sets
  \<open>categorical[arange(n), y] = 1\<close>: numpy's fancy indexing accepts every index in
  \<open>[-k, k)\<close>, a negative one counting from the end, and raises \<open>IndexError\<close>
  for any other.
\<close>

definition int64_ok :: "int \<Rightarrow> bool" where
  "int64_ok y \<longleftrightarrow> - (2 ^ 63) \<le> y \<and> y < 2 ^ 63"

definition onehot :: "nat \<Rightarrow> nat \<Rightarrow> real list" where
  "onehot k j = map (\<lambda>i. if i = j then 1 else 0) [0..<k]"

definition to_categorical :: "int list \<Rightarrow> nat \<Rightarrow> real list list result" where
  "to_categorical ys k =
     (if \<not> list_all int64_ok ys
      then Inl (OverflowError ''Python int too large to convert to C long'')
      else case find (\<lambda>y. \<not> (- int k \<le> y \<and> y < int k)) ys of
        Some y \<Rightarrow> Inl (IndexError (''index '' @ int_str y @
                      '' is out of bounds for axis 1 with size '' @ nat_str k))
      | None \<Rightarrow> Inr (map (\<lambda>y. onehot k (nat (if y < 0 then y + int k else y))) ys))"

section \<open>Nested Python values\<close>

text \<open>The JSON-like values of the program: the classification report is a dictionary
  of dictionaries of floats, the responses are dictionaries. A dictionary keeps its
  insertion order, as Python's does.\<close>

datatype pyval =
    VInt int
  | VFloat pyfloat
  | VStr string
  | VNone
  | VBool bool
  | VList "pyval list"
  | VDict "(string \<times> pyval) list"

text \<open>The Python ints numpy converts to a machine integer (\<open>int64\<close> or
  \<open>uint64\<close>); a larger one becomes an object array.\<close>

definition np_int_ok :: "int \<Rightarrow> bool" where
  "np_int_ok i \<longleftrightarrow> - (2 ^ 63) \<le> i \<and> i < 2 ^ 64"

text \<open>\<open>np.isnan(v)\<close> on a scalar: a float is tested, a machine-sized int or a bool
  is never NaN, anything else (\<open>None\<close>, a string, a container, an int beyond 64
  bits) raises \<open>TypeError\<close>.\<close>

fun np_isnan_val :: "pyval \<Rightarrow> bool result" where
  "np_isnan_val (VFloat f) = Inr (isnan f)"
| "np_isnan_val (VInt i) =
     (if np_int_ok i then Inr False
      else Inl (TypeError ''ufunc 'isnan' not supported for the input types''))"
| "np_isnan_val (VBool b) = Inr False"
| "np_isnan_val _ = Inl (TypeError ''ufunc 'isnan' not supported for the input types'')"



section \<open>Lemmas\<close>

lemma isnan_iff: "isnan x \<longleftrightarrow> x = NaN"
  by (cases x) auto

lemma fold_maximum_NaN: "fold (\<lambda>y m. pf_maximum m y) xs NaN = NaN"
  by (induction xs) (auto simp: pf_maximum_def)

lemma pf_le_total: "\<not> isnan x \<Longrightarrow> \<not> isnan m \<Longrightarrow> \<not> pf_le x m \<Longrightarrow> pf_le m x"
  by (cases x; cases m) auto

lemma pf_maximum_keep: "pf_le x m \<Longrightarrow> pf_maximum m x = m"
  by (cases x; cases m) (auto simp: pf_maximum_def)

lemma pf_maximum_take: "\<not> isnan x \<Longrightarrow> \<not> isnan m \<Longrightarrow> \<not> pf_le x m \<Longrightarrow> pf_maximum m x = x"
  by (auto simp: pf_maximum_def dest: pf_le_total)

lemma pf_maximum_nan: "isnan x \<Longrightarrow> pf_maximum m x = NaN"
  by (simp add: pf_maximum_def)

text \<open>
  The loop invariant: the running maximum is the entry at the running index of the whole
  row \<open>ys @ xs\<close>, whose prefix \<open>ys\<close> has been scanned; the loop returns an index
  whose entry is the \<open>np.maximum\<close>-reduction of the rest from the running maximum.
\<close>

lemma argmax_loop_max:
  assumes "length ys = i" "best < i" "ys ! best = mp" "\<not> isnan mp"
  shows "argmax_loop i best mp xs < i + length xs
       \<and> (ys @ xs) ! argmax_loop i best mp xs = fold (\<lambda>y m. pf_maximum m y) xs mp"
  using assms
proof (induction xs arbitrary: i best mp ys)
  case Nil
  then show ?case by (simp add: nth_append)
next
  case (Cons x xs)
  show ?case
  proof (cases "pf_le x mp")
    case True
    have "argmax_loop (Suc i) best mp xs < Suc i + length xs
        \<and> ((ys @ [x]) @ xs) ! argmax_loop (Suc i) best mp xs = fold (\<lambda>y m. pf_maximum m y) xs mp"
      using Cons.prems by (intro Cons.IH) (auto simp: nth_append)
    with True show ?thesis by (simp add: pf_maximum_keep)
  next
    case False
    show ?thesis
    proof (cases "isnan x")
      case True
      with False Cons.prems show ?thesis
        by (simp add: nth_append pf_maximum_nan fold_maximum_NaN isnan_iff)
    next
      case notnan: False
      have "argmax_loop (Suc i) i x xs < Suc i + length xs
          \<and> ((ys @ [x]) @ xs) ! argmax_loop (Suc i) i x xs = fold (\<lambda>y m. pf_maximum m y) xs x"
        using Cons.prems notnan by (intro Cons.IH) (auto simp: nth_append)
      with False notnan Cons.prems show ?thesis by (simp add: pf_maximum_take)
    qed
  qed
qed

text \<open>\<open>argmax\<close> and \<open>max\<close> agree: the entry at the arg-max index is the maximum.\<close>

lemma np_argmax_np_max:
  assumes "np_argmax xs = Inr i"
  shows "i < length xs \<and> np_max xs = Inr (xs ! i)"
proof (cases xs)
  case Nil
  with assms show ?thesis by (simp add: np_argmax_def)
next
  case (Cons x rest)
  show ?thesis
  proof (cases "isnan x")
    case True
    with Cons assms show ?thesis
      by (cases x) (auto simp: np_argmax_def np_max_def fold_maximum_NaN)
  next
    case False
    have "argmax_loop 1 0 x rest < 1 + length rest
        \<and> ([x] @ rest) ! argmax_loop 1 0 x rest = fold (\<lambda>y m. pf_maximum m y) rest x"
      using False by (intro argmax_loop_max) auto
    with Cons False assms show ?thesis by (auto simp: np_argmax_def np_max_def)
  qed
qed

lemma pf_le_refl: "\<not> isnan x \<Longrightarrow> pf_le x x"
  by (cases x) auto

lemma pf_le_trans: "pf_le x y \<Longrightarrow> pf_le y z \<Longrightarrow> pf_le x z"
  by (cases x; cases y; cases z) auto

text \<open>The loop invariant on a row without NaN: the running maximum bounds the scanned
  prefix and is strictly above every entry before the running index.\<close>

lemma argmax_loop_first:
  assumes "length ys = i" "best < i" "ys ! best = mp" "\<not> isnan mp"
    "\<forall>j < i. pf_le (ys ! j) mp" "\<forall>j < best. \<not> pf_le mp (ys ! j)" "\<not> list_ex isnan xs"
  shows "(\<forall>j < i + length xs. pf_le ((ys @ xs) ! j) ((ys @ xs) ! argmax_loop i best mp xs)) \<and>
         (\<forall>j < argmax_loop i best mp xs. \<not> pf_le ((ys @ xs) ! argmax_loop i best mp xs) ((ys @ xs) ! j))"
  using assms
proof (induction xs arbitrary: i best mp ys)
  case Nil
  then show ?case by simp
next
  case (Cons x xs)
  have nx: "\<not> isnan x" using Cons.prems(7) by simp
  show ?case
  proof (cases "pf_le x mp")
    case True
    have "\<forall>j < Suc i. pf_le ((ys @ [x]) ! j) mp"
      using Cons.prems(1,5) True by (auto simp: nth_append less_Suc_eq)
    moreover have "\<forall>j < best. \<not> pf_le mp ((ys @ [x]) ! j)"
      using Cons.prems(1,2,6) by (auto simp: nth_append)
    ultimately have "(\<forall>j < Suc i + length xs. pf_le (((ys @ [x]) @ xs) ! j) (((ys @ [x]) @ xs) ! argmax_loop (Suc i) best mp xs)) \<and>
         (\<forall>j < argmax_loop (Suc i) best mp xs. \<not> pf_le (((ys @ [x]) @ xs) ! argmax_loop (Suc i) best mp xs) (((ys @ [x]) @ xs) ! j))"
      using Cons.prems by (intro Cons.IH) (auto simp: nth_append)
    with True show ?thesis by simp
  next
    case False
    have up: "pf_le mp x" using pf_le_total[OF nx Cons.prems(4) False] .
    have "\<forall>j < Suc i. pf_le ((ys @ [x]) ! j) x"
      using Cons.prems(1,5) up nx by (auto simp: nth_append less_Suc_eq intro: pf_le_trans pf_le_refl)
    moreover have "\<forall>j < i. \<not> pf_le x ((ys @ [x]) ! j)"
      using Cons.prems(1,5) False by (auto simp: nth_append dest: pf_le_trans)
    ultimately have "(\<forall>j < Suc i + length xs. pf_le (((ys @ [x]) @ xs) ! j) (((ys @ [x]) @ xs) ! argmax_loop (Suc i) i x xs)) \<and>
         (\<forall>j < argmax_loop (Suc i) i x xs. \<not> pf_le (((ys @ [x]) @ xs) ! argmax_loop (Suc i) i x xs) (((ys @ [x]) @ xs) ! j))"
      using Cons.prems nx by (intro Cons.IH) (auto simp: nth_append)
    with False nx show ?thesis by simp
  qed
qed

text \<open>On a row without NaN, \<open>np.argmax\<close> as numpy's loop computes it
  returns the first position of a maximum: its entry is at least every entry of the row
  and strictly above every entry before it.\<close>

lemma np_argmax_first_max:
  assumes "xs \<noteq> []" "\<not> list_ex isnan xs"
  shows "\<exists>i. np_argmax xs = Inr i \<and> i < length xs \<and> (\<forall>j < length xs. pf_le (xs ! j) (xs ! i)) \<and>
             (\<forall>j < i. \<not> pf_le (xs ! i) (xs ! j))"
proof -
  obtain x rest where xs: "xs = x # rest" using assms(1) by (cases xs) auto
  have nx: "\<not> isnan x" and nr: "\<not> list_ex isnan rest" using assms(2) xs by auto
  have "(\<forall>j < 1 + length rest. pf_le (([x] @ rest) ! j) (([x] @ rest) ! argmax_loop 1 0 x rest)) \<and>
        (\<forall>j < argmax_loop 1 0 x rest. \<not> pf_le (([x] @ rest) ! argmax_loop 1 0 x rest) (([x] @ rest) ! j))"
    using nx nr by (intro argmax_loop_first) (auto intro: pf_le_refl)
  moreover have "argmax_loop 1 0 x rest < 1 + length rest"
    using argmax_loop_max[of "[x]" 1 0 x rest] nx by simp
  ultimately show ?thesis using xs nx by (simp add: np_argmax_def)
qed

lemma np_argmax_nonempty: "xs \<noteq> [] \<Longrightarrow> \<exists>i. np_argmax xs = Inr i"
  by (cases xs) (auto simp: np_argmax_def)

lemma to_categorical_Inr_iff:
  assumes "k \<le> 2 ^ 63"
  shows "(\<exists>oh. to_categorical ys k = Inr oh) \<longleftrightarrow> list_all (\<lambda>y. - int k \<le> y \<and> y < int k) ys"
proof -
  have "list_all (\<lambda>y. - int k \<le> y \<and> y < int k) ys \<Longrightarrow> list_all int64_ok ys"
    using assms by (fastforce simp: list_all_iff int64_ok_def)
  then show ?thesis
    by (auto simp: to_categorical_def list_all_iff find_None_iff
             split: option.splits dest!: find_Some_iff[THEN iffD1])
qed

text \<open>\<open>int()\<close> reads back the decimal literal \<open>str()\<close> prints.\<close>

lemma is_dec_digit_char_of: "(d::nat) < 10 \<Longrightarrow> is_dec_digit (char_of (48 + d))"
  by (simp add: is_dec_digit_def Let_def)


lemma nat_str_digits: "list_all is_dec_digit (nat_str n)"
proof (induction n rule: nat_str.induct)
  case (1 n)
  then show ?case by (subst nat_str.simps) (auto simp: is_dec_digit_char_of)
qed

lemma dec_digit_not_special: "is_dec_digit c \<Longrightarrow> c \<noteq> CHR ''_'' \<and> c \<noteq> CHR ''-'' \<and> c \<noteq> CHR ''+'' \<and> \<not> py_space c"
  by (auto simp: is_dec_digit_def py_space_def Let_def)

lemma dec_rest_digits: "list_all is_dec_digit s \<Longrightarrow> dec_rest s"
  by (induction s) (auto dest: dec_digit_not_special)

lemma dec_body_digits: "list_all is_dec_digit s \<Longrightarrow> s \<noteq> [] \<Longrightarrow> dec_body s"
  by (cases s) (auto simp: dec_rest_digits)

lemma dec_value_snoc:
  "is_dec_digit c \<Longrightarrow> dec_value (s @ [c]) = 10 * dec_value s + (of_char c - 48)"
  by (simp add: dec_value_def)

lemma dec_value_nat_str: "dec_value (nat_str n) = n"
proof (induction n rule: nat_str.induct)
  case (1 n)
  show ?case
  proof (cases "n < 10")
    case True
    then show ?thesis by (subst nat_str.simps) (simp add: dec_value_def is_dec_digit_def Let_def)
  next
    case False
    then have "dec_value (nat_str n) = 10 * dec_value (nat_str (n div 10)) + n mod 10"
      by (subst nat_str.simps) (simp add: dec_value_snoc is_dec_digit_char_of)
    with False "1.IH" show ?thesis by simp
  qed
qed

lemma strip_space_id:
  assumes "s \<noteq> []" "\<not> py_space (hd s)" "\<not> py_space (last s)"
  shows "strip_space s = s"
proof -
  have "dropWhile py_space s = s" using assms(1,2) by (cases s) auto
  moreover have "dropWhile py_space (rev s) = rev s"
    using assms(1,3) by (cases "rev s") (auto simp: hd_rev[symmetric])
  ultimately show ?thesis by (simp add: strip_space_def)
qed

lemma nat_str_last_digit: "is_dec_digit (last (nat_str n)) \<and> is_dec_digit (hd (nat_str n))"
  using nat_str_digits[of n] nat_str_nonempty[of n] by (simp add: list_all_iff)

lemma strip_space_int_str: "strip_space (int_str i) = int_str i"
  using nat_str_last_digit[of "nat (- i)"] nat_str_last_digit[of "nat i"] nat_str_nonempty
  by (auto simp: int_str_def py_space_def Let_def intro!: strip_space_id dest: dec_digit_not_special)

lemma split_sign_digits: "list_all is_dec_digit s \<Longrightarrow> split_sign s = (1, s)"
  by (cases s) (auto simp: split_sign_def dest: dec_digit_not_special)

lemma parse_int_literal_int_str: "parse_int_literal (int_str i) = Some i"
proof -
  have p: "parse_int_literal (int_str i) = (case split_sign (int_str i) of
      (sg, b) \<Rightarrow> if dec_body b then Some (sg * int (dec_value b)) else None)"
    by (simp add: parse_int_literal_def strip_space_int_str)
  show ?thesis
  proof (cases "i < 0")
    case True
    with p show ?thesis
      by (simp add: int_str_def split_sign_def dec_body_digits nat_str_digits nat_str_nonempty
                    dec_value_nat_str)
  next
    case False
    with p show ?thesis
      by (simp add: int_str_def split_sign_digits dec_body_digits nat_str_digits nat_str_nonempty
                    dec_value_nat_str)
  qed
qed

lemma to_categorical_Inr_range:
  "to_categorical ys k = Inr oh \<Longrightarrow> list_all (\<lambda>y. - int k \<le> y \<and> y < int k) ys"
  by (auto simp: to_categorical_def list_all_iff find_None_iff split: if_splits option.splits)

end
