(* ===== verification/Models.thy ===== *)
theory Models
  imports PyValues
begin

text \<open>
  The pretrained artifacts of \<^verbatim>\<open>NetworkTrafficClassifier\<close>
  (\<^verbatim>\<open>src/model_handler.py\<close>, lines 20--135 and 297--308) and the state of that
  object. The three Keras networks are opaque: a network is its forward pass on one batch
  (which may raise) and its parameter count, and \<open>keras_predict\<close> is
  \<open>model.predict(x, batch_size=128)\<close>, which cuts the input into batches and
  concatenates the outputs. The Gaussian mixture and the scaler are opaque too, behind
  the input validation scikit-learn performs before it applies them. The object's state
  is a record whose model attributes are options: an attribute that \<open>load_models\<close>
  never assigned is \<open>None\<close>, and reading it raises \<open>AttributeError\<close>.
\<close>

section \<open>Keras networks and batched prediction\<close>

record ('x, 'y) keras_model =
  km_forward :: "'x list \<Rightarrow> 'y list result"
  km_params :: nat

text \<open>The batches of \<open>predict\<close>: consecutive slices of \<open>n\<close> rows, the last one
  shorter. The batch size is the constant 128 of the source; a zero size keeps one batch.\<close>

function chunks :: "nat \<Rightarrow> 'a list \<Rightarrow> 'a list list" where
  "chunks n xs = (if xs = [] then [] else if n = 0 then [xs]
                  else take n xs # chunks n (drop n xs))"
  by pat_completeness auto
termination
  by (relation "measure (\<lambda>(n, xs). length xs)") auto

definition batch_size :: nat where
  "batch_size = 128"

text \<open>\<open>model.predict(x, batch_size=bs)\<close>: Keras refuses an empty input, runs the
  forward pass batch after batch and concatenates the outputs.\<close>

definition keras_predict :: "('x, 'y) keras_model \<Rightarrow> nat \<Rightarrow> 'x list \<Rightarrow> 'y list result" where
  "keras_predict m bs xs =
     (if xs = [] then Inl (ValueError ''Unexpected result of `predict_function` (Empty batch_outputs).'')
      else rbind (rmap (km_forward m) (chunks bs xs)) (\<lambda>outs. Inr (concat outs)))"

section \<open>Input validation of scikit-learn estimators\<close>

text \<open>The checks of \<open>check_array\<close> and \<open>_check_n_features\<close>, in their order:
  NaN (where the estimator refuses it), infinity, no sample, no feature, a feature count
  other than the one seen at fit time.\<close>

definition sk_validate :: "string \<Rightarrow> bool \<Rightarrow> nat \<Rightarrow> pyfloat list list \<Rightarrow> unit result" where
  "sk_validate est allow_nan nfeat X =
     (if \<not> allow_nan \<and> list_ex (list_ex isnan) X
      then Inl (ValueError ''Input X contains NaN.'')
      else if list_ex (list_ex (\<lambda>v. v = PInf \<or> v = NInf)) X
      then Inl (ValueError ''Input X contains infinity or a value too large for dtype('float64').'')
      else case X of
        [] \<Rightarrow> Inl (ValueError (''Found array with 0 sample(s) while a minimum of 1 is required by '' @ est @ ''.''))
      | r # _ \<Rightarrow>
          (if r = [] then Inl (ValueError (''Found array with 0 feature(s) while a minimum of 1 is required by '' @ est @ ''.''))
           else if length r \<noteq> nfeat
           then Inl (ValueError (''X has '' @ nat_str (length r) @ '' features, but '' @ est @
                                 '' is expecting '' @ nat_str nfeat @ '' features as input.''))
           else Inr ()))"

text \<open>The fitted scaler: the feature count seen at fit time and its per-sample
  transform. Scalers let NaN through their validation and through the transform.\<close>

record scaler_model =
  sc_n_features :: nat
  sc_transform_row :: "pyfloat list \<Rightarrow> pyfloat list"

text \<open>\<open>scaler.transform(X)\<close> on the values of the feature columns: numpy's float
  conversion of every cell, then the validation, then the transform of each row.\<close>

definition scaler_transform :: "scaler_model \<Rightarrow> cell list list \<Rightarrow> pyfloat list list result" where
  "scaler_transform sc X =
     rbind (rmap (rmap to_float) X) (\<lambda>F.
     rbind (sk_validate ''the scaler'' True (sc_n_features sc) F) (\<lambda>_.
     Inr (map (sc_transform_row sc) F)))"

text \<open>The fitted Gaussian mixture: its feature count, its number of components and the
  component of highest posterior probability for one finite sample.\<close>

record gmm_model =
  gmm_n_features :: nat
  gmm_n_components :: nat
  gmm_assign :: "real list \<Rightarrow> nat"

fun fin_val :: "pyfloat \<Rightarrow> real" where
  "fin_val (Fin r) = r"
| "fin_val _ = 0"

text \<open>\<open>gmm.predict(X)\<close>: the validation refuses NaN, then every row gets its
  component.\<close>

definition gmm_predict :: "gmm_model \<Rightarrow> pyfloat list list \<Rightarrow> int list result" where
  "gmm_predict g X =
     rbind (sk_validate ''GaussianMixture'' False (gmm_n_features g) X) (\<lambda>_.
     Inr (map (\<lambda>r. int (gmm_assign g (map fin_val r))) X))"

section \<open>The classifier object\<close>

record ntc_state =
  labels_iscx :: "string list"
  latent_dim :: nat
  models_loaded :: bool
  device :: string
  generator :: "(pyfloat list, pyfloat list) keras_model option"
  discriminator :: "(pyfloat list, pyfloat list) keras_model option"
  classifier :: "(pyfloat list list, pyfloat list) keras_model option"
  gmm :: "gmm_model option"
  scaler :: "scaler_model option"

text \<open>What \<open>load_model\<close> and \<open>joblib.load\<close> return for the five files under
  \<^verbatim>\<open>models/\<close>, in the order they are loaded.\<close>

record artifacts =
  art_generator :: "(pyfloat list, pyfloat list) keras_model result"
  art_discriminator :: "(pyfloat list, pyfloat list) keras_model result"
  art_classifier :: "(pyfloat list list, pyfloat list) keras_model result"
  art_gmm :: "gmm_model result"
  art_scaler :: "scaler_model result"

definition LABELS_ISCX :: "string list" where
  "LABELS_ISCX = [''chat'', ''email'', ''file'', ''streaming'', ''voip'']"

text \<open>\<open>configure_gpu\<close>: one flag per physical GPU, whether
  \<open>set_memory_growth\<close> succeeded on it; the first failure falls back to the CPU.\<close>

definition configure_gpu :: "bool list \<Rightarrow> string" where
  "configure_gpu gpus =
     (if gpus = [] then ''/CPU:0''
      else if list_all id gpus then ''/GPU:0'' else ''/CPU:0'')"

text \<open>\<open>load_models\<close>: each attribute is assigned once its file has loaded; the first
  failure ends the sequence with \<open>models_loaded = False\<close> and leaves the attributes
  loaded so far in place.\<close>

definition load_models :: "artifacts \<Rightarrow> ntc_state \<Rightarrow> ntc_state" where
  "load_models a st =
     (case art_generator a of Inl _ \<Rightarrow> st\<lparr>models_loaded := False\<rparr> | Inr g \<Rightarrow>
      let st1 = st\<lparr>generator := Some g\<rparr> in
      case art_discriminator a of Inl _ \<Rightarrow> st1\<lparr>models_loaded := False\<rparr> | Inr d \<Rightarrow>
      let st2 = st1\<lparr>discriminator := Some d\<rparr> in
      case art_classifier a of Inl _ \<Rightarrow> st2\<lparr>models_loaded := False\<rparr> | Inr c \<Rightarrow>
      let st3 = st2\<lparr>classifier := Some c\<rparr> in
      case art_gmm a of Inl _ \<Rightarrow> st3\<lparr>models_loaded := False\<rparr> | Inr m \<Rightarrow>
      let st4 = st3\<lparr>gmm := Some m\<rparr> in
      case art_scaler a of Inl _ \<Rightarrow> st4\<lparr>models_loaded := False\<rparr> | Inr s \<Rightarrow>
      st4\<lparr>scaler := Some s, models_loaded := True\<rparr>)"

text \<open>\<open>__init__\<close>: the label vocabulary, the latent size 100, the device, then the
  models.\<close>

definition ntc_init :: "bool list \<Rightarrow> artifacts \<Rightarrow> ntc_state" where
  "ntc_init gpus a = load_models a
     \<lparr>labels_iscx = LABELS_ISCX, latent_dim = 100, models_loaded = False,
      device = configure_gpu gpus, generator = None, discriminator = None,
      classifier = None, gmm = None, scaler = None\<rparr>"

text \<open>Reading an attribute of the object.\<close>

definition get_attr :: "string \<Rightarrow> 'a option \<Rightarrow> 'a result" where
  "get_attr name v = (case v of
      None \<Rightarrow> Inl (AttributeError ([CHR 0x27] @ ''NetworkTrafficClassifier' object has no attribute '' @
                            [CHR 0x27] @ name @ [CHR 0x27]))
    | Some x \<Rightarrow> Inr x)"

text \<open>\<open>get_model_info\<close>.\<close>

definition get_model_info :: "ntc_state \<Rightarrow> pyval result" where
  "get_model_info st =
     rbind (get_attr ''generator'' (generator st)) (\<lambda>g.
     rbind (get_attr ''discriminator'' (discriminator st)) (\<lambda>d.
     rbind (get_attr ''classifier'' (classifier st)) (\<lambda>c.
     Inr (VDict [(''labels'', VList (map VStr (labels_iscx st))),
                 (''architecture'', VDict [(''generator_params'', VInt (int (km_params g))),
                                          (''discriminator_params'', VInt (int (km_params d))),
                                          (''classifier_params'', VInt (int (km_params c)))]),
                 (''status'', VBool (models_loaded st)),
                 (''device'', VStr (device st))]))))"

text \<open>A Keras network maps a batch of \<open>n\<close> rows to \<open>n\<close> rows.\<close>

definition row_preserving :: "('x, 'y) keras_model \<Rightarrow> bool" where
  "row_preserving m \<longleftrightarrow> (\<forall>b out. km_forward m b = Inr out \<longrightarrow> length out = length b)"

section \<open>Lemmas\<close>

declare chunks.simps [simp del]

lemma concat_chunks: "concat (chunks n xs) = xs"
proof (induction n xs rule: chunks.induct)
  case (1 n xs)
  then show ?case by (subst chunks.simps) auto
qed

text \<open>The batching loop of \<open>predict\<close> ends: for a batch size \<open>bs > 0\<close> it
  runs the network on exactly \<open>\<lceil>n / bs\<rceil>\<close> batches, each non-empty and of at most \<open>bs\<close> rows.\<close>

lemma chunks_loop_bound:
  assumes "0 < bs"
  shows "length (chunks bs xs) = (length xs + bs - 1) div bs \<and>
         list_all (\<lambda>c. c \<noteq> [] \<and> length c \<le> bs) (chunks bs xs)"
  using assms
proof (induction bs xs rule: chunks.induct)
  case (1 n xs)
  show ?case
  proof (cases "xs = []")
    case True
    then show ?thesis using "1.prems" by (simp add: chunks.simps)
  next
    case False
    have IH: "length (chunks n (drop n xs)) = (length xs - n + n - 1) div n \<and>
              list_all (\<lambda>c. c \<noteq> [] \<and> length c \<le> n) (chunks n (drop n xs))"
      using "1.IH"[OF False] "1.prems" by simp
    have e: "(length xs + n - 1) div n = Suc ((length xs - 1) div n)"
    proof -
      have "length xs + n - 1 = length xs - 1 + n" using False by (cases xs) simp_all
      then have "(length xs + n - 1) div n = (length xs - 1 + n) div n" by simp
      then show ?thesis using "1.prems" by simp
    qed
    have "(length xs - n + n - 1) div n = (length xs - 1) div n"
      using "1.prems" by (cases "length xs < n") simp_all
    with e have "Suc ((length xs - n + n - 1) div n) = (length xs + n - 1) div n" by simp
    moreover have "chunks n xs = take n xs # chunks n (drop n xs)"
      using False "1.prems" by (subst chunks.simps) simp
    ultimately show ?thesis using IH False "1.prems" by simp
  qed
qed
text \<open>Batched prediction of a network that works row by row computes the
  row-wise map over the whole input: cutting it into batches of 128 changes neither the
  result nor which row's error is raised.\<close>

lemma keras_predict_rowwise:
  assumes "\<And>b. km_forward m b = rmap f b" "xs \<noteq> []"
  shows "keras_predict m bs xs = rmap f xs"
proof -
  have "km_forward m = rmap f"
    by (rule ext) (rule assms(1))
  then have "rmap (km_forward m) (chunks bs xs) = rmap (rmap f) (chunks bs xs)"
    by simp
  then show ?thesis
    using assms(2) rmap_concat[of f "chunks bs xs", unfolded concat_chunks]
    by (simp add: keras_predict_def)
qed

lemma load_models_loaded:
  "models_loaded (load_models a st) \<longleftrightarrow>
     (\<exists>g d c m s. art_generator a = Inr g \<and> art_discriminator a = Inr d \<and>
        art_classifier a = Inr c \<and> art_gmm a = Inr m \<and> art_scaler a = Inr s)"
  by (simp add: load_models_def Let_def split: sum.splits)

text \<open>Claim C17. After \<open>load_models\<close>, the flag \<open>models_loaded\<close> is set only
  when every one of the five model attributes has been assigned.\<close>

lemma load_models_attrs:
  assumes "models_loaded (load_models a st)"
  shows "generator (load_models a st) \<noteq> None \<and> discriminator (load_models a st) \<noteq> None \<and>
         classifier (load_models a st) \<noteq> None \<and> gmm (load_models a st) \<noteq> None \<and>
         scaler (load_models a st) \<noteq> None"
  using assms by (simp add: load_models_def Let_def split: sum.splits)

lemma load_models_labels [simp]:
  "labels_iscx (load_models a st) = labels_iscx st \<and> latent_dim (load_models a st) = latent_dim st
   \<and> device (load_models a st) = device st"
  by (simp add: load_models_def Let_def split: sum.splits)

lemma keras_predict_length:
  assumes "row_preserving m" "keras_predict m bs xs = Inr ys"
  shows "length ys = length xs"
proof -
  from assms(2) obtain outs where outs: "rmap (km_forward m) (chunks bs xs) = Inr outs" and ys: "ys = concat outs"
    by (auto simp: keras_predict_def split: if_splits)
  from outs have "list_all2 (\<lambda>c ot. km_forward m c = Inr ot) (chunks bs xs) outs"
    by (simp add: rmap_eq_Inr_iff)
  then have "list_all2 (\<lambda>c ot. length ot = length c) (chunks bs xs) outs"
    using assms(1) by (auto simp: row_preserving_def elim: list_all2_mono)
  then have "length (concat outs) = length (concat (chunks bs xs))"
    by (induction rule: list_all2_induct) auto
  then show ?thesis by (simp add: ys concat_chunks)
qed

lemma gmm_predict_nonneg: "gmm_predict g X = Inr ps \<Longrightarrow> list_all (\<lambda>p. 0 \<le> p) ps"
  by (auto simp: gmm_predict_def list_all_iff)

text \<open>Claim C18. \<open>get_model_info\<close> answers after start-up exactly when the generator,
  the discriminator and the classifier files loaded; when one of them failed it raises
  \<open>AttributeError\<close> instead of reporting \<open>status: False\<close>.\<close>

lemma model_info_available:
  "(\<exists>v. get_model_info (ntc_init gpus a) = Inr v) \<longleftrightarrow>
     (\<exists>g d c. art_generator a = Inr g \<and> art_discriminator a = Inr d \<and> art_classifier a = Inr c)"
  by (auto simp: get_model_info_def ntc_init_def load_models_def get_attr_def Let_def
           split: sum.splits option.splits)

end
