(* ===== verification/Evaluator.thy ===== *)
theory Evaluator
  imports PyValues
begin

text \<open>
  The evaluator of \<^verbatim>\<open>src/model_handler.py\<close> (lines 182--267 of \<open>predict\<close>):
  when the table has labels, the rows whose label is NaN are masked out, scikit-learn's
  \<open>classification_report(..., target_names=LABELS_ISCX, output_dict=True,
  zero_division=0)\<close> and \<open>confusion_matrix\<close> are computed, the report goes through
  the two NaN-repair passes of lines 201--209 and 225--240, between which the text report
  is printed (a second \<open>classification_report\<close> call) and every class's F1 score is
  read and tested with \<open>np.isnan\<close>; then the confusion matrix is rendered to an image. Any exception inside that block is caught (line 262): the
  request then carries no report and no image.

  The scikit-learn functions are modelled by what they compute: the labels are the sorted
  union of true and predicted labels, and \<open>classification_report\<close> raises unless
  there are as many of them as target names; per class it reports precision
  \<open>tp/(tp+fp)\<close>, recall \<open>tp/(tp+fn)\<close>, F1 \<open>2tp/(2tp+fp+fn)\<close> (0 where the
  denominator is 0) and the support, then the accuracy and the macro and
  support-weighted averages, every number a float.
\<close>

section \<open>scikit-learn's report and confusion matrix\<close>

definition unique_labels :: "int list \<Rightarrow> int list \<Rightarrow> int list" where
  "unique_labels ys ps = sorted_list_of_set (set ys \<union> set ps)"

definition n_match :: "int list \<Rightarrow> int list \<Rightarrow> (int \<Rightarrow> int \<Rightarrow> bool) \<Rightarrow> nat" where
  "n_match ys ps P = length (filter (\<lambda>(y, p). P y p) (zip ys ps))"

text \<open>A ratio under \<open>zero_division=0\<close>.\<close>

definition safe_div :: "nat \<Rightarrow> nat \<Rightarrow> real" where
  "safe_div a b = (if b = 0 then 0 else real a / real b)"

text \<open>Precision, recall, F1 and support of one class.\<close>

definition class_scores :: "int list \<Rightarrow> int list \<Rightarrow> int \<Rightarrow> real list" where
  "class_scores ys ps l =
     (let tp = n_match ys ps (\<lambda>y p. y = l \<and> p = l);
          fp = n_match ys ps (\<lambda>y p. y \<noteq> l \<and> p = l);
          fn = n_match ys ps (\<lambda>y p. y = l \<and> p \<noteq> l)
      in [safe_div tp (tp + fp), safe_div tp (tp + fn), safe_div (2 * tp) (2 * tp + fp + fn),
          real (count_list ys l)])"

definition macro_avg :: "real list list \<Rightarrow> real list" where
  "macro_avg ss = map (\<lambda>j. (\<Sum>s \<leftarrow> ss. s ! j) / real (length ss)) [0, 1, 2] @ [\<Sum>s \<leftarrow> ss. s ! 3]"

definition weighted_avg :: "real list list \<Rightarrow> real list" where
  "weighted_avg ss =
     (let tot = (\<Sum>s \<leftarrow> ss. s ! 3)
      in map (\<lambda>j. if tot = 0 then 0 else (\<Sum>s \<leftarrow> ss. s ! j * s ! 3) / tot) [0, 1, 2] @ [tot])"

definition accuracy :: "int list \<Rightarrow> int list \<Rightarrow> real" where
  "accuracy ys ps = safe_div (n_match ys ps (\<lambda>y p. y = p)) (length ys)"

definition scores_dict :: "real list \<Rightarrow> pyval" where
  "scores_dict s = VDict (zip [''precision'', ''recall'', ''f1-score'', ''support''] (map (\<lambda>x. VFloat (Fin x)) s))"

definition classification_report :: "string list \<Rightarrow> int list \<Rightarrow> int list \<Rightarrow> pyval result" where
  "classification_report names ys ps =
     (if length ys \<noteq> length ps
      then Inl (ValueError (''Found input variables with inconsistent numbers of samples: ['' @
                            nat_str (length ys) @ '', '' @ nat_str (length ps) @ '']''))
      else let labels = unique_labels ys ps in
      if length labels \<noteq> length names
      then Inl (ValueError (''Number of classes, '' @ nat_str (length labels) @
                            '', does not match size of target_names, '' @ nat_str (length names) @
                            ''. Try specifying the labels parameter''))
      else let ss = map (class_scores ys ps) labels in
      Inr (VDict (zip names (map scores_dict ss) @
                  [(''accuracy'', VFloat (Fin (accuracy ys ps))),
                   (''macro avg'', scores_dict (macro_avg ss)),
                   (''weighted avg'', scores_dict (weighted_avg ss))])))"

definition confusion_matrix :: "int list \<Rightarrow> int list \<Rightarrow> nat list list" where
  "confusion_matrix ys ps =
     (let labels = unique_labels ys ps
      in map (\<lambda>a. map (\<lambda>b. n_match ys ps (\<lambda>y p. y = a \<and> p = b)) labels) labels)"

section \<open>The NaN-repair passes\<close>

text \<open>\<open>isinstance(v, (float, int))\<close>; a bool is an int.\<close>

fun is_num :: "pyval \<Rightarrow> bool" where
  "is_num (VFloat _) = True"
| "is_num (VInt _) = True"
| "is_num (VBool _) = True"
| "is_num _ = False"

text \<open>Lines 203--207, for one metric of a class: \<open>np.isnan(value)\<close> is evaluated
  before \<open>value is None\<close>, so a \<open>None\<close> raises instead of being replaced.\<close>

fun fix_metric :: "string \<times> pyval \<Rightarrow> (string \<times> pyval) result" where
  "fix_metric (name, v) =
     (if name \<noteq> ''support''
      then rbind (np_isnan_val v) (\<lambda>b. Inr (name, if b \<or> v = VNone then VFloat (Fin 0) else v))
      else Inr (name, v))"

text \<open>Lines 201--209, for one entry of the report.\<close>

fun fix_report_entry :: "string \<times> pyval \<Rightarrow> (string \<times> pyval) result" where
  "fix_report_entry (cn, VDict ms) = rbind (rmap fix_metric ms) (\<lambda>ms'. Inr (cn, VDict ms'))"
| "fix_report_entry (cn, v) =
     (if is_num v
      then rbind (np_isnan_val v) (\<lambda>b. Inr (cn, if b \<or> v = VNone then VFloat (Fin 0) else v))
      else Inr (cn, v))"

fun report_fix_pass :: "pyval \<Rightarrow> pyval result" where
  "report_fix_pass (VDict kvs) = rbind (rmap fix_report_entry kvs) (\<lambda>kvs'. Inr (VDict kvs'))"
| "report_fix_pass _ = Inl (AttributeError ''object has no attribute items'')"

text \<open>\<open>fix_nan_recursive\<close> (lines 225--237) on a value found inside a container:
  containers are walked, a NaN float is replaced by \<open>0.0\<close>.\<close>

primrec fix_nan_entry :: "pyval \<Rightarrow> pyval" where
  "fix_nan_entry (VDict kvs) = VDict (map (map_prod id fix_nan_entry) kvs)"
| "fix_nan_entry (VList vs) = VList (map fix_nan_entry vs)"
| "fix_nan_entry (VFloat f) = VFloat (if isnan f then Fin 0 else f)"
| "fix_nan_entry (VInt i) = VInt i"
| "fix_nan_entry (VStr s) = VStr s"
| "fix_nan_entry VNone = VNone"
| "fix_nan_entry (VBool b) = VBool b"

text \<open>An int numpy cannot convert, anywhere inside a container: \<open>np.isnan\<close> raises
  on it.\<close>

fun has_bad_int :: "pyval \<Rightarrow> bool" where
  "has_bad_int (VInt i) = (\<not> np_int_ok i)"
| "has_bad_int (VList vs) = list_ex has_bad_int vs"
| "has_bad_int (VDict kvs) = list_ex (\<lambda>kv. has_bad_int (snd kv)) kvs"
| "has_bad_int _ = False"

text \<open>\<open>fix_nan_recursive(obj)\<close>: it mutates the containers in place; when it raises,
  the caller discards the whole report, so only whether it raises and the repaired value
  are observable. A value that is not a container is left alone.\<close>

definition fix_nan_recursive :: "pyval \<Rightarrow> pyval result" where
  "fix_nan_recursive obj =
     (case obj of
        VDict _ \<Rightarrow> (if has_bad_int obj then Inl (TypeError ''ufunc 'isnan' not supported for the input types'')
                    else Inr (fix_nan_entry obj))
      | VList _ \<Rightarrow> (if has_bad_int obj then Inl (TypeError ''ufunc 'isnan' not supported for the input types'')
                    else Inr (fix_nan_entry obj))
      | _ \<Rightarrow> Inr obj)"

text \<open>Whether a NaN occurs anywhere in a value, and whether every float in it is
  finite: the two readings of "no undefined numeric value reaches the response".\<close>

fun has_nan :: "pyval \<Rightarrow> bool" where
  "has_nan (VFloat f) = isnan f"
| "has_nan (VList vs) = list_ex has_nan vs"
| "has_nan (VDict kvs) = list_ex (\<lambda>kv. has_nan (snd kv)) kvs"
| "has_nan _ = False"

fun is_fin :: "pyfloat \<Rightarrow> bool" where
  "is_fin (Fin _) = True"
| "is_fin _ = False"

fun all_finite :: "pyval \<Rightarrow> bool" where
  "all_finite (VFloat f) = is_fin f"
| "all_finite (VList vs) = list_all all_finite vs"
| "all_finite (VDict kvs) = list_all (\<lambda>kv. all_finite (snd kv)) kvs"
| "all_finite _ = True"

section \<open>The evaluation block\<close>

text \<open>Boolean-mask indexing \<open>xs[mask]\<close>.\<close>

definition bool_mask :: "'a list \<Rightarrow> bool list \<Rightarrow> 'a list result" where
  "bool_mask xs m =
     (if length m \<noteq> length xs
      then Inl (IndexError (''boolean index did not match indexed array along axis 0; size of axis is '' @
                            nat_str (length xs) @ '' but size of corresponding boolean axis is '' @
                            nat_str (length m)))
      else Inr (map fst (filter snd (zip xs m))))"

text \<open>Lines 212--214: printing the text report calls \<open>classification_report\<close> a
  second time, with the same arguments; only whether it raises is observable.\<close>

definition print_report_text :: "string list \<Rightarrow> int list \<Rightarrow> int list \<Rightarrow> unit result" where
  "print_report_text names ys ps = rbind (classification_report names ys ps) (\<lambda>_. Inr ())"

text \<open>Lines 217--222: for each class name that is a key of the report, read its
  \<open>f1-score\<close> and test it with \<open>np.isnan\<close>; only whether it raises is observable.\<close>

definition print_f1_scores :: "string list \<Rightarrow> pyval \<Rightarrow> unit result" where
  "print_f1_scores names report =
     (case report of
        VDict kvs \<Rightarrow>
          rbind (rmap (\<lambda>class_name. case map_of kvs class_name of
                   None \<Rightarrow> Inr ()
                 | Some (VDict ms) \<Rightarrow>
                     (case map_of ms ''f1-score'' of
                        None \<Rightarrow> Inl (KeyError ''f1-score'')
                      | Some f1 \<Rightarrow> rbind (np_isnan_val f1) (\<lambda>_. Inr ()))
                 | Some _ \<Rightarrow> Inl (TypeError ''object is not subscriptable'')) names) (\<lambda>_. Inr ())
      | _ \<Rightarrow> Inl (TypeError ''argument of type is not iterable''))"

text \<open>Lines 194--261, the body of the inner \<open>try\<close>: the report, the first repair pass,
  the two printing steps, the recursive repair, the confusion matrix and its rendering.\<close>

definition report_block :: "(nat list list \<Rightarrow> string) \<Rightarrow> string list \<Rightarrow> int list \<Rightarrow> int list \<Rightarrow>
    (pyval \<times> string) result" where
  "report_block render names ys ps =
     rbind (classification_report names ys ps) (\<lambda>report.
     rbind (report_fix_pass report) (\<lambda>report1.
     rbind (print_report_text names ys ps) (\<lambda>_.
     rbind (print_f1_scores names report1) (\<lambda>_.
     rbind (fix_nan_recursive report1) (\<lambda>report2.
     Inr (report2, render (confusion_matrix ys ps)))))))"

text \<open>Lines 188--267. \<open>y_true\<close> is the integer array the preprocessor built, so
  \<open>np.isnan\<close> sees the floats of integers. The inner \<open>try\<close> turns any exception of
  the report block into "no report, no image".\<close>

definition evaluate :: "(nat list list \<Rightarrow> string) \<Rightarrow> string list \<Rightarrow> int list \<Rightarrow> nat list \<Rightarrow>
    (pyval option \<times> string option) result" where
  "evaluate render names y_true pred_classes =
     (let valid_indices = map (\<lambda>y. \<not> isnan (Fin (of_int y))) y_true in
      if 0 < count_list valid_indices True
      then rbind (bool_mask y_true valid_indices) (\<lambda>valid_y_true.
           rbind (bool_mask (map int pred_classes) valid_indices) (\<lambda>valid_pred_classes.
           Inr (case report_block render names valid_y_true valid_pred_classes of
                  Inl _ \<Rightarrow> (None, None)
                | Inr (report_data, img) \<Rightarrow> (Some report_data, Some img))))
      else Inr (None, None))"

section \<open>Lemmas\<close>

lemma unique_labels_sort [model_eval]: "unique_labels ys ps = sort (remdups (ys @ ps))"
  by (simp add: unique_labels_def sorted_list_of_set_sort_remdups[symmetric])

lemma unique_labels_distinct: "distinct (unique_labels ys ps)"
  by (simp add: unique_labels_def)

lemma set_unique_labels: "set (unique_labels ys ps) = set ys \<union> set ps"
  by (simp add: unique_labels_def)

text \<open>The NaN-repair passes leave a float dictionary of finite values unchanged.\<close>

lemma fix_metric_fin: "fix_metric (n, VFloat (Fin r)) = Inr (n, VFloat (Fin r))"
  by simp

lemma scores_dict_elem:
  "kv \<in> set (zip ks (map (\<lambda>x. VFloat (Fin x)) s)) \<Longrightarrow> \<exists>k r. kv = (k, VFloat (Fin r))"
  by (auto simp: set_zip)

lemma scores_dict_props:
  "all_finite (scores_dict s) \<and> \<not> has_nan (scores_dict s) \<and> \<not> has_bad_int (scores_dict s)
   \<and> fix_report_entry (n, scores_dict s) = Inr (n, scores_dict s)"
proof -
  let ?kvs = "zip [''precision'', ''recall'', ''f1-score'', ''support''] (map (\<lambda>x. VFloat (Fin x)) s)"
  have e: "\<And>kv. kv \<in> set ?kvs \<Longrightarrow> \<exists>k r. kv = (k, VFloat (Fin r))"
    by (rule scores_dict_elem)
  have "rmap fix_metric ?kvs = Inr (map id ?kvs)"
    by (rule rmap_pointwise) (auto dest!: e)
  moreover have "list_all (\<lambda>kv. all_finite (snd kv)) ?kvs" "\<not> list_ex (\<lambda>kv. has_nan (snd kv)) ?kvs"
      "\<not> list_ex (\<lambda>kv. has_bad_int (snd kv)) ?kvs"
    by (auto simp: list_all_iff list_ex_iff dest!: e)
  ultimately show ?thesis by (simp add: scores_dict_def)
qed

lemma report_entry_cases:
  assumes "kv \<in> set (zip names (map scores_dict ss) @
                  [(''accuracy'', VFloat (Fin a)), (''macro avg'', scores_dict m), (''weighted avg'', scores_dict w)])"
  shows "(\<exists>n s. kv = (n, scores_dict s)) \<or> kv = (''accuracy'', VFloat (Fin a))"
  using assms by (auto simp: set_zip)

text \<open>scikit-learn's report under \<open>zero_division=0\<close> holds finite floats only; both
  repair passes return it unchanged.\<close>

lemma classification_report_clean:
  assumes "classification_report names ys ps = Inr rep"
  shows "all_finite rep \<and> \<not> has_nan rep \<and> report_fix_pass rep = Inr rep \<and> fix_nan_recursive rep = Inr rep"
proof -
  let ?ss = "map (class_scores ys ps) (unique_labels ys ps)"
  have rep0: "rep = VDict (zip names (map scores_dict ?ss) @
      [(''accuracy'', VFloat (Fin (accuracy ys ps))), (''macro avg'', scores_dict (macro_avg ?ss)),
       (''weighted avg'', scores_dict (weighted_avg ?ss))])"
    using assms by (auto simp: classification_report_def Let_def split: if_splits)
  obtain ss a m w where rep: "rep = VDict (zip names (map scores_dict ss) @
      [(''accuracy'', VFloat (Fin a)), (''macro avg'', scores_dict m), (''weighted avg'', scores_dict w)])"
    using rep0 by blast
  let ?kvs = "zip names (map scores_dict ss) @
      [(''accuracy'', VFloat (Fin a)), (''macro avg'', scores_dict m), (''weighted avg'', scores_dict w)]"
  have e: "\<And>kv. kv \<in> set ?kvs \<Longrightarrow> (\<exists>n s. kv = (n, scores_dict s)) \<or> kv = (''accuracy'', VFloat (Fin a))"
    by (rule report_entry_cases)
  have fne: "fix_nan_entry (scores_dict s) = scores_dict s" for s
    by (simp add: scores_dict_def zip_map2 map_prod_def split_def)
  have each: "fix_report_entry kv = Inr (id kv) \<and> all_finite (snd kv) \<and> \<not> has_nan (snd kv)
      \<and> \<not> has_bad_int (snd kv) \<and> map_prod id fix_nan_entry kv = kv" if "kv \<in> set ?kvs" for kv
    using e[OF that] scores_dict_props fne by auto
  then have fixed: "rmap fix_report_entry ?kvs = Inr (map id ?kvs)"
    by (intro rmap_pointwise) blast
  have fin: "list_all (\<lambda>kv. all_finite (snd kv)) ?kvs" and nan: "\<not> list_ex (\<lambda>kv. has_nan (snd kv)) ?kvs"
      and bad: "\<not> list_ex (\<lambda>kv. has_bad_int (snd kv)) ?kvs"
    using each by (auto simp: list_all_iff list_ex_iff)
  have "map (map_prod id fix_nan_entry) ?kvs = ?kvs"
    using each by (intro map_idI) blast
  with rep fixed fin nan bad show ?thesis
    by (simp add: fix_nan_recursive_def)
qed

lemma fix_nan_entry_no_nan: "\<not> has_nan (fix_nan_entry v)"
proof (induction v rule: has_nan.induct)
  case (1 f)
  then show ?case by (cases f) auto
next
  case (2 vs)
  then show ?case by (auto simp: list_ex_iff)
next
  case (3 kvs)
  then show ?case by (fastforce simp: list_ex_iff)
qed auto

text \<open>Claim C20. \<open>fix_nan_recursive\<close> on a dictionary either raises or leaves no NaN
  at any depth.\<close>

lemma fix_nan_recursive_no_nan:
  "fix_nan_recursive v = Inr v' \<Longrightarrow> (\<exists>kvs. v = VDict kvs) \<Longrightarrow> \<not> has_nan v'"
  using fix_nan_entry_no_nan[of v] by (auto simp: fix_nan_recursive_def split: if_splits)

lemma bool_mask_all: "bool_mask xs (map (\<lambda>_. True) xs) = Inr xs"
proof -
  have "map fst (filter snd (zip xs (map (\<lambda>_. True) xs))) = xs"
    by (induction xs) auto
  then show ?thesis by (simp add: bool_mask_def)
qed

lemma valid_indices_all: "map (\<lambda>y. \<not> isnan (Fin (of_int y))) y_true = map (\<lambda>_. True) y_true"
  by simp

lemma evaluate_unfold:
  "evaluate render names y_true pred_classes =
     (if y_true = [] then Inr (None, None)
      else rbind (bool_mask (map int pred_classes) (map (\<lambda>_. True) y_true)) (\<lambda>valid_pred_classes.
           Inr (case report_block render names y_true valid_pred_classes of
                  Inl _ \<Rightarrow> (None, None)
                | Inr (report_data, img) \<Rightarrow> (Some report_data, Some img))))"
proof -
  have "0 < count_list (map (\<lambda>_. True) y_true) True \<longleftrightarrow> y_true \<noteq> []"
    by (induction y_true) auto
  then show ?thesis
    by (simp add: evaluate_def bool_mask_all del: bool_mask_def)
qed

lemma bool_mask_true_Inr:
  "bool_mask xs (map (\<lambda>_. True) ys) = Inr zs \<Longrightarrow> zs = xs \<and> length xs = length ys"
proof -
  have "length xs = length ys \<Longrightarrow> map fst (filter snd (zip xs (map (\<lambda>_. True) ys))) = xs"
    by (induction xs ys rule: list_induct2) auto
  then show "bool_mask xs (map (\<lambda>_. True) ys) = Inr zs \<Longrightarrow> zs = xs \<and> length xs = length ys"
    by (auto simp: bool_mask_def split: if_splits)
qed

lemma print_f1_scores_report:
  assumes "classification_report names ys ps = Inr rep"
  shows "print_f1_scores names rep = Inr ()"
proof -
  let ?ss = "map (class_scores ys ps) (unique_labels ys ps)"
  let ?tl = "[(''accuracy'', VFloat (Fin (accuracy ys ps))), (''macro avg'', scores_dict (macro_avg ?ss)),
              (''weighted avg'', scores_dict (weighted_avg ?ss))]"
  have l: "length ?ss = length names" and
    rep: "rep = VDict (zip names (map scores_dict ?ss) @ ?tl)"
    using assms by (auto simp: classification_report_def Let_def split: if_splits)
  have each: "\<exists>s. map_of (zip names (map scores_dict ?ss) @ ?tl) cn = Some (scores_dict s) \<and> length s = 4"
    if cn: "cn \<in> set names" for cn
  proof -
    obtain y where y: "map_of (zip names (map scores_dict ?ss)) cn = Some y"
      using map_of_zip_is_Some[of names "map scores_dict ?ss" cn] l cn by auto
    then have "(cn, y) \<in> set (zip names (map scores_dict ?ss))" by (rule map_of_SomeD)
    then have "y \<in> set (map scores_dict ?ss)" by (rule set_zip_rightD)
    then obtain s where "y = scores_dict s" "length s = 4"
      by (auto simp: class_scores_def Let_def)
    with y show ?thesis by (auto simp: map_add_find_right)
  qed
  have "(case map_of (zip names (map scores_dict ?ss) @ ?tl) cn of
           None \<Rightarrow> Inr ()
         | Some (VDict ms) \<Rightarrow>
             (case map_of ms ''f1-score'' of
                None \<Rightarrow> Inl (KeyError ''f1-score'')
              | Some f1 \<Rightarrow> rbind (np_isnan_val f1) (\<lambda>_. Inr ()))
         | Some _ \<Rightarrow> Inl (TypeError ''object is not subscriptable'')) = Inr ()"
    if cn: "cn \<in> set names" for cn
  proof -
    obtain s where s: "map_of (zip names (map scores_dict ?ss) @ ?tl) cn = Some (scores_dict s)" "length s = 4"
      using each[OF cn] by blast
    then obtain a b c d where "s = [a, b, c, d]" by (auto simp: numeral_eq_Suc length_Suc_conv)
    with s(1) show ?thesis by (simp add: scores_dict_def)
  qed
  then have "rmap (\<lambda>class_name. case map_of (zip names (map scores_dict ?ss) @ ?tl) class_name of
                   None \<Rightarrow> Inr ()
                 | Some (VDict ms) \<Rightarrow>
                     (case map_of ms ''f1-score'' of
                        None \<Rightarrow> Inl (KeyError ''f1-score'')
                      | Some f1 \<Rightarrow> rbind (np_isnan_val f1) (\<lambda>_. Inr ()))
                 | Some _ \<Rightarrow> Inl (TypeError ''object is not subscriptable'')) names = Inr (map (\<lambda>_. ()) names)"
    by (intro rmap_pointwise) blast
  then show ?thesis by (simp add: rep print_f1_scores_def)
qed

lemma report_block_iff:
  "report_block render names ys ps =
     (case classification_report names ys ps of
        Inl e \<Rightarrow> Inl e
      | Inr rep \<Rightarrow> Inr (rep, render (confusion_matrix ys ps)))"
proof (cases "classification_report names ys ps")
  case (Inl e)
  then show ?thesis by (simp add: report_block_def)
next
  case (Inr rep)
  with classification_report_clean[OF Inr] print_f1_scores_report[OF Inr] show ?thesis
    by (simp add: report_block_def print_report_text_def)
qed

text \<open>When the evaluator returns a report, it is scikit-learn's report, unchanged by the
  repair passes, together with the rendering of the confusion matrix.\<close>

lemma evaluate_Some:
  assumes "evaluate render names y_true pred_classes = Inr (Some rep, img)"
  shows "classification_report names y_true (map int pred_classes) = Inr rep \<and>
         img = Some (render (confusion_matrix y_true (map int pred_classes)))"
proof -
  have ne: "y_true \<noteq> []" using assms by (auto simp: evaluate_unfold)
  obtain vp where vp: "bool_mask (map int pred_classes) (map (\<lambda>_. True) y_true) = Inr vp"
  proof (cases "bool_mask (map int pred_classes) (map (\<lambda>_. True) y_true)")
    case (Inl e)
    with assms ne show ?thesis by (simp add: evaluate_unfold)
  qed
  then have vpe: "vp = map int pred_classes" by (auto dest: bool_mask_true_Inr)
  have eq: "(case report_block render names y_true vp of
               Inl _ \<Rightarrow> (None, None)
             | Inr (report_data, img) \<Rightarrow> (Some report_data, Some img)) = (Some rep, img)"
    using assms ne vp by (simp add: evaluate_unfold)
  with vpe show ?thesis
    by (cases "classification_report names y_true vp") (simp_all add: report_block_iff)
qed

lemma evaluate_no_labels: "evaluate render names [] pred_classes = Inr (None, None)"
  by (simp add: evaluate_unfold)

text \<open>A class that is predicted but has no true instance scores 0.0 everywhere.\<close>

lemma class_scores_no_support:
  "count_list ys l = 0 \<Longrightarrow> length ys = length ps \<Longrightarrow> class_scores ys ps l = [0, 0, 0, 0]"
proof -
  assume c: "count_list ys l = 0" and len: "length ys = length ps"
  have "l \<notin> set ys" using c by (simp add: count_list_0_iff)
  then have "n_match ys ps (\<lambda>y p. y = l \<and> p = l) = 0" "n_match ys ps (\<lambda>y p. y = l \<and> p \<noteq> l) = 0"
    by (auto simp: n_match_def filter_empty_conv dest: set_zip_leftD)
  then show ?thesis using c by (simp add: class_scores_def safe_div_def Let_def)
qed

lemma classification_report_entry:
  assumes "classification_report names ys ps = Inr (VDict kvs)" "i < length names"
  shows "kvs ! i = (names ! i, scores_dict (class_scores ys ps (unique_labels ys ps ! i))) \<and>
         length ys = length ps \<and> length (unique_labels ys ps) = length names"
  using assms by (auto simp: classification_report_def Let_def nth_append split: if_splits)

text \<open>The confusion matrix partitions the evaluated rows: its entries add up
  to their number.\<close>

lemma confusion_matrix_total:
  assumes "length ys = length ps"
  shows "(\<Sum>row \<leftarrow> confusion_matrix ys ps. sum_list row) = length ys"
proof -
  let ?L = "unique_labels ys ps" and ?zs = "zip ys ps"
  have sub: "set (map fst zs) \<subseteq> set ?L \<and> set (map snd zs) \<subseteq> set ?L"
    if "set zs \<subseteq> set ?zs" for zs
  proof -
    have "fst z \<in> set ys \<and> snd z \<in> set ps" if "z \<in> set zs" for z
      using \<open>set zs \<subseteq> set ?zs\<close> that by (cases z) (auto dest: set_zip_leftD set_zip_rightD)
    then show ?thesis by (auto simp: set_unique_labels)
  qed
  have inner: "(\<Sum>b \<leftarrow> ?L. n_match ys ps (\<lambda>y p. y = a \<and> p = b))
                 = length (filter (\<lambda>z. fst z = a) ?zs)" for a
  proof -
    have "(\<Sum>b \<leftarrow> ?L. n_match ys ps (\<lambda>y p. y = a \<and> p = b))
          = (\<Sum>b \<leftarrow> ?L. length (filter (\<lambda>z. snd z = b) (filter (\<lambda>z. fst z = a) ?zs)))"
      by (simp add: n_match_def filter_filter case_prod_unfold conj_commute)
    also have "\<dots> = length (filter (\<lambda>z. fst z = a) ?zs)"
      by (rule sum_filter_partition) (use unique_labels_distinct sub[of "filter (\<lambda>z. fst z = a) ?zs"] in auto)
    finally show ?thesis .
  qed
  have "(\<Sum>row \<leftarrow> confusion_matrix ys ps. sum_list row)
        = (\<Sum>a \<leftarrow> ?L. length (filter (\<lambda>z. fst z = a) ?zs))"
    by (simp add: confusion_matrix_def inner comp_def Let_def)
  also have "\<dots> = length ?zs"
    by (rule sum_filter_partition) (use unique_labels_distinct sub[of ?zs] in auto)
  finally show ?thesis using assms by simp
qed

lemma classification_report_Inr_iff:
  "(\<exists>rep. classification_report names ys ps = Inr rep) \<longleftrightarrow>
     length ys = length ps \<and> length (unique_labels ys ps) = length names"
  by (simp add: classification_report_def Let_def)


lemma length_unique_labels: "length (unique_labels ys ps) = card (set ys \<union> set ps)"
  by (simp add: unique_labels_def)


lemma evaluate_report_iff:
  assumes "length ks = length ys" "ys \<noteq> []" "evaluate render names ys ks = Inr (rep, img)"
  shows "rep \<noteq> None \<longleftrightarrow> length (unique_labels ys (map int ks)) = length names"
proof -
  have "bool_mask (map int ks) (map (\<lambda>_. True) ys) = Inr (map int ks)"
  proof -
    have "map fst (filter snd (zip (map int ks) (map (\<lambda>_. True) ys))) = map int ks"
      using assms(1) by (induction ks ys rule: list_induct2) auto
    then show ?thesis using assms(1) by (simp add: bool_mask_def)
  qed
  then have ev: "(case report_block render names ys (map int ks) of
                  Inl _ \<Rightarrow> (None, None)
                | Inr (report_data, img) \<Rightarrow> (Some report_data, Some img)) = (rep, img)"
    using assms(2,3) by (simp add: evaluate_unfold)
  show ?thesis
  proof (cases "classification_report names ys (map int ks)")
    case (Inl e)
    with ev have "rep = None" by (simp add: report_block_iff)
    moreover have "length (unique_labels ys (map int ks)) \<noteq> length names"
      using Inl assms(1) classification_report_Inr_iff[of names ys "map int ks"] by auto
    ultimately show ?thesis by simp
  next
    case (Inr rp)
    with ev have "rep = Some rp" by (simp add: report_block_iff)
    moreover have "length (unique_labels ys (map int ks)) = length names"
      using Inr classification_report_Inr_iff[of names ys "map int ks"] by auto
    ultimately show ?thesis by simp
  qed
qed

text \<open>Claim C19. A class that occurs among the predictions but has no true instance
  (zero support) is reported with precision, recall and F1 equal to 0.0, not NaN.\<close>

lemma report_zero_support_class:
  assumes "classification_report names ys ps = Inr (VDict kvs)" "i < length names"
    "count_list ys (unique_labels ys ps ! i) = 0"
  shows "kvs ! i = (names ! i, scores_dict [0, 0, 0, 0])"
  using classification_report_entry[OF assms(1,2)] class_scores_no_support[OF assms(3)] by simp

text \<open>The first repair pass tests \<open>np.isnan(value)\<close> before
  \<open>value is None\<close>: a metric that is \<open>None\<close> raises \<open>TypeError\<close> instead of
  being replaced by 0.0. The \<open>None\<close> branch is dead code: scikit-learn's report holds
  only finite floats (\<open>classification_report_clean\<close>), so no request reaches it.\<close>

lemma report_fix_none_raises:
  "name \<noteq> ''support'' \<Longrightarrow>
   report_fix_pass (VDict [(cls, VDict [(name, VNone)])]) =
     Inl (TypeError ''ufunc 'isnan' not supported for the input types'')"
  by simp

text \<open>Claim C29. Of the seven steps inside the report's \<open>try\<close> (lines 194--261), only
  scikit-learn's \<open>classification_report\<close> can raise on the evaluated labels: the report
  and image are dropped exactly when the label lists differ in length or the labels that
  occur are not as many as the class names.\<close>

theorem report_block_fails_iff:
  "(\<exists>e. report_block render names ys ps = Inl e) \<longleftrightarrow>
     length ys \<noteq> length ps \<or> card (set ys \<union> set ps) \<noteq> length names"
proof -
  have "(\<exists>e. report_block render names ys ps = Inl e) \<longleftrightarrow> \<not> (\<exists>rep. classification_report names ys ps = Inr rep)"
    by (cases "classification_report names ys ps") (auto simp: report_block_iff)
  then show ?thesis
    by (simp add: classification_report_Inr_iff length_unique_labels)
qed

end
