(* ===== verification/Pipeline.thy ===== *)
theory Pipeline
  imports Preprocess Evaluator
begin

text \<open>
  The inference orchestrator, \<open>NetworkTrafficClassifier.predict\<close> of
  \<^verbatim>\<open>src/model_handler.py\<close> (lines 137--295), with the two helpers it calls,
  \<open>generate_fake_samples\<close> (lines 114--124) and \<open>get_discriminator_features\<close>
  (lines 126--135). The request runs: the loaded-models guard, the preprocessor, the
  classifier with \<open>argmax\<close> and \<open>max\<close> per row, the discriminator, the Gaussian
  mixture and the one-hot encoding of its pseudo-labels, the generator on at most 100
  noise vectors, the evaluator when labels exist, the per-class distribution, and the
  result dictionary. Everything the source reads from the outside world (the two clock
  readings, the random noise, the memory footprint of the table, the rendering of the
  confusion-matrix plot) comes from the environment record \<open>pipeline_env\<close>. Any
  exception is re-raised as \<open>ValueError("Error in prediction pipeline: ...")\<close>.
\<close>

section \<open>Environment and result\<close>

record pipeline_env =
  env_noise :: "nat \<Rightarrow> nat \<Rightarrow> pyfloat list list"
  env_t0 :: real
  env_t1 :: real
  env_mem_bytes :: nat
  env_render :: "nat list list \<Rightarrow> string"

text \<open>The \<open>results\<close> dictionary of lines 279--290, field by field.\<close>

record result_bundle =
  rb_predictions :: "string list"
  rb_confidence :: "pyfloat list"
  rb_distribution :: "(string \<times> nat) list"
  rb_pseudo_labels :: "int list"
  rb_processing_time :: real
  rb_file_size_mb :: real
  rb_num_samples :: nat
  rb_device :: string
  rb_report :: "pyval option"
  rb_cm_img :: "string option"

section \<open>The helpers\<close>

text \<open>\<open>generate_fake_samples(num_samples)\<close>: a \<open>(num_samples, LATENT_DIM)\<close> draw of
  Gaussian noise through the generator.\<close>

definition generate_fake_samples :: "ntc_state \<Rightarrow> pipeline_env \<Rightarrow> nat \<Rightarrow> pyfloat list list result" where
  "generate_fake_samples st env num_samples =
     rbind (get_attr ''generator'' (generator st)) (\<lambda>g.
     keras_predict g batch_size (env_noise env num_samples (latent_dim st)))"

text \<open>\<open>get_discriminator_features(X_scaled)\<close>: the discriminator's output,
  reshaped to one column by \<open>reshape(-1, 1)\<close>.\<close>

definition get_discriminator_features :: "ntc_state \<Rightarrow> pyfloat list list \<Rightarrow> pyfloat list list result" where
  "get_discriminator_features st X_scaled =
     rbind (get_attr ''discriminator'' (discriminator st)) (\<lambda>d.
     rbind (keras_predict d batch_size X_scaled) (\<lambda>out.
     Inr (map (\<lambda>v. [v]) (concat out))))"

text \<open>\<open>d[k] = v\<close> on a Python dictionary: an existing key keeps its place.\<close>

fun dict_set :: "(string \<times> 'a) list \<Rightarrow> string \<Rightarrow> 'a \<Rightarrow> (string \<times> 'a) list" where
  "dict_set [] k v = [(k, v)]"
| "dict_set ((k', v') # kvs) k v = (if k' = k then (k, v) # kvs else (k', v') # dict_set kvs k v)"

text \<open>Lines 272--276: the count of each class; the percentage printed in the loop
  divides by the number of predictions.\<close>

definition distribution :: "string list \<Rightarrow> nat list \<Rightarrow> (string \<times> nat) list result" where
  "distribution labels pred_classes =
     (if labels \<noteq> [] \<and> pred_classes = [] then Inl (ZeroDivisionError ''division by zero'')
      else Inr (fold (\<lambda>(i, label) d. dict_set d label (count_list pred_classes i))
                     (zip [0..<length labels] labels) []))"

text \<open>\<open>xs[i]\<close> for a non-negative index.\<close>

definition py_list_index :: "'a list \<Rightarrow> nat \<Rightarrow> 'a result" where
  "py_list_index xs i = (if i < length xs then Inr (xs ! i) else Inl (IndexError ''list index out of range''))"

section \<open>\<open>predict\<close>\<close>

definition predict_body :: "ntc_state \<Rightarrow> pipeline_env \<Rightarrow> dataframe \<Rightarrow> result_bundle result" where
  "predict_body st env df =
     (if \<not> models_loaded st then Inl (ValueError ''Models not loaded properly'') else
      rbind (preprocess_data st df) (\<lambda>(X_scaled, X_reshaped, y_true, y_true_onehot).
      rbind (get_attr ''classifier'' (classifier st)) (\<lambda>clf.
      rbind (keras_predict clf batch_size X_reshaped) (\<lambda>predictions.
      rbind (rmap np_argmax predictions) (\<lambda>pred_classes.
      rbind (rmap np_max predictions) (\<lambda>confidence_scores.
      rbind (get_discriminator_features st X_scaled) (\<lambda>disc_features.
      rbind (get_attr ''gmm'' (gmm st)) (\<lambda>g.
      rbind (gmm_predict g disc_features) (\<lambda>pseudo_labels.
      rbind (to_categorical pseudo_labels (length (labels_iscx st))) (\<lambda>pseudo_labels_onehot.
      rbind (generate_fake_samples st env (min 100 (length X_scaled))) (\<lambda>generated_samples.
      rbind (case y_true of
               None \<Rightarrow> Inr (None, None)
             | Some ys \<Rightarrow> evaluate (env_render env) (labels_iscx st) ys pred_classes)
        (\<lambda>(report_data, confusion_matrix_img).
      rbind (distribution (labels_iscx st) pred_classes) (\<lambda>dist.
      rbind (rmap (py_list_index (labels_iscx st)) pred_classes) (\<lambda>predicted_labels.
      Inr \<lparr>rb_predictions = predicted_labels,
           rb_confidence = confidence_scores,
           rb_distribution = dist,
           rb_pseudo_labels = pseudo_labels,
           rb_processing_time = env_t1 env - env_t0 env,
           rb_file_size_mb = real (env_mem_bytes env) / (1024 * 1024),
           rb_num_samples = length (df_rows df),
           rb_device = device st,
           rb_report = report_data,
           rb_cm_img = confusion_matrix_img\<rparr>))))))))))))))"

definition predict :: "ntc_state \<Rightarrow> pipeline_env \<Rightarrow> dataframe \<Rightarrow> result_bundle result" where
  "predict st env df =
     rewrap (\<lambda>e. ValueError (''Error in prediction pipeline: '' @ exc_str e)) (predict_body st env df)"

section \<open>Lemmas\<close>

lemma predict_Inr_E:
  assumes "predict st env df = Inr r"
  obtains Xs Xr y oh clf P ks cs disc g pseudo oh2 gen rep img dst labs where
    "models_loaded st" "preprocess_data st df = Inr (Xs, Xr, y, oh)" "classifier st = Some clf"
    "keras_predict clf batch_size Xr = Inr P" "rmap np_argmax P = Inr ks" "rmap np_max P = Inr cs"
    "get_discriminator_features st Xs = Inr disc" "gmm st = Some g" "gmm_predict g disc = Inr pseudo"
    "to_categorical pseudo (length (labels_iscx st)) = Inr oh2"
    "generate_fake_samples st env (min 100 (length Xs)) = Inr gen"
    "(case y of None \<Rightarrow> Inr (None, None) | Some ys \<Rightarrow> evaluate (env_render env) (labels_iscx st) ys ks) = Inr (rep, img)"
    "distribution (labels_iscx st) ks = Inr dst"
    "rmap (py_list_index (labels_iscx st)) ks = Inr labs"
    "r = \<lparr>rb_predictions = labs, rb_confidence = cs, rb_distribution = dst, rb_pseudo_labels = pseudo,
          rb_processing_time = env_t1 env - env_t0 env,
          rb_file_size_mb = real (env_mem_bytes env) / (1024 * 1024),
          rb_num_samples = length (df_rows df), rb_device = device st,
          rb_report = rep, rb_cm_img = img\<rparr>"
  using assms
  by (auto simp: predict_def predict_body_def get_attr_def split: if_splits option.splits prod.splits)

lemma dict_set_fresh: "k \<notin> fst ` set d \<Longrightarrow> dict_set d k v = d @ [(k, v)]"
  by (induction d) auto


lemma fold_dict_set_distinct:
  "distinct (map snd ils) \<Longrightarrow> set (map snd ils) \<inter> fst ` set d = {} \<Longrightarrow>
   fold (\<lambda>(i, l) d. dict_set d l (f i)) ils d = d @ map (\<lambda>(i, l). (l, f i)) ils"
proof (induction ils arbitrary: d)
  case Nil
  then show ?case by simp
next
  case (Cons il ils)
  obtain i l where il: "il = (i, l)" by fastforce
  with Cons.prems have "dict_set d l (f i) = d @ [(l, f i)]"
    by (intro dict_set_fresh) auto
  moreover have "fold (\<lambda>(i, l) d. dict_set d l (f i)) ils (d @ [(l, f i)])
                 = (d @ [(l, f i)]) @ map (\<lambda>(i, l). (l, f i)) ils"
    using Cons.prems il by (intro Cons.IH) auto
  ultimately show ?case using il by simp
qed


lemma distribution_distinct:
  assumes "distinct labels" "distribution labels ks = Inr dst"
  shows "dst = map (\<lambda>i. (labels ! i, count_list ks i)) [0..<length labels]"
proof -
  have "dst = map (\<lambda>(i, l). (l, count_list ks i)) (zip [0..<length labels] labels)"
    using assms fold_dict_set_distinct[of "zip [0..<length labels] labels" "[]" "count_list ks"]
    by (auto simp: distribution_def split: if_splits)
  also have "\<dots> = map (\<lambda>i. (labels ! i, count_list ks i)) [0..<length labels]"
    by (rule nth_equalityI) auto
  finally show ?thesis .
qed


lemma py_list_index_all:
  "rmap (py_list_index xs) ks = Inr ys \<Longrightarrow> list_all (\<lambda>k. k < length xs) ks \<and> ys = map ((!) xs) ks"
proof (induction ks arbitrary: ys)
  case Nil
  then show ?case by simp
next
  case (Cons k ks)
  then show ?case by (auto simp: py_list_index_def split: if_splits)
qed


text \<open>Per row of the classifier's output: the predicted class is its \<open>argmax\<close>, the
  confidence its \<open>max\<close>, the label the vocabulary entry at the class.\<close>

lemma predict_row_outputs:
  assumes "predict st env df = Inr r" "classifier st = Some clf"
    "preprocess_data st df = Inr (Xs, Xr, y, oh)" "keras_predict clf batch_size Xr = Inr P"
  shows "\<exists>ks. rmap np_argmax P = Inr ks \<and> rmap np_max P = Inr (rb_confidence r) \<and>
              rb_predictions r = map ((!) (labels_iscx st)) ks \<and>
              list_all (\<lambda>k. k < length (labels_iscx st)) ks"
proof -
  obtain Xs' Xr' y' oh' clf' P' ks cs labs where
    pre: "preprocess_data st df = Inr (Xs', Xr', y', oh')" and c: "classifier st = Some clf'" and
    P: "keras_predict clf' batch_size Xr' = Inr P'" and ks: "rmap np_argmax P' = Inr ks" and
    cs: "rmap np_max P' = Inr cs" and labs: "rmap (py_list_index (labels_iscx st)) ks = Inr labs" and
    r: "rb_predictions r = labs \<and> rb_confidence r = cs"
    using assms(1) by (elim predict_Inr_E) auto
  have "P' = P" using pre P c assms(2-4) by simp
  with ks cs r py_list_index_all[OF labs] show ?thesis by auto
qed

text \<open>Claim C1. On every successful request whose classifier maps a batch to as many rows, there is one predicted label and one confidence score per row of the uploaded table.\<close>

lemma predict_rows:
  assumes "predict st env df = Inr r" "classifier st = Some clf" "row_preserving clf"
  shows "length (rb_predictions r) = rb_num_samples r \<and> length (rb_confidence r) = rb_num_samples r"
proof -
  obtain Xs Xr y oh clf' P ks cs disc g pseudo oh2 gen rep img dst labs where
    pre: "preprocess_data st df = Inr (Xs, Xr, y, oh)" and c: "classifier st = Some clf'" and
    P: "keras_predict clf' batch_size Xr = Inr P" and ks: "rmap np_argmax P = Inr ks" and
    cs: "rmap np_max P = Inr cs" and labs: "rmap (py_list_index (labels_iscx st)) ks = Inr labs" and
    r: "rb_predictions r = labs \<and> rb_confidence r = cs \<and> rb_num_samples r = length (df_rows df)"
    using assms(1) by (elim predict_Inr_E) auto
  have "length Xr = length (df_rows df)"
    using preprocess_data_Inr[OF pre] preprocess_data_rows[OF pre] by (simp add: expand_dims_def)
  moreover have "length P = length Xr"
    using keras_predict_length[OF _ P] assms(2,3) c by simp
  ultimately show ?thesis
    using r rmap_Inr_length[OF ks] rmap_Inr_length[OF cs] rmap_Inr_length[OF labs] by simp
qed


text \<open>Claim C2. The per-class distribution of a successful request counts every prediction exactly once: its counts add up to the number of predictions.\<close>

lemma predict_distribution:
  assumes "predict st env df = Inr r" "distinct (labels_iscx st)"
  shows "(\<Sum>kv \<leftarrow> rb_distribution r. snd kv) = length (rb_predictions r)"
proof -
  obtain ks dst labs where
    dst: "distribution (labels_iscx st) ks = Inr dst" and
    labs: "rmap (py_list_index (labels_iscx st)) ks = Inr labs" and
    r: "rb_predictions r = labs \<and> rb_distribution r = dst"
    using assms(1) by (elim predict_Inr_E) auto
  have ks: "list_all (\<lambda>k. k < length (labels_iscx st)) ks" and len: "length labs = length ks"
    using py_list_index_all[OF labs] by auto
  have "(\<Sum>kv \<leftarrow> dst. snd kv) = (\<Sum>i \<leftarrow> [0..<length (labels_iscx st)]. count_list ks i)"
    by (simp add: distribution_distinct[OF assms(2) dst] comp_def)
  also have "\<dots> = length ks" by (rule sum_count_upt[OF ks])
  finally show ?thesis using r len by simp
qed


text \<open>Claim C3. The confidence reported for a row is the maximum of the probabilities the classifier gave that row, it is the probability of the class chosen by argmax, and the predicted label is the vocabulary entry of that class.\<close>

lemma predict_confidence:
  assumes "predict st env df = Inr r" "classifier st = Some clf"
    "preprocess_data st df = Inr (Xs, Xr, y, oh)" "keras_predict clf batch_size Xr = Inr P"
    "i < length P"
  shows "\<exists>k. np_argmax (P ! i) = Inr k \<and> k < length (P ! i) \<and> rb_confidence r ! i = P ! i ! k \<and>
             np_max (P ! i) = Inr (rb_confidence r ! i) \<and> rb_predictions r ! i = labels_iscx st ! k"
proof -
  obtain ks where ks: "rmap np_argmax P = Inr ks" and cs: "rmap np_max P = Inr (rb_confidence r)"
      and labs: "rb_predictions r = map ((!) (labels_iscx st)) ks"
    using predict_row_outputs[OF assms(1-4)] by blast
  have k: "np_argmax (P ! i) = Inr (ks ! i)" and m: "np_max (P ! i) = Inr (rb_confidence r ! i)"
    using rmap_Inr_nth[OF ks] rmap_Inr_nth[OF cs] assms(5) by auto
  from np_argmax_np_max[OF k] m have "ks ! i < length (P ! i) \<and> rb_confidence r ! i = P ! i ! (ks ! i)"
    by simp
  moreover have "rb_predictions r ! i = labels_iscx st ! (ks ! i)"
    using labs rmap_Inr_length[OF ks] assms(5) by simp
  ultimately show ?thesis using k m by auto
qed

text \<open>Claim C4. When the classifier outputs probabilities in [0, 1], every confidence score of a successful request is a finite float in [0, 1].\<close>

lemma predict_confidence_bounds:
  assumes "predict st env df = Inr r" "classifier st = Some clf"
    "preprocess_data st df = Inr (Xs, Xr, y, oh)" "keras_predict clf batch_size Xr = Inr P"
    "list_all (list_all (\<lambda>v. \<exists>x. v = Fin x \<and> 0 \<le> x \<and> x \<le> 1)) P" "i < length P"
  shows "\<exists>x. rb_confidence r ! i = Fin x \<and> 0 \<le> x \<and> x \<le> 1"
proof -
  obtain ks where ks: "rmap np_argmax P = Inr ks" and cs: "rmap np_max P = Inr (rb_confidence r)"
    using predict_row_outputs[OF assms(1-4)] by blast
  have k: "np_argmax (P ! i) = Inr (ks ! i)" and m: "np_max (P ! i) = Inr (rb_confidence r ! i)"
    using rmap_Inr_nth[OF ks] rmap_Inr_nth[OF cs] assms(6) by auto
  from np_argmax_np_max[OF k] m
  have "ks ! i < length (P ! i)" "rb_confidence r ! i = P ! i ! (ks ! i)" by simp_all
  moreover have "P ! i \<in> set P" using assms(6) by simp
  ultimately show ?thesis using assms(5) by (auto simp: list_all_iff)
qed

text \<open>Claim C5. On a row of the classifier's output without NaN, the predicted label is the
  name of the first class of maximal probability: that class's probability is at least
  every other and strictly above every earlier one, and it is the reported confidence.\<close>

lemma predict_label_first_max:
  assumes "predict st env df = Inr r" "classifier st = Some clf"
    "preprocess_data st df = Inr (Xs, Xr, y, oh)" "keras_predict clf batch_size Xr = Inr P"
    "i < length P" "\<not> list_ex isnan (P ! i)"
  shows "\<exists>k. k < length (P ! i) \<and> rb_predictions r ! i = labels_iscx st ! k \<and> rb_confidence r ! i = P ! i ! k \<and>
             (\<forall>j < length (P ! i). pf_le (P ! i ! j) (P ! i ! k)) \<and> (\<forall>j < k. \<not> pf_le (P ! i ! k) (P ! i ! j))"
proof -
  obtain ks where ks: "rmap np_argmax P = Inr ks" and cs: "rmap np_max P = Inr (rb_confidence r)"
      and labs: "rb_predictions r = map ((!) (labels_iscx st)) ks"
    using predict_row_outputs[OF assms(1-4)] by blast
  have k: "np_argmax (P ! i) = Inr (ks ! i)" and m: "np_max (P ! i) = Inr (rb_confidence r ! i)"
    using rmap_Inr_nth[OF ks] rmap_Inr_nth[OF cs] assms(5) by auto
  have ne: "P ! i \<noteq> []" using k by (auto simp: np_argmax_def)
  obtain k' where k': "np_argmax (P ! i) = Inr k'" "k' < length (P ! i)"
      "\<forall>j < length (P ! i). pf_le (P ! i ! j) (P ! i ! k')" "\<forall>j < k'. \<not> pf_le (P ! i ! k') (P ! i ! j)"
    using np_argmax_first_max[OF ne assms(6)] by blast
  have kk: "ks ! i = k'" using k k'(1) by simp
  have "rb_confidence r ! i = P ! i ! k'" using np_argmax_np_max[OF k] m kk by simp
  moreover have "rb_predictions r ! i = labels_iscx st ! k'"
    using labs rmap_Inr_length[OF ks] assms(5) kk by simp
  ultimately show ?thesis using k' by blast
qed

text \<open>Claim C6. A classifier whose models did not load fails every request at once, with the message "Models not loaded properly", before touching the table.\<close>

lemma predict_not_loaded:
  "\<not> models_loaded st \<Longrightarrow>
   predict st env df = Inl (ValueError ''Error in prediction pipeline: Models not loaded properly'')"
  by (simp add: predict_def predict_body_def)

text \<open>Claim C7. A table without a label column yields no classification report and no confusion-matrix image.\<close>

lemma predict_no_label_no_report:
  assumes "''label'' \<notin> set (df_columns df)" "predict st env df = Inr r"
  shows "rb_report r = None \<and> rb_cm_img r = None"
proof -
  obtain Xs Xr y oh ks rep img where
    pre: "preprocess_data st df = Inr (Xs, Xr, y, oh)" and
    ev: "(case y of None \<Rightarrow> Inr (None, None) | Some ys \<Rightarrow> evaluate (env_render env) (labels_iscx st) ys ks) = Inr (rep, img)" and
    r: "rb_report r = rep \<and> rb_cm_img r = img"
    using assms(2) by (elim predict_Inr_E) auto
  have "y = None"
    using preprocess_data_Inr[OF pre] extract_labels_no_label[OF assms(1)] by simp
  with ev r show ?thesis by simp
qed


text \<open>A report in the response is the output of scikit-learn's \<open>classification_report\<close>
  on the evaluated labels; a confidence is the maximum of a row.\<close>

lemma predict_report_Some:
  assumes "predict st env df = Inr r" "rb_report r = Some rep"
  shows "\<exists>ys ks. classification_report (labels_iscx st) ys (map int ks) = Inr rep"
proof -
  obtain y ks rep' img where
    ev: "(case y of None \<Rightarrow> Inr (None, None) | Some ys \<Rightarrow> evaluate (env_render env) (labels_iscx st) ys ks) = Inr (rep', img)" and
    r: "rb_report r = rep'"
    using assms(1) by (elim predict_Inr_E) auto
  with assms(2) obtain ys where "evaluate (env_render env) (labels_iscx st) ys ks = Inr (Some rep, img)"
    by (cases y) auto
  from evaluate_Some[OF this] show ?thesis by blast
qed

lemma fold_maximum_fin: "is_fin m \<Longrightarrow> list_all is_fin xs \<Longrightarrow> is_fin (fold (\<lambda>y m. pf_maximum m y) xs m)"
proof (induction xs arbitrary: m)
  case (Cons x xs)
  then obtain a b where "m = Fin a" "x = Fin b" by (cases m; cases x) auto
  with Cons show ?case by (simp add: pf_maximum_def)
qed simp

lemma np_max_fin: "list_all is_fin xs \<Longrightarrow> np_max xs = Inr c \<Longrightarrow> is_fin c"
  by (cases xs) (auto simp: np_max_def fold_maximum_fin)

text \<open>Claim C8. A classification report that reaches the response contains no NaN and only finite floats, at any depth.\<close>

lemma predict_report_finite:
  assumes "predict st env df = Inr r" "rb_report r = Some rep"
  shows "all_finite rep \<and> \<not> has_nan rep"
  using predict_report_Some[OF assms] classification_report_clean by blast


text \<open>Claim C9. With a label column, a successful request carries a report exactly when the true and predicted labels together take as many distinct values as there are class names (five): scikit-learn raises otherwise and the report is dropped.\<close>

lemma predict_report_iff_all_classes:
  assumes "predict st env df = Inr r" "''label'' \<in> set (df_columns df)"
    "classifier st = Some clf" "row_preserving clf"
  shows "\<exists>ys ks. rmap py_int (df_column df ''label'') = Inr ys \<and>
           map ((!) (labels_iscx st)) ks = rb_predictions r \<and>
           (rb_report r \<noteq> None \<longleftrightarrow> card (set ys \<union> int ` set ks) = length (labels_iscx st))"
proof -
  obtain Xs Xr y oh clf' P ks gen rep img labs where
    pre: "preprocess_data st df = Inr (Xs, Xr, y, oh)" and c: "classifier st = Some clf'" and
    P: "keras_predict clf' batch_size Xr = Inr P" and ksP: "rmap np_argmax P = Inr ks" and
    ev: "(case y of None \<Rightarrow> Inr (None, None) | Some ys \<Rightarrow> evaluate (env_render env) (labels_iscx st) ys ks) = Inr (rep, img)" and
    labs: "rmap (py_list_index (labels_iscx st)) ks = Inr labs" and
    r: "rb_predictions r = labs \<and> rb_report r = rep"
    using assms(1) by (elim predict_Inr_E) auto
  from preprocess_data_Inr[OF pre] have ex: "extract_labels st df = Inr (y, oh)" and xr: "Xr = expand_dims Xs"
    by auto
  from ex assms(2) obtain ys oh' where y: "y = Some ys" and oh: "oh = Some oh'"
      and ys: "rmap py_int (df_column df ''label'') = Inr ys"
    by (auto simp: extract_labels_def)
  have lys: "length ys = length (df_rows df)"
    using rmap_Inr_length[OF ys] by (simp add: df_column_def)
  have lks: "length ks = length (df_rows df)"
    using keras_predict_length[OF _ P] assms(3,4) c rmap_Inr_length[OF ksP] xr
      preprocess_data_rows[OF pre] by (simp add: expand_dims_def)
  have ne: "ys \<noteq> []"
  proof
    assume "ys = []"
    with lys have "df_features df = []" by (simp add: df_features_def)
    with preprocess_data_Inr[OF pre] show False by (auto dest: scaler_transform_Inr_width)
  qed
  from ev y have "evaluate (env_render env) (labels_iscx st) ys ks = Inr (rep, img)" by simp
  from evaluate_report_iff[OF _ ne this] lks lys
  have "rep \<noteq> None \<longleftrightarrow> length (unique_labels ys (map int ks)) = length (labels_iscx st)" by simp
  moreover have "map ((!) (labels_iscx st)) ks = labs" using py_list_index_all[OF labs] by simp
  ultimately show ?thesis
    using ys r by (auto simp: length_unique_labels)
qed


text \<open>Claim C10. A NaN in the label column does not get filtered out: the request fails with the preprocessing error.\<close>

lemma predict_nan_label:
  assumes "models_loaded st" "''label'' \<in> set (df_columns df)" "CFloat NaN \<in> set (df_column df ''label'')"
  shows "\<exists>m. predict st env df =
           Inl (ValueError (''Error in prediction pipeline: Error in preprocessing data: '' @ m))"
proof -
  obtain e where "rmap py_int (df_column df ''label'') = Inl e"
    using rmap_elem_Inl[OF assms(3), of py_int] by auto
  then have "extract_labels st df = Inl e" using assms(2) by (simp add: extract_labels_def)
  then have "preprocess_data st df = Inl (ValueError (''Error in preprocessing data: '' @ exc_str e))"
    by (simp add: preprocess_data_def)
  then show ?thesis using assms(1) by (simp add: predict_def predict_body_def)
qed


text \<open>Claim C14. Every pseudo-label returned lies in [0, 5): a Gaussian mixture that assigns a sixth component makes the unused one-hot encoding raise and the request fail.\<close>

lemma predict_pseudo_range:
  assumes "predict st env df = Inr r"
  shows "list_all (\<lambda>p. 0 \<le> p \<and> p < int (length (labels_iscx st))) (rb_pseudo_labels r)"
proof -
  obtain disc g pseudo oh2 where
    "gmm_predict g disc = Inr pseudo" "to_categorical pseudo (length (labels_iscx st)) = Inr oh2"
    "rb_pseudo_labels r = pseudo"
    using assms by (elim predict_Inr_E) auto
  then show ?thesis
    using gmm_predict_nonneg to_categorical_Inr_range by (fastforce simp: list_all_iff)
qed


text \<open>Claim C15. A table without rows never yields a result.\<close>

lemma predict_empty_table:
  assumes "df_rows df = []"
  shows "\<exists>e. predict st env df = Inl e"
proof (cases "predict st env df")
  case (Inr r)
  then obtain Xs Xr y oh where pre: "preprocess_data st df = Inr (Xs, Xr, y, oh)"
    by (elim predict_Inr_E) auto
  have "df_features df = []" using assms by (simp add: df_features_def)
  with preprocess_data_Inr[OF pre] have False by (auto dest: scaler_transform_Inr_width)
  then show ?thesis ..
qed simp


text \<open>Claim C16. A successful request has run the generator on min(100, n) noise vectors without error: the auxiliary generator is on the critical path.\<close>

lemma predict_runs_generator:
  assumes "predict st env df = Inr r"
  shows "\<exists>g out. generator st = Some g \<and>
           keras_predict g batch_size (env_noise env (min 100 (length (df_rows df))) (latent_dim st)) = Inr out"
proof -
  obtain Xs Xr y oh gen where pre: "preprocess_data st df = Inr (Xs, Xr, y, oh)"
      and gen: "generate_fake_samples st env (min 100 (length Xs)) = Inr gen"
    using assms by (elim predict_Inr_E) auto
  with preprocess_data_rows[OF pre] show ?thesis
    by (auto simp: generate_fake_samples_def get_attr_def split: option.splits)
qed


end
