(* ===== verification/App.thy ===== *)
theory App
  imports Pipeline
begin

text \<open>
  The HTTP boundary, \<^verbatim>\<open>src/app.py\<close>: the upload check \<open>allowed_file\<close>, werkzeug's
  \<open>secure_filename\<close> as the handler calls it, the two routes \<open>index\<close> and
  \<open>model_info\<close> with the 413 handler, and the server state they change: the files of
  the upload folder and the classifier object, which requests only read. A step relation
  collects the states reachable by any sequence of requests.
\<close>

section \<open>Upload names\<close>

text \<open>\<open>allowed_file\<close> (lines 19--21): a dot, and the text after the last dot is
  \<open>csv\<close> in any case.\<close>

definition ALLOWED_EXTENSIONS :: "string list" where
  "ALLOWED_EXTENSIONS = [''csv'']"

definition allowed_file :: "string \<Rightarrow> bool" where
  "allowed_file filename \<longleftrightarrow> CHR ''.'' \<in> set filename \<and>
     map ascii_lower (rev (takeWhile (\<lambda>c. c \<noteq> CHR ''.'') (rev filename))) \<in> set ALLOWED_EXTENSIONS"

text \<open>\<open>unicodedata.normalize("NFKD", s).encode("ascii", "ignore")\<close> for one code
  point below 256: a letter with a diacritic keeps its base letter, a few compatibility
  characters become digits, letters or a space, every other non-ASCII character is
  dropped.\<close>

definition nfkd_ascii :: "char \<Rightarrow> string" where
  "nfkd_ascii c = (let n = (of_char c :: nat) in
     if n < 128 then [c]
     else if n = 160 \<or> n = 168 \<or> n = 175 \<or> n = 180 \<or> n = 184 then '' ''
     else if n = 170 then ''a'' else if n = 186 then ''o''
     else if n = 178 then ''2'' else if n = 179 then ''3'' else if n = 185 then ''1''
     else if n = 188 then ''14'' else if n = 189 then ''12'' else if n = 190 then ''34''
     else if 192 \<le> n \<and> n \<le> 197 then ''A'' else if n = 199 then ''C''
     else if 200 \<le> n \<and> n \<le> 203 then ''E'' else if 204 \<le> n \<and> n \<le> 207 then ''I''
     else if n = 209 then ''N'' else if 210 \<le> n \<and> n \<le> 214 then ''O''
     else if 217 \<le> n \<and> n \<le> 220 then ''U'' else if n = 221 then ''Y''
     else if 224 \<le> n \<and> n \<le> 229 then ''a'' else if n = 231 then ''c''
     else if 232 \<le> n \<and> n \<le> 235 then ''e'' else if 236 \<le> n \<and> n \<le> 239 then ''i''
     else if n = 241 then ''n'' else if 242 \<le> n \<and> n \<le> 246 then ''o''
     else if 249 \<le> n \<and> n \<le> 252 then ''u'' else if n = 253 \<or> n = 255 then ''y''
     else [])"

text \<open>\<open>s.split()\<close>: the maximal runs of non-whitespace characters; \<open>cur\<close> is the
  current run, reversed.\<close>

fun py_split_acc :: "string \<Rightarrow> string \<Rightarrow> string list" where
  "py_split_acc cur [] = (if cur = [] then [] else [rev cur])"
| "py_split_acc cur (c # cs) =
     (if py_space c then (if cur = [] then py_split_acc [] cs else rev cur # py_split_acc [] cs)
      else py_split_acc (c # cur) cs)"

definition py_split :: "string \<Rightarrow> string list" where
  "py_split s = py_split_acc [] s"

text \<open>\<open>sep.join(ws)\<close>.\<close>

fun py_join :: "string \<Rightarrow> string list \<Rightarrow> string" where
  "py_join sep [] = []"
| "py_join sep [w] = w"
| "py_join sep (w # ws) = w @ sep @ py_join sep ws"

text \<open>The characters \<open>_filename_ascii_strip_re = [^A-Za-z0-9_.-]\<close> keeps.\<close>

definition fn_safe_char :: "char \<Rightarrow> bool" where
  "fn_safe_char c \<longleftrightarrow> (let n = (of_char c :: nat) in
     (65 \<le> n \<and> n \<le> 90) \<or> (97 \<le> n \<and> n \<le> 122) \<or> (48 \<le> n \<and> n \<le> 57) \<or>
     c = CHR ''_'' \<or> c = CHR ''.'' \<or> c = CHR ''-'')"

text \<open>\<open>s.strip(chars)\<close>.\<close>

definition py_strip :: "string \<Rightarrow> string \<Rightarrow> string" where
  "py_strip chars s = rev (dropWhile (\<lambda>c. c \<in> set chars) (rev (dropWhile (\<lambda>c. c \<in> set chars) s)))"

text \<open>\<open>werkzeug.utils.secure_filename\<close> on a POSIX system (\<open>os.sep = "/"\<close>, no
  alternative separator, no reserved device names).\<close>

definition secure_filename :: "string \<Rightarrow> string" where
  "secure_filename filename =
     (let a = concat (map nfkd_ascii filename);
          b = map (\<lambda>c. if c = CHR ''/'' then CHR '' '' else c) a
      in py_strip ''._'' (filter fn_safe_char (py_join ''_'' (py_split b))))"

section \<open>Requests, responses and the server state\<close>

datatype http_method = GET | POST | OtherMethod string

text \<open>An uploaded file part: its client-side name and its bytes.\<close>

record upload =
  up_filename :: string
  up_content :: string

text \<open>A request as the handlers see it; \<open>rq_file\<close> is \<open>request.files['file']\<close> when
  the part exists.\<close>

record http_request =
  rq_method :: http_method
  rq_path :: string
  rq_content_length :: nat
  rq_file :: "upload option"

datatype response = JsonResp nat pyval | HtmlResp nat string

text \<open>The process state: the classifier object created at import time, the files of
  the upload folder by name, and the number of times the inference pipeline was entered
  (an observation of the model, not a variable of the program).\<close>

record server =
  srv_classifier :: ntc_state
  srv_uploads :: "string \<rightharpoonup> string"
  srv_pipeline_runs :: nat

text \<open>What a request depends on besides the state: \<open>pd.read_csv\<close> on the saved bytes
  and the environment of the pipeline run.\<close>

record app_env =
  ae_read_csv :: "string \<Rightarrow> dataframe result"
  ae_pipeline :: pipeline_env

definition MAX_CONTENT_LENGTH :: nat where
  "MAX_CONTENT_LENGTH = 200 * 1024 * 1024"

definition error_json :: "string \<Rightarrow> pyval" where
  "error_json m = VDict [(''error'', VStr m)]"

text \<open>Lines 8--17: the upload folder as found on disk, the classifier object.\<close>

definition server_start :: "bool list \<Rightarrow> artifacts \<Rightarrow> (string \<rightharpoonup> string) \<Rightarrow> server" where
  "server_start gpus a folder =
     \<lparr>srv_classifier = ntc_init gpus a, srv_uploads = folder, srv_pipeline_runs = 0\<rparr>"

text \<open>\<open>jsonify\<close> of the results dictionary.\<close>

definition results_json :: "result_bundle \<Rightarrow> pyval" where
  "results_json r = VDict
     [(''predictions'', VList (map VStr (rb_predictions r))),
      (''confidence_scores'', VList (map VFloat (rb_confidence r))),
      (''distribution'', VDict (map (\<lambda>(k, n). (k, VInt (int n))) (rb_distribution r))),
      (''pseudo_labels'', VList (map VInt (rb_pseudo_labels r))),
      (''processing_time'', VFloat (Fin (rb_processing_time r))),
      (''file_size_mb'', VFloat (Fin (rb_file_size_mb r))),
      (''num_samples'', VInt (int (rb_num_samples r))),
      (''device_used'', VStr (rb_device r)),
      (''classification_report'', (case rb_report r of None \<Rightarrow> VNone | Some v \<Rightarrow> v)),
      (''confusion_matrix_img'', (case rb_cm_img r of None \<Rightarrow> VNone | Some i \<Rightarrow> VStr i))]"

text \<open>Lines 40--57: save the upload under its sanitised name, read it, run the
  pipeline, and remove the file on both the success and the error path.\<close>

definition process_upload :: "app_env \<Rightarrow> upload \<Rightarrow> server \<Rightarrow> response \<times> server" where
  "process_upload env f s =
     (let filename = secure_filename (up_filename f);
          s1 = s\<lparr>srv_uploads := (srv_uploads s)(filename \<mapsto> up_content f)\<rparr>;
          remove = (\<lambda>s'. s'\<lparr>srv_uploads := (srv_uploads s')(filename := None)\<rparr>)
      in case ae_read_csv env (up_content f) of
           Inl e \<Rightarrow> (JsonResp 500 (error_json (exc_str e)), remove s1)
         | Inr df \<Rightarrow>
             let s2 = s1\<lparr>srv_pipeline_runs := Suc (srv_pipeline_runs s1)\<rparr> in
             (case predict (srv_classifier s2) (ae_pipeline env) df of
                Inl e \<Rightarrow> (JsonResp 500 (error_json (exc_str e)), remove s2)
              | Inr r \<Rightarrow> (JsonResp 200 (VDict [(''success'', VBool True), (''results'', results_json r)]),
                          remove s2)))"

text \<open>\<open>index\<close> (lines 23--62). The size cap is enforced when \<open>request.files\<close> parses
  the body, on the POST branch; the 413 handler (lines 73--76) answers it.\<close>

definition index :: "app_env \<Rightarrow> http_request \<Rightarrow> server \<Rightarrow> response \<times> server" where
  "index env rq s =
     (if rq_method rq = POST then
        (if MAX_CONTENT_LENGTH < rq_content_length rq
         then (JsonResp 413 (error_json ''File too large (max 200MB)''), s)
         else case rq_file rq of
           None \<Rightarrow> (JsonResp 400 (error_json ''No file part''), s)
         | Some f \<Rightarrow>
             if up_filename f = [] then (JsonResp 400 (error_json ''No selected file''), s)
             else if allowed_file (up_filename f) then process_upload env f s
             else (JsonResp 400 (error_json ''Invalid file type''), s))
      else (HtmlResp 200 ''index.html'', s))"

text \<open>\<open>model_info\<close> (lines 64--71).\<close>

definition model_info :: "server \<Rightarrow> response \<times> server" where
  "model_info s = (case get_model_info (srv_classifier s) of
      Inr info \<Rightarrow> (JsonResp 200 info, s)
    | Inl e \<Rightarrow> (JsonResp 500 (error_json (exc_str e)), s))"

text \<open>Flask's dispatch on the two routes: \<open>/\<close> for GET and POST, \<open>/model-info\<close> for
  GET; any other method is 405 and any other path 404.\<close>

definition handle :: "app_env \<Rightarrow> http_request \<Rightarrow> server \<Rightarrow> response \<times> server" where
  "handle env rq s =
     (if rq_path rq = ''/'' then
        (if rq_method rq = GET \<or> rq_method rq = POST then index env rq s
         else (HtmlResp 405 ''Method Not Allowed'', s))
      else if rq_path rq = ''/model-info'' then
        (if rq_method rq = GET then model_info s else (HtmlResp 405 ''Method Not Allowed'', s))
      else (HtmlResp 404 ''Not Found'', s))"

text \<open>The states a server started in \<open>s0\<close> reaches through any sequence of requests,
  each in its own environment.\<close>

inductive reachable :: "server \<Rightarrow> server \<Rightarrow> bool" for s0 :: server where
  start: "reachable s0 s0"
| step: "reachable s0 s \<Longrightarrow> reachable s0 (snd (handle env rq s))"

section \<open>Lemmas on upload names\<close>

lemma ascii_lower_v: "ascii_lower c = CHR ''v'' \<Longrightarrow> c = CHR ''v'' \<or> c = CHR ''V''"
proof -
  assume a: "ascii_lower c = CHR ''v''"
  let ?n = "of_char c :: nat"
  show ?thesis
  proof (cases "65 \<le> ?n \<and> ?n \<le> 90")
    case True
    with a have "of_char (char_of (?n + 32) :: char) = (118::nat)" by (simp add: ascii_lower_def Let_def)
    with True have "?n = 86" by simp
    then have "of_char c = (of_char (CHR ''V'') :: nat)" by simp
    then show ?thesis by (simp only: of_char_eq_iff) simp
  next
    case False
    with a show ?thesis by (simp add: ascii_lower_def Let_def)
  qed
qed
lemma rev_split: "xs = rev (dropWhile P (rev xs)) @ rev (takeWhile P (rev xs))"
  by (simp only: rev_append[symmetric] takeWhile_dropWhile_id rev_rev_ident)

lemma allowed_file_last:
  assumes "allowed_file f"
  shows "\<exists>p c. f = p @ [c] \<and> (c = CHR ''v'' \<or> c = CHR ''V'')"
proof -
  define e where "e = rev (takeWhile (\<lambda>c. c \<noteq> CHR ''.'') (rev f))"
  define p where "p = rev (dropWhile (\<lambda>c. c \<noteq> CHR ''.'') (rev f))"
  have f: "f = p @ e" unfolding e_def p_def by (rule rev_split)
  from assms have m: "map ascii_lower e = ''csv''" by (simp add: allowed_file_def ALLOWED_EXTENSIONS_def e_def)
  have "length (map ascii_lower e) = length ''csv''" using m by (rule arg_cong)
  then have l: "length e = 3" by simp
  have z: "ascii_lower (e ! 2) = CHR ''v''"
  proof -
    have "map ascii_lower e ! 2 = ascii_lower (e ! 2)" using l by (intro nth_map) simp
    with m show ?thesis by simp
  qed
  have "take (Suc 2) e = take 2 e @ [e ! 2]" using l by (intro take_Suc_conv_app_nth) simp
  moreover have "take (Suc 2) e = e" using l by simp
  ultimately have "e = take 2 e @ [e ! 2]" by simp
  then have "f = (p @ take 2 e) @ [e ! 2]" using f by simp
  with ascii_lower_v[OF z] show ?thesis by blast
qed

lemma nfkd_ascii_ascii: "(of_char c :: nat) < 128 \<Longrightarrow> nfkd_ascii c = [c]"
  by (simp add: nfkd_ascii_def)

lemma py_split_acc_snoc:
  "\<not> py_space c \<Longrightarrow> \<exists>ws w. py_split_acc cur (x @ [c]) = ws @ [w @ [c]]"
proof (induction x arbitrary: cur)
  case Nil
  then show ?case by auto
next
  case (Cons a x)
  show ?case
  proof (cases "py_space a")
    case True
    from Cons.IH[OF Cons.prems, of "[]"] obtain ws w where "py_split_acc [] (x @ [c]) = ws @ [w @ [c]]" by blast
    with True show ?thesis by (cases "cur = []") (auto intro: exI[of _ "rev cur # ws"])
  next
    case False
    with Cons.IH[OF Cons.prems, of "a # cur"] show ?thesis by simp
  qed
qed

lemma py_join_snoc: "\<exists>y. py_join sep (ws @ [w @ [c]]) = y @ [c]"
proof (induction ws)
  case Nil
  then show ?case by simp
next
  case (Cons a ws)
  then obtain y where "py_join sep (ws @ [w @ [c]]) = y @ [c]" by blast
  then show ?case by (cases "ws @ [w @ [c]]") (auto intro: exI[of _ "a @ sep @ y"])
qed

lemma py_strip_snoc:
  assumes "c \<notin> set cs"
  shows "\<exists>y. py_strip cs (x @ [c]) = y @ [c]"
proof -
  have "\<exists>y. dropWhile (\<lambda>c. c \<in> set cs) (x @ [c]) = y @ [c]"
    using assms by (induction x) auto
  then obtain y where y: "dropWhile (\<lambda>c. c \<in> set cs) (x @ [c]) = y @ [c]" ..
  then show ?thesis using assms by (auto simp: py_strip_def)
qed

lemma py_strip_hd: "py_strip cs s \<noteq> [] \<Longrightarrow> hd (py_strip cs s) \<notin> set cs"
proof -
  let ?t = "dropWhile (\<lambda>c. c \<in> set cs) s"
  assume ne: "py_strip cs s \<noteq> []"
  have t: "?t = py_strip cs s @ rev (takeWhile (\<lambda>c. c \<in> set cs) (rev ?t))"
    unfolding py_strip_def by (rule rev_split)
  have "hd ?t = hd (py_strip cs s)" using ne by (subst t) (simp add: hd_append)
  moreover have "?t \<noteq> []" using ne by (subst t) simp
  ultimately show ?thesis using hd_dropWhile[of "\<lambda>c. c \<in> set cs" s] by simp
qed

lemma py_strip_subset: "set (py_strip cs s) \<subseteq> set s"
  by (auto simp: py_strip_def dest!: set_dropWhileD)

text \<open>Claim C21. The name under which an accepted upload is saved is never empty,
  consists of ASCII letters, digits, \<open>_\<close>, \<open>.\<close> and \<open>-\<close> only, and does not start
  with \<open>.\<close> or \<open>_\<close>: it names a plain file directly inside the upload folder, never
  \<open>.\<close>, \<open>..\<close>, a hidden file or a path with a separator.\<close>

lemma secure_filename_allowed:
  assumes "allowed_file f"
  shows "secure_filename f \<noteq> [] \<and> list_all fn_safe_char (secure_filename f) \<and>
         hd (secure_filename f) \<notin> set ''._''"
proof -
  obtain p c where f: "f = p @ [c]" and c: "c = CHR ''v'' \<or> c = CHR ''V''"
    using allowed_file_last[OF assms] by blast
  have c128: "(of_char c :: nat) < 128" and sp: "\<not> py_space c" and sl: "c \<noteq> CHR ''/''"
    and sf: "fn_safe_char c" and st: "c \<notin> set ''._''"
    using c by (auto simp: py_space_def fn_safe_char_def)
  let ?sl = "\<lambda>c. if c = CHR ''/'' then CHR '' '' else c"
  define b where "b = map ?sl (concat (map nfkd_ascii p))"
  have "map ?sl (concat (map nfkd_ascii f)) = b @ [c]"
    using f c128 sl by (simp add: b_def nfkd_ascii_ascii)
  moreover obtain ws w where "py_split (b @ [c]) = ws @ [w @ [c]]"
    using py_split_acc_snoc[OF sp] by (fastforce simp: py_split_def)
  moreover obtain y where "py_join ''_'' (ws @ [w @ [c]]) = y @ [c]"
    using py_join_snoc by blast
  ultimately have j: "filter fn_safe_char (py_join ''_'' (py_split (map ?sl (concat (map nfkd_ascii f))))) =
                      filter fn_safe_char y @ [c]"
    using sf by simp
  obtain z where z: "py_strip ''._'' (filter fn_safe_char y @ [c]) = z @ [c]"
    using py_strip_snoc[OF st] by blast
  have sfn: "secure_filename f = py_strip ''._'' (filter fn_safe_char y @ [c])"
    unfolding secure_filename_def Let_def j ..
  have "secure_filename f \<noteq> []" using sfn z by simp
  moreover have "list_all fn_safe_char (secure_filename f)"
    using py_strip_subset[of "''._''" "filter fn_safe_char y @ [c]"] sf sfn
    by (auto simp: list_all_iff)
  ultimately show ?thesis using py_strip_hd sfn by metis
qed

section \<open>Lemmas on the server\<close>

lemma map_le_upd_None: "(m(k \<mapsto> v))(k := None) \<subseteq>\<^sub>m m"
  by (auto simp: map_le_def)

lemma process_upload_state:
  "srv_uploads (snd (process_upload env f s)) = (srv_uploads s)(secure_filename (up_filename f) := None) \<and>
   srv_classifier (snd (process_upload env f s)) = srv_classifier s"
  by (simp add: process_upload_def Let_def split: sum.splits)

lemma handle_state:
  "srv_uploads (snd (handle env rq s)) \<subseteq>\<^sub>m srv_uploads s \<and>
   srv_classifier (snd (handle env rq s)) = srv_classifier s"
  using process_upload_state[of env _ s]
  by (auto simp: handle_def index_def model_info_def map_le_def
           split: option.splits sum.splits if_splits)

text \<open>Under the assumption of this theory that \<open>file.save\<close> succeeds, every state the
  server reaches holds no file it did not hold at start-up, and the classifier object is
  the one created at start-up. With save failures this no longer holds for the folder:
  \<open>Upload_IO\<close> shows a reachable state holding a partial upload.\<close>

lemma reachable_invariant:
  assumes "reachable s0 s"
  shows "srv_uploads s \<subseteq>\<^sub>m srv_uploads s0 \<and> srv_classifier s = srv_classifier s0"
  using assms
proof (induction rule: reachable.induct)
  case start
  then show ?case by simp
next
  case (step s env rq)
  then show ?case using handle_state[of env rq s] map_le_trans by metis
qed

lemma handle_response_classifier:
  "srv_classifier s = srv_classifier t \<Longrightarrow> fst (handle env rq s) = fst (handle env rq t)"
  by (simp add: handle_def index_def model_info_def process_upload_def Let_def
           split: option.splits sum.splits)

lemma reachable_classifier: "reachable s0 s \<Longrightarrow> srv_classifier s = srv_classifier s0"
  by (induction rule: reachable.induct) (simp_all add: handle_state)

text \<open>Claim C27. The service does not degrade: in every state reachable from start-up,
  each request gets exactly the response it gets at start-up. A request the server
  serves successfully once stays enabled in every later state; no earlier request,
  failed or not, leaves anything behind that changes an answer.\<close>

lemma service_availability:
  "reachable s0 s \<Longrightarrow> fst (handle env rq s) = fst (handle env rq s0)"
  by (rule handle_response_classifier) (rule reachable_classifier)

text \<open>Claim C22. Only a POST of an allowed file of at most 200 MiB to \<open>/\<close> changes
  the server: any other request writes no file and does not enter the pipeline.\<close>

lemma only_accepted_uploads_change_state:
  assumes "\<not> (rq_path rq = ''/'' \<and> rq_method rq = POST \<and> rq_content_length rq \<le> MAX_CONTENT_LENGTH \<and>
              (\<exists>f. rq_file rq = Some f \<and> up_filename f \<noteq> [] \<and> allowed_file (up_filename f)))"
  shows "snd (handle env rq s) = s"
  using assms
  by (auto simp: handle_def index_def model_info_def not_less split: option.splits sum.splits)

text \<open>Claim C23. An upload larger than 200 MiB is answered with 413 and the message
  "File too large (max 200MB)", without entering the pipeline or touching the folder.\<close>

lemma too_large_413:
  assumes "rq_path rq = ''/''" "rq_method rq = POST" "MAX_CONTENT_LENGTH < rq_content_length rq"
  shows "handle env rq s = (JsonResp 413 (error_json ''File too large (max 200MB)''), s)"
  using assms by (simp add: handle_def index_def)

text \<open>Claim C24. An accepted upload is saved, read and classified; the saved file is
  removed whatever happens. A read error answers 500 with its message and does not enter
  the pipeline; otherwise the pipeline runs once, a pipeline error answers 500 with a
  message prefixed "Error in prediction pipeline: ", and a result answers 200 with
  \<open>success\<close> and the results.\<close>

lemma upload_response:
  assumes "rq_path rq = ''/''" "rq_method rq = POST" "rq_content_length rq \<le> MAX_CONTENT_LENGTH"
    "rq_file rq = Some f" "allowed_file (up_filename f)" "handle env rq s = (resp, s')"
  shows "srv_uploads s' = (srv_uploads s)(secure_filename (up_filename f) := None) \<and>
    (case ae_read_csv env (up_content f) of
       Inl e \<Rightarrow> resp = JsonResp 500 (error_json (exc_str e)) \<and> srv_pipeline_runs s' = srv_pipeline_runs s
     | Inr df \<Rightarrow> srv_pipeline_runs s' = Suc (srv_pipeline_runs s) \<and>
         (case predict (srv_classifier s) (ae_pipeline env) df of
            Inl e \<Rightarrow> (\<exists>m. resp = JsonResp 500 (error_json (''Error in prediction pipeline: '' @ m)))
          | Inr r \<Rightarrow> resp = JsonResp 200 (VDict [(''success'', VBool True), (''results'', results_json r)])))"
proof -
  have ne: "up_filename f \<noteq> []" using assms(5) by (auto simp: allowed_file_def)
  have h: "handle env rq s = process_upload env f s"
    using assms(1-5) ne by (simp add: handle_def index_def)
  show ?thesis
    using assms(6) unfolding h
    by (auto simp: process_upload_def Let_def predict_def rewrap_eq_Inl_iff split: sum.splits)
qed

text \<open>Claim C25. When the classifier's probabilities are finite floats, the value of the 200
  response to an upload holds only finite floats at every depth: the confidence scores,
  the timing and size figures and the classification report; no NaN or infinity, and so
  no bare \<open>NaN\<close> or \<open>Infinity\<close> token, can reach the body.\<close>

lemma upload_response_finite:
  assumes "process_upload env f s = (JsonResp 200 v, s')" "ae_read_csv env (up_content f) = Inr df"
    "classifier (srv_classifier s) = Some clf"
    "preprocess_data (srv_classifier s) df = Inr (Xs, Xr, y, oh)" "keras_predict clf batch_size Xr = Inr P"
    "list_all (list_all is_fin) P"
  shows "all_finite v"
proof -
  obtain r where p: "predict (srv_classifier s) (ae_pipeline env) df = Inr r"
      and v: "v = VDict [(''success'', VBool True), (''results'', results_json r)]"
    using assms(1,2) by (auto simp: process_upload_def Let_def error_json_def split: sum.splits)
  have cs: "rmap np_max P = Inr (rb_confidence r)"
    using predict_row_outputs[OF p assms(3-5)] by blast
  have conf: "list_all is_fin (rb_confidence r)"
    using assms(6) rmap_Inr_set[OF cs] np_max_fin by (fastforce simp: list_all_iff)
  have rep: "all_finite rv" if "rb_report r = Some rv" for rv
    using predict_report_Some[OF p that] classification_report_clean by blast
  show ?thesis using conf rep
    by (auto simp: v results_json_def list_all_iff split: option.splits)
qed

end
