(* ===== verification/Api.thy ===== *)
theory Api
  imports App
begin

text \<open>
  The response contract of the HTTP boundary (the external interfaces the specification
  lists): a small type language for JSON values, the judgement that a value has a type,
  and the schema of each response body, by status and route. The lemmas show that the
  report, the results dictionary and the model information the code builds have their
  schema, and that every JSON body \<open>handle\<close> returns conforms to the contract.
\<close>

section \<open>JSON types\<close>

datatype jtype = TFloat | TInt | TStr | TBool | TOpt jtype | TList jtype | TMap jtype
  | TObj "(string \<times> jtype) list"

text \<open>\<open>TOpt t\<close> admits \<open>null\<close>; \<open>TMap t\<close> is an object with any keys whose values have
  type \<open>t\<close>; \<open>TObj\<close> is an object with exactly the given keys, in order.\<close>

fun has_type :: "pyval \<Rightarrow> jtype \<Rightarrow> bool" where
  "has_type v (TOpt t) = (v = VNone \<or> has_type v t)"
| "has_type (VFloat _) TFloat = True"
| "has_type (VInt _) TInt = True"
| "has_type (VStr _) TStr = True"
| "has_type (VBool _) TBool = True"
| "has_type (VList vs) (TList t) = list_all (\<lambda>v. has_type v t) vs"
| "has_type (VDict kvs) (TMap t) = list_all (\<lambda>kv. has_type (snd kv) t) kvs"
| "has_type (VDict kvs) (TObj fs) = list_all2 (\<lambda>kv f. fst kv = fst f \<and> has_type (snd kv) (snd f)) kvs fs"
| "has_type _ _ = False"

section \<open>The schemas\<close>

definition metrics_type :: jtype where
  "metrics_type = TObj [(''precision'', TFloat), (''recall'', TFloat), (''f1-score'', TFloat), (''support'', TFloat)]"

definition report_type :: "string list \<Rightarrow> jtype" where
  "report_type names = TObj (map (\<lambda>n. (n, metrics_type)) names @
     [(''accuracy'', TFloat), (''macro avg'', metrics_type), (''weighted avg'', metrics_type)])"

definition results_type :: "string list \<Rightarrow> jtype" where
  "results_type names = TObj
     [(''predictions'', TList TStr), (''confidence_scores'', TList TFloat), (''distribution'', TMap TInt),
      (''pseudo_labels'', TList TInt), (''processing_time'', TFloat), (''file_size_mb'', TFloat),
      (''num_samples'', TInt), (''device_used'', TStr), (''classification_report'', TOpt (report_type names)),
      (''confusion_matrix_img'', TOpt TStr)]"

definition info_type :: jtype where
  "info_type = TObj [(''labels'', TList TStr),
     (''architecture'', TObj [(''generator_params'', TInt), (''discriminator_params'', TInt), (''classifier_params'', TInt)]),
     (''status'', TBool), (''device'', TStr)]"

definition error_type :: jtype where
  "error_type = TObj [(''error'', TStr)]"

text \<open>The body a request may get with a status: 200 on \<open>/model-info\<close> is the model
  information, 200 on \<open>/\<close> is \<open>{success, results}\<close>, every other JSON status carries
  \<open>{error}\<close>.\<close>

definition api_type :: "string list \<Rightarrow> http_request \<Rightarrow> nat \<Rightarrow> jtype" where
  "api_type names rq code =
     (if code = 200 then
        (if rq_path rq = ''/model-info'' then info_type
         else TObj [(''success'', TBool), (''results'', results_type names)])
      else error_type)"

section \<open>Lemmas\<close>

lemma scores_dict_type: "length s = 4 \<Longrightarrow> has_type (scores_dict s) metrics_type"
  by (auto simp: scores_dict_def metrics_type_def numeral_eq_Suc length_Suc_conv)

lemma class_scores_length: "length (class_scores ys ps l) = 4"
  by (simp add: class_scores_def Let_def)

lemma classification_report_type:
  assumes "classification_report names ys ps = Inr rep"
  shows "has_type rep (report_type names)"
proof -
  let ?ss = "map (class_scores ys ps) (unique_labels ys ps)"
  have l: "length ?ss = length names" and
    rep: "rep = VDict (zip names (map scores_dict ?ss) @
                  [(''accuracy'', VFloat (Fin (accuracy ys ps))),
                   (''macro avg'', scores_dict (macro_avg ?ss)),
                   (''weighted avg'', scores_dict (weighted_avg ?ss))])"
    using assms by (auto simp: classification_report_def Let_def split: if_splits)
  have "list_all2 (\<lambda>kv f. fst kv = fst f \<and> has_type (snd kv) (snd f))
          (zip names (map scores_dict ?ss)) (map (\<lambda>n. (n, metrics_type)) names)"
    using l by (auto simp: list_all2_conv_all_nth class_scores_length intro: scores_dict_type)
  moreover have "length (macro_avg ?ss) = 4" "length (weighted_avg ?ss) = 4"
    by (simp_all add: macro_avg_def weighted_avg_def Let_def)
  ultimately show ?thesis
    by (simp add: rep report_type_def list_all2_appendI scores_dict_type)
qed

lemma get_model_info_type: "get_model_info st = Inr v \<Longrightarrow> has_type v info_type"
  by (auto simp: get_model_info_def info_type_def list_all_iff)

lemma predict_report_type:
  assumes "predict st env df = Inr r" "rb_report r = Some rep"
  shows "has_type rep (report_type (labels_iscx st))"
proof -
  obtain y ks rep' img where
    ev: "(case y of None \<Rightarrow> Inr (None, None) | Some ys \<Rightarrow> evaluate (env_render env) (labels_iscx st) ys ks) = Inr (rep', img)" and
    r: "rb_report r = rep'"
    using assms(1) by (elim predict_Inr_E) auto
  with assms(2) obtain ys where "evaluate (env_render env) (labels_iscx st) ys ks = Inr (Some rep, img)"
    by (cases y) auto
  from evaluate_Some[OF this] show ?thesis by (blast intro: classification_report_type)
qed

lemma results_json_type:
  assumes "predict st env df = Inr r"
  shows "has_type (results_json r) (results_type (labels_iscx st))"
proof -
  have "rb_report r = None \<or> has_type (the (rb_report r)) (report_type (labels_iscx st))"
    using predict_report_type[OF assms] by (cases "rb_report r") auto
  then show ?thesis
    by (cases "rb_report r"; cases "rb_cm_img r")
       (auto simp: results_json_def results_type_def list_all_iff)
qed

text \<open>Claim C26. Every JSON body the server sends has the type the interface
  prescribes for its route and status: the model information, \<open>{success, results}\<close> with
  the results dictionary and its optional report, or \<open>{error}\<close>.\<close>

theorem handle_api_type:
  assumes "handle env rq s = (JsonResp code v, s')"
  shows "has_type v (api_type (labels_iscx (srv_classifier s)) rq code)"
proof -
  have err: "has_type (error_json m) error_type" for m by (simp add: error_json_def error_type_def)
  show ?thesis
  proof (cases "rq_path rq = ''/'' \<and> rq_method rq = POST \<and> rq_content_length rq \<le> MAX_CONTENT_LENGTH \<and>
                (\<exists>f. rq_file rq = Some f \<and> up_filename f \<noteq> [] \<and> allowed_file (up_filename f))")
    case True
    then obtain f where f: "rq_file rq = Some f" "up_filename f \<noteq> []" "allowed_file (up_filename f)" by blast
    with True have "handle env rq s = process_upload env f s" by (simp add: handle_def index_def)
    with assms have p: "process_upload env f s = (JsonResp code v, s')" by simp
    show ?thesis
    proof (cases "ae_read_csv env (up_content f)")
      case (Inl e)
      with p err True show ?thesis by (auto simp: process_upload_def Let_def api_type_def)
    next
      case (Inr df)
      show ?thesis
      proof (cases "predict (srv_classifier s) (ae_pipeline env) df")
        case (Inl e)
        with Inr p err True show ?thesis by (auto simp: process_upload_def Let_def api_type_def)
      next
        case (Inr r)
        with \<open>ae_read_csv env (up_content f) = Inr df\<close> p True results_json_type[OF Inr] show ?thesis
          by (auto simp: process_upload_def Let_def api_type_def)
      qed
    qed
  next
    case False
    with assms err get_model_info_type show ?thesis
      by (auto simp: handle_def index_def model_info_def api_type_def not_less
               split: if_splits option.splits sum.splits)
  qed
qed

end
