(* ===== verification/Upload_IO.thy ===== *)
theory Upload_IO
  imports App
begin

text \<open>
  The upload path of \<^verbatim>\<open>src/app.py\<close> with the failures of \<open>file.save\<close>, which
  \<open>App\<close> assumes to succeed. \<open>file.save(filepath)\<close> (line 42) runs before the
  \<open>try\<close> block, so an exception it raises is not cleaned up by the handler: Flask
  answers it with the 500 handler of lines 78--81 or, when the application runs with
  \<open>debug=True\<close> (line 84), propagates it to the debugger, which answers 500 with a
  traceback page. Saving can fail before the file is created, or after a prefix of the
  bytes has been written.
\<close>

datatype save_outcome = Saved | SaveFailed string | SaveAborted nat string

text \<open>The checks of lines 26--38 that an upload passes before it is saved.\<close>

definition upload_of :: "http_request \<Rightarrow> upload option" where
  "upload_of rq =
     (if rq_path rq = ''/'' \<and> rq_method rq = POST \<and> rq_content_length rq \<le> MAX_CONTENT_LENGTH
      then (case rq_file rq of
              Some f \<Rightarrow> if up_filename f \<noteq> [] \<and> allowed_file (up_filename f) then Some f else None
            | None \<Rightarrow> None)
      else None)"

text \<open>An exception that leaves the view function: the JSON 500 handler, or the
  debugger's traceback page in debug mode.\<close>

definition unhandled_error :: "bool \<Rightarrow> string \<Rightarrow> response" where
  "unhandled_error debug msg =
     (if debug then HtmlResp 500 msg else JsonResp 500 (error_json ''Internal server error''))"

definition process_upload_io :: "bool \<Rightarrow> save_outcome \<Rightarrow> app_env \<Rightarrow> upload \<Rightarrow> server \<Rightarrow> response \<times> server" where
  "process_upload_io debug sv env f s =
     (let filename = secure_filename (up_filename f) in
      case sv of
        Saved \<Rightarrow> process_upload env f s
      | SaveFailed msg \<Rightarrow> (unhandled_error debug msg, s)
      | SaveAborted n msg \<Rightarrow> (unhandled_error debug msg,
          s\<lparr>srv_uploads := (srv_uploads s)(filename \<mapsto> take n (up_content f))\<rparr>))"

definition handle_io :: "bool \<Rightarrow> save_outcome \<Rightarrow> app_env \<Rightarrow> http_request \<Rightarrow> server \<Rightarrow> response \<times> server" where
  "handle_io debug sv env rq s =
     (case upload_of rq of
        Some f \<Rightarrow> process_upload_io debug sv env f s
      | None \<Rightarrow> handle env rq s)"

text \<open>The states reached from \<open>s0\<close> when each request may also meet a failing save.\<close>

inductive reachable_io :: "server \<Rightarrow> server \<Rightarrow> bool" for s0 :: server where
  start: "reachable_io s0 s0"
| step: "reachable_io s0 s \<Longrightarrow> reachable_io s0 (snd (handle_io debug sv env rq s))"

section \<open>Lemmas\<close>

lemma upload_of_handle: "upload_of rq = Some f \<Longrightarrow> handle env rq s = process_upload env f s"
  by (auto simp: upload_of_def handle_def index_def split: if_splits option.splits)

text \<open>When the file is saved, the refined model of the upload path is the
  model of \<open>App\<close>: \<open>handle\<close> is the special case of \<open>handle_io\<close> in which
  \<open>file.save\<close> succeeds, in debug mode and out of it.\<close>

theorem handle_io_refines_handle: "handle_io debug Saved env rq s = handle env rq s"
  by (auto simp: handle_io_def process_upload_io_def upload_of_handle split: option.splits)

lemma save_aborted_step:
  "upload_of rq = Some f \<Longrightarrow>
   handle_io debug (SaveAborted n msg) env rq s =
     (unhandled_error debug msg,
      s\<lparr>srv_uploads := (srv_uploads s)(secure_filename (up_filename f) \<mapsto> take n (up_content f))\<rparr>)"
  by (simp add: handle_io_def process_upload_io_def)

text \<open>Claim C28. A save that fails after writing part of the upload answers 500 without
  entering the pipeline and leaves the partial file in the upload folder, since the
  cleanup of lines 54--56 never runs for it: once saves can fail, a reachable state holds
  a file that was not in the folder at start-up, against the invariant that holds when
  every save succeeds.\<close>

theorem save_aborted_leaves_file:
  assumes "upload_of rq = Some f" "srv_uploads s0 (secure_filename (up_filename f)) = None"
  shows "reachable_io s0 (snd (handle_io debug (SaveAborted n msg) env rq s0)) \<and>
         fst (handle_io debug (SaveAborted n msg) env rq s0) = unhandled_error debug msg \<and>
         srv_pipeline_runs (snd (handle_io debug (SaveAborted n msg) env rq s0)) = srv_pipeline_runs s0 \<and>
         srv_uploads (snd (handle_io debug (SaveAborted n msg) env rq s0)) (secure_filename (up_filename f))
           = Some (take n (up_content f)) \<and>
         \<not> srv_uploads (snd (handle_io debug (SaveAborted n msg) env rq s0)) \<subseteq>\<^sub>m srv_uploads s0"
proof -
  have r: "reachable_io s0 (snd (handle_io debug (SaveAborted n msg) env rq s0))"
    by (rule reachable_io.step[OF reachable_io.start])
  have st: "handle_io debug (SaveAborted n msg) env rq s0 =
     (unhandled_error debug msg,
      s0\<lparr>srv_uploads := (srv_uploads s0)(secure_filename (up_filename f) \<mapsto> take n (up_content f))\<rparr>)"
    by (rule save_aborted_step[OF assms(1)])
  have "\<not> (srv_uploads s0)(secure_filename (up_filename f) \<mapsto> take n (up_content f)) \<subseteq>\<^sub>m srv_uploads s0"
    using assms(2) by (auto simp: map_le_def dom_def)
  with r st show ?thesis by simp
qed

end
