(* ===== verification/Json.thy ===== *)
theory Json
  imports App "HOL-Library.List_Lexorder" "HOL-Library.Char_ord" "HOL-Library.Sublist"
begin

text \<open>
  The text of a JSON response: \<open>jsonify\<close> in \<^verbatim>\<open>src/app.py\<close> (lines 29, 35, 52, 57,
  59, 69, 71, 76) serialises with Flask's default provider, that is \<open>json.dumps\<close> with
  \<open>sort_keys=True\<close> and \<open>ensure_ascii=True\<close>, compact separators outside debug mode and
  an indentation of 2 in debug mode, followed by a newline. Strings are escaped as the
  encoder's \<open>py_encode_basestring_ascii\<close> does; integers print as \<open>str\<close>; finite floats
  print with \<open>float.__repr__\<close>, a parameter \<open>fmt\<close> of the model; NaN and the infinities
  print as the bare tokens \<open>NaN\<close>, \<open>Infinity\<close>, \<open>-Infinity\<close>, which RFC 8259 does not
  admit.
\<close>

section \<open>Strings\<close>

definition hex_digit :: "nat \<Rightarrow> char" where
  "hex_digit d = (if d < 10 then char_of (48 + d) else char_of (87 + d))"

text \<open>One character of \<open>py_encode_basestring_ascii\<close>: the quote, the backslash and five
  control characters get their short escapes, the printable ASCII range \<open>' '..'~'\<close>
  stays, everything else becomes \<open>\u00XX\<close> with lower-case hex digits.\<close>

definition json_escape_char :: "char \<Rightarrow> string" where
  "json_escape_char c = (let n = (of_char c :: nat) in
     if n = 34 \<or> n = 92 then [CHR 0x5C, c]
     else if n = 10 then [CHR 0x5C, CHR ''n'']
     else if n = 13 then [CHR 0x5C, CHR ''r'']
     else if n = 9 then [CHR 0x5C, CHR ''t'']
     else if n = 8 then [CHR 0x5C, CHR ''b'']
     else if n = 12 then [CHR 0x5C, CHR ''f'']
     else if 32 \<le> n \<and> n \<le> 126 then [c]
     else [CHR 0x5C, CHR ''u'', CHR ''0'', CHR ''0'', hex_digit (n div 16), hex_digit (n mod 16)])"

definition json_quote :: "string \<Rightarrow> string" where
  "json_quote s = CHR 0x22 # concat (map json_escape_char s) @ [CHR 0x22]"

section \<open>Values\<close>

text \<open>\<open>float.__repr__\<close> for finite floats is the parameter \<open>fmt\<close>; the encoder writes
  the non-finite ones itself.\<close>

fun json_float :: "(real \<Rightarrow> string) \<Rightarrow> pyfloat \<Rightarrow> string" where
  "json_float fmt (Fin r) = fmt r"
| "json_float fmt NaN = ''NaN''"
| "json_float fmt PInf = ''Infinity''"
| "json_float fmt NInf = ''-Infinity''"

text \<open>The indentation of level \<open>l\<close>: a newline and \<open>k * l\<close> spaces.\<close>

definition newline_indent :: "nat \<Rightarrow> nat \<Rightarrow> string" where
  "newline_indent k l = CHR 0x0A # replicate (k * l) (CHR '' '')"

text \<open>A list or an object with its encoded items: \<open>[]\<close> when empty; otherwise the items
  separated by \<open>,\<close>, each on its own indented line when an indentation is given.\<close>

definition json_container :: "nat option \<Rightarrow> nat \<Rightarrow> char \<Rightarrow> char \<Rightarrow> string list \<Rightarrow> string" where
  "json_container ind lvl op cl items =
     (if items = [] then [op, cl]
      else case ind of
        None \<Rightarrow> op # py_join '','' items @ [cl]
      | Some k \<Rightarrow> op # newline_indent k (Suc lvl) @ py_join ('','' @ newline_indent k (Suc lvl)) items @
                  newline_indent k lvl @ [cl])"

definition key_separator :: "nat option \<Rightarrow> string" where
  "key_separator ind = (case ind of None \<Rightarrow> '':'' | Some _ \<Rightarrow> '': '')"

text \<open>\<open>json.dumps\<close>' \<open>_iterencode\<close> at nesting level \<open>lvl\<close>.\<close>

fun json_enc :: "(real \<Rightarrow> string) \<Rightarrow> nat option \<Rightarrow> nat \<Rightarrow> pyval \<Rightarrow> string" where
  "json_enc fmt ind lvl VNone = ''null''"
| "json_enc fmt ind lvl (VBool b) = (if b then ''true'' else ''false'')"
| "json_enc fmt ind lvl (VInt i) = int_str i"
| "json_enc fmt ind lvl (VFloat f) = json_float fmt f"
| "json_enc fmt ind lvl (VStr s) = json_quote s"
| "json_enc fmt ind lvl (VList vs) =
     json_container ind lvl (CHR ''['') (CHR '']'') (map (json_enc fmt ind (Suc lvl)) vs)"
| "json_enc fmt ind lvl (VDict kvs) =
     json_container ind lvl (CHR ''{'') (CHR ''}'')
       (map (\<lambda>kv. json_quote (fst kv) @ key_separator ind @ json_enc fmt ind (Suc lvl) (snd kv)) kvs)"

text \<open>\<open>sort_keys=True\<close>: every object's items in the order of their keys.\<close>

primrec sort_keys :: "pyval \<Rightarrow> pyval" where
  "sort_keys (VDict kvs) = VDict (sort_key fst (map (map_prod id sort_keys) kvs))"
| "sort_keys (VList vs) = VList (map sort_keys vs)"
| "sort_keys (VFloat f) = VFloat f"
| "sort_keys (VInt i) = VInt i"
| "sort_keys (VStr s) = VStr s"
| "sort_keys VNone = VNone"
| "sort_keys (VBool b) = VBool b"

text \<open>The body of a response: Flask's JSON text, indented in debug mode (\<open>app.run(debug=True)\<close>,
  line 84), and a final newline; an HTML page as it is.\<close>

definition flask_json_body :: "bool \<Rightarrow> (real \<Rightarrow> string) \<Rightarrow> pyval \<Rightarrow> string" where
  "flask_json_body debug fmt v = json_enc fmt (if debug then Some 2 else None) 0 (sort_keys v) @ [CHR 0x0A]"

definition http_body :: "bool \<Rightarrow> (real \<Rightarrow> string) \<Rightarrow> response \<Rightarrow> string" where
  "http_body debug fmt resp = (case resp of JsonResp code v \<Rightarrow> flask_json_body debug fmt v | HtmlResp code h \<Rightarrow> h)"

section \<open>Lemmas\<close>

lemma char_of_code: "(of_char c :: nat) = n \<Longrightarrow> c = char_of n"
  by (metis char_of_char)

lemma sublist_in_middle: "sublist x y \<Longrightarrow> sublist x (a @ y @ b)"
  unfolding sublist_def by (metis append.assoc)

lemma sublist_py_join: "x \<in> set xs \<Longrightarrow> sublist x (py_join sep xs)"
proof (induction sep xs rule: py_join.induct)
  case (3 sep w v vs)
  show ?case
  proof (cases "x = w")
    case True
    then show ?thesis by (simp add: sublist_append_rightI)
  next
    case False
    with 3 have "sublist x (py_join sep (v # vs))" by simp
    then have "sublist x ((w @ sep) @ py_join sep (v # vs) @ [])" by (rule sublist_in_middle)
    then show ?thesis by simp
  qed
qed simp_all

lemma sublist_json_container: "x \<in> set items \<Longrightarrow> sublist x (json_container ind lvl op cl items)"
proof -
  assume x: "x \<in> set items"
  have j: "sublist x (py_join sep items)" for sep using x by (rule sublist_py_join)
  show ?thesis
  proof (cases ind)
    case None
    have "sublist x ([op] @ py_join '','' items @ [cl])" using j by (rule sublist_in_middle)
    with None x show ?thesis by (auto simp: json_container_def)
  next
    case (Some k)
    have "sublist x ((op # newline_indent k (Suc lvl)) @ py_join ('','' @ newline_indent k (Suc lvl)) items @
                     newline_indent k lvl @ [cl])"
      using j by (rule sublist_in_middle)
    with Some x show ?thesis by (auto simp: json_container_def)
  qed
qed

lemma json_enc_has_nan: "has_nan v \<Longrightarrow> sublist ''NaN'' (json_enc fmt ind lvl v)"
proof (induction fmt ind lvl v rule: json_enc.induct)
  case (4 fmt ind lvl f)
  then show ?case by (cases f) auto
next
  case (6 fmt ind lvl vs)
  then obtain v where v: "v \<in> set vs" "has_nan v" by (auto simp: list_ex_iff)
  with "6.IH" have "sublist ''NaN'' (json_enc fmt ind (Suc lvl) v)" by blast
  moreover have "sublist (json_enc fmt ind (Suc lvl) v)
                   (json_container ind lvl (CHR ''['') (CHR '']'') (map (json_enc fmt ind (Suc lvl)) vs))"
    using v by (intro sublist_json_container) simp
  ultimately show ?case by (auto intro: sublist_order.order_trans)
next
  case (7 fmt ind lvl kvs)
  then obtain kv where kv: "kv \<in> set kvs" "has_nan (snd kv)" by (auto simp: list_ex_iff)
  with "7.IH" have "sublist ''NaN'' (json_enc fmt ind (Suc lvl) (snd kv))" by blast
  then have "sublist ''NaN'' ((json_quote (fst kv) @ key_separator ind) @ json_enc fmt ind (Suc lvl) (snd kv) @ [])"
    by (rule sublist_in_middle)
  moreover have "sublist (json_quote (fst kv) @ key_separator ind @ json_enc fmt ind (Suc lvl) (snd kv))
      (json_container ind lvl (CHR ''{'') (CHR ''}'')
        (map (\<lambda>kv. json_quote (fst kv) @ key_separator ind @ json_enc fmt ind (Suc lvl) (snd kv)) kvs))"
    using kv by (intro sublist_json_container) simp
  ultimately show ?case by (auto intro: sublist_order.order_trans)
qed auto

lemma has_nan_sort_keys: "has_nan (sort_keys v) = has_nan v"
proof (induction v rule: has_nan.induct)
  case (2 vs)
  then show ?case by (auto simp: list_ex_iff)
next
  case (3 kvs)
  have "has_nan (sort_keys (VDict kvs)) = (\<exists>kv \<in> set kvs. has_nan (sort_keys (snd kv)))"
    by (auto simp: list_ex_iff)
  also have "\<dots> = has_nan (VDict kvs)" using 3 by (auto simp: list_ex_iff)
  finally show ?case .
qed auto

lemma flask_json_body_nan: "has_nan v \<Longrightarrow> sublist ''NaN'' (flask_json_body debug fmt v)"
  using sublist_in_middle[OF json_enc_has_nan[of "sort_keys v" fmt "if debug then Some 2 else None" 0], of "[]" "[CHR 0x0A]"]
    has_nan_sort_keys[of v]
  by (simp add: flask_json_body_def)

lemma fold_maximum_has_NaN: "NaN \<in> set xs \<Longrightarrow> fold (\<lambda>y m. pf_maximum m y) xs m = NaN"
proof (induction xs arbitrary: m)
  case (Cons y ys)
  show ?case
  proof (cases "y = NaN")
    case True
    then show ?thesis by (simp add: pf_maximum_nan fold_maximum_NaN)
  next
    case False
    with Cons show ?thesis by simp
  qed
qed simp

lemma np_max_has_NaN: "NaN \<in> set xs \<Longrightarrow> np_max xs = Inr NaN"
  by (cases xs) (auto simp: np_max_def fold_maximum_NaN fold_maximum_has_NaN)

lemma results_json_nan: "NaN \<in> set (rb_confidence r) \<Longrightarrow> has_nan (results_json r)"
  by (auto simp: results_json_def list_ex_iff isnan_iff)

text \<open>Claim C30. A NaN among the probabilities the classifier gives a row makes that row's
  confidence score NaN, and the body of the 200 response to the upload then holds the bare
  token NaN, which is not JSON.\<close>

theorem nan_confidence_in_body:
  assumes "ae_read_csv env (up_content f) = Inr df"
    "predict (srv_classifier s) (ae_pipeline env) df = Inr r"
    "classifier (srv_classifier s) = Some clf"
    "preprocess_data (srv_classifier s) df = Inr (Xs, Xr, y, oh)"
    "keras_predict clf batch_size Xr = Inr P" "i < length P" "NaN \<in> set (P ! i)"
  shows "rb_confidence r ! i = NaN \<and> sublist ''NaN'' (http_body debug fmt (fst (process_upload env f s)))"
proof -
  have cs: "rmap np_max P = Inr (rb_confidence r)"
    using predict_row_outputs[OF assms(2-5)] by blast
  have "np_max (P ! i) = Inr (rb_confidence r ! i)" using rmap_Inr_nth[OF cs assms(6)] .
  with np_max_has_NaN[OF assms(7)] have c: "rb_confidence r ! i = NaN" by simp
  have "i < length (rb_confidence r)" using rmap_Inr_length[OF cs] assms(6) by simp
  with c have "has_nan (results_json r)" by (metis nth_mem results_json_nan)
  then have "has_nan (VDict [(''success'', VBool True), (''results'', results_json r)])" by simp
  moreover have "fst (process_upload env f s) =
      JsonResp 200 (VDict [(''success'', VBool True), (''results'', results_json r)])"
    using assms(1,2) by (simp add: process_upload_def Let_def)
  ultimately show ?thesis using c by (simp add: http_body_def flask_json_body_nan)
qed

end
