(* ===== verification/Json_Decode.thy ===== *)
theory Json_Decode
  imports Json
begin

text \<open>
  The client's side of the JSON bodies: \<open>json.loads\<close> as CPython's scanner reads a text
  (\<open>json.decoder\<close> and \<open>_json.c\<close>, not code of this repository). It skips the
  whitespace \<open>' \t\n\r'\<close> around values and separators, reads strings in strict mode,
  numbers with the grammar \<open>-?(0|[1-9]\d*)(\.\d+)?([eE][-+]?\d+)?\<close> (an integer through
  \<open>int()\<close>, anything with a fraction or an exponent through \<open>float()\<close>), the constants
  \<open>null\<close>, \<open>true\<close>, \<open>false\<close>, \<open>NaN\<close>, \<open>Infinity\<close> and \<open>-Infinity\<close>, and builds
  objects by assignment into a dictionary, so that a repeated key keeps its first position
  and its last value. Arrays and objects nest through mutually recursive scanners with a
  fuel argument: every call consumes at least one character before it recurses, so the
  length of the text is enough fuel, and \<open>json_loads\<close> gives that much. A failure of
  Python's decoder (\<open>JSONDecodeError\<close>) is \<open>None\<close>.
\<close>

section \<open>Strings\<close>

text \<open>A string literal after its opening quote, as \<open>scanstring\<close> reads it in strict mode:
  a raw quote ends the literal, a raw control character is refused, and the escapes are
  \<open>\"\<close>, \<open>\\\<close>, \<open>\/\<close>, \<open>\b\<close>, \<open>\f\<close>, \<open>\n\<close>, \<open>\r\<close>, \<open>\t\<close> and \<open>\uXXXX\<close> in either case (only
  code points below 256 are characters of the model). The result is the string and the
  text after the closing quote.\<close>

definition hex_val :: "char \<Rightarrow> nat option" where
  "hex_val c = (let n = (of_char c :: nat) in
     if 48 \<le> n \<and> n \<le> 57 then Some (n - 48)
     else if 97 \<le> n \<and> n \<le> 102 then Some (n - 87)
     else if 65 \<le> n \<and> n \<le> 70 then Some (n - 55) else None)"

definition hex4 :: "char \<Rightarrow> char \<Rightarrow> char \<Rightarrow> char \<Rightarrow> nat option" where
  "hex4 a b c d = (case (hex_val a, hex_val b, hex_val c, hex_val d) of
      (Some w, Some x, Some y, Some z) \<Rightarrow> Some (((w * 16 + x) * 16 + y) * 16 + z)
    | _ \<Rightarrow> None)"

definition short_escape :: "char \<Rightarrow> char option" where
  "short_escape d = (let n = (of_char d :: nat) in
     if n = 34 \<or> n = 92 \<or> n = 47 then Some d
     else if d = CHR ''b'' then Some (char_of (8::nat)) else if d = CHR ''f'' then Some (char_of (12::nat))
     else if d = CHR ''n'' then Some (char_of (10::nat)) else if d = CHR ''r'' then Some (char_of (13::nat))
     else if d = CHR ''t'' then Some (char_of (9::nat)) else None)"

fun scan_str :: "string \<Rightarrow> (string \<times> string) option" where
  "scan_str [] = None"
| "scan_str (c # cs) =
     (if c = CHR 0x22 then Some ([], cs)
      else if c = CHR 0x5C then
        (case cs of
           [] \<Rightarrow> None
         | d # ds \<Rightarrow>
             if d = CHR ''u'' then
               (case ds of
                  h1 # h2 # h3 # h4 # rest \<Rightarrow>
                    (case hex4 h1 h2 h3 h4 of
                       Some v \<Rightarrow> if v < 256 then map_option (apfst (Cons (char_of v))) (scan_str rest) else None
                     | None \<Rightarrow> None)
                | _ \<Rightarrow> None)
             else (case short_escape d of
                     Some e \<Rightarrow> map_option (apfst (Cons e)) (scan_str ds)
                   | None \<Rightarrow> None))
      else if (of_char c :: nat) < 32 then None
      else map_option (apfst (Cons c)) (scan_str cs))"

section \<open>Whitespace and numbers\<close>

definition json_ws :: "char \<Rightarrow> bool" where
  "json_ws c \<longleftrightarrow> c = CHR '' '' \<or> c = CHR 0x09 \<or> c = CHR 0x0A \<or> c = CHR 0x0D"

definition skip_ws :: "string \<Rightarrow> string" where
  "skip_ws s = dropWhile json_ws s"

text \<open>The integer part of a number: \<open>0\<close>, or a non-zero digit and its following digits.\<close>

definition scan_int_part :: "string \<Rightarrow> (string \<times> string) option" where
  "scan_int_part s = (case s of
      [] \<Rightarrow> None
    | d # r \<Rightarrow> if d = CHR ''0'' then Some (''0'', r)
              else if is_dec_digit d then Some (d # takeWhile is_dec_digit r, dropWhile is_dec_digit r)
              else None)"

text \<open>The optional fraction: a dot and at least one digit.\<close>

definition scan_frac :: "string \<Rightarrow> string \<times> string" where
  "scan_frac s = (case s of
      c # d # r \<Rightarrow> if c = CHR ''.'' \<and> is_dec_digit d
                  then (c # d # takeWhile is_dec_digit r, dropWhile is_dec_digit r) else ([], s)
    | _ \<Rightarrow> ([], s))"

text \<open>The optional exponent: \<open>e\<close> or \<open>E\<close>, an optional sign, at least one digit.\<close>

definition scan_exp :: "string \<Rightarrow> string \<times> string" where
  "scan_exp s = (case s of
      [] \<Rightarrow> ([], s)
    | e # r \<Rightarrow>
        if e = CHR ''e'' \<or> e = CHR ''E'' then
          (let (sg, r1) = (case r of
                             [] \<Rightarrow> ([], r)
                           | c # r' \<Rightarrow> if c = CHR ''+'' \<or> c = CHR ''-'' then ([c], r') else ([], r)) in
           case r1 of
             [] \<Rightarrow> ([], s)
           | d # r2 \<Rightarrow> if is_dec_digit d then (e # sg @ d # takeWhile is_dec_digit r2, dropWhile is_dec_digit r2)
                       else ([], s))
        else ([], s))"

text \<open>\<open>NUMBER_RE\<close> at the start of a text: the matched text, whether it has a fraction or
  an exponent, and the text after it.\<close>

definition scan_number :: "string \<Rightarrow> (string \<times> bool \<times> string) option" where
  "scan_number s =
     (let (sg, s1) = (case s of
                        [] \<Rightarrow> ([], s)
                      | c # r \<Rightarrow> if c = CHR ''-'' then (''-'', r) else ([], s)) in
      case scan_int_part s1 of
        None \<Rightarrow> None
      | Some (ip, s2) \<Rightarrow>
          (case scan_frac s2 of
             (fr, s3) \<Rightarrow> (case scan_exp s3 of
                            (ex, s4) \<Rightarrow> Some (sg @ ip @ fr @ ex, fr \<noteq> [] \<or> ex \<noteq> [], s4))))"

text \<open>The value of a matched number: \<open>float()\<close> of the text when it has a fraction or an
  exponent, \<open>int()\<close> of it otherwise.\<close>

definition number_value :: "string \<Rightarrow> bool \<Rightarrow> pyval option" where
  "number_value t isf = (if isf then map_option VFloat (parse_float_literal t)
                         else map_option VInt (parse_int_literal t))"

text \<open>What may follow a number so that the match ends there: the end of the text or a
  character that cannot continue a number.\<close>

definition num_stop :: "string \<Rightarrow> bool" where
  "num_stop s = (case s of
      [] \<Rightarrow> True
    | c # _ \<Rightarrow> \<not> is_dec_digit c \<and> c \<noteq> CHR ''.'' \<and> c \<noteq> CHR ''e'' \<and> c \<noteq> CHR ''E'')"

text \<open>What the encoder needs of \<open>float.__repr__\<close> for a value \<open>r\<close>: its text is one
  number with a fraction or an exponent, which \<open>float()\<close> reads back as \<open>r\<close>.\<close>

definition float_repr_ok :: "(real \<Rightarrow> string) \<Rightarrow> real \<Rightarrow> bool" where
  "float_repr_ok fmt r \<longleftrightarrow>
     scan_number (fmt r) = Some (fmt r, True, []) \<and> parse_float_literal (fmt r) = Some (Fin r)"

text \<open>A value the decoder gives back: every finite float printed as above, and the keys
  of every object distinct, as those of a Python dictionary are.\<close>

fun json_ok :: "(real \<Rightarrow> string) \<Rightarrow> pyval \<Rightarrow> bool" where
  "json_ok fmt (VFloat (Fin r)) = float_repr_ok fmt r"
| "json_ok fmt (VList vs) = list_all (json_ok fmt) vs"
| "json_ok fmt (VDict kvs) = (distinct (map fst kvs) \<and> list_all (\<lambda>kv. json_ok fmt (snd kv)) kvs)"
| "json_ok fmt _ = True"

section \<open>Values\<close>

text \<open>\<open>scan_once\<close> on a value, \<open>JSONArray\<close> after the first element's start, and
  \<open>JSONObject\<close> after the opening quote of a key, each with the fuel it may spend.\<close>

fun scan_value :: "nat \<Rightarrow> string \<Rightarrow> (pyval \<times> string) option"
and scan_elems :: "nat \<Rightarrow> pyval list \<Rightarrow> string \<Rightarrow> (pyval \<times> string) option"
and scan_members :: "nat \<Rightarrow> (string \<times> pyval) list \<Rightarrow> string \<Rightarrow> (pyval \<times> string) option" where
  "scan_value 0 s = None"
| "scan_value (Suc n) s =
     (case s of
        [] \<Rightarrow> None
      | c # r \<Rightarrow>
          if c = CHR 0x22 then map_option (apfst VStr) (scan_str r)
          else if c = CHR ''{'' then
            (case skip_ws r of
               [] \<Rightarrow> None
             | d # r' \<Rightarrow> if d = CHR ''}'' then Some (VDict [], r')
                         else if d = CHR 0x22 then scan_members n [] r' else None)
          else if c = CHR ''['' then
            (case skip_ws r of
               [] \<Rightarrow> None
             | d # r' \<Rightarrow> if d = CHR '']'' then Some (VList [], r') else scan_elems n [] (d # r'))
          else if take 4 s = ''null'' then Some (VNone, drop 4 s)
          else if take 4 s = ''true'' then Some (VBool True, drop 4 s)
          else if take 5 s = ''false'' then Some (VBool False, drop 5 s)
          else if take 3 s = ''NaN'' then Some (VFloat NaN, drop 3 s)
          else if take 8 s = ''Infinity'' then Some (VFloat PInf, drop 8 s)
          else if take 9 s = ''-Infinity'' then Some (VFloat NInf, drop 9 s)
          else (case scan_number s of
                  None \<Rightarrow> None
                | Some (t, isf, rest) \<Rightarrow> map_option (\<lambda>v. (v, rest)) (number_value t isf)))"
| "scan_elems 0 acc s = None"
| "scan_elems (Suc n) acc s =
     (case scan_value n s of
        None \<Rightarrow> None
      | Some (v, r) \<Rightarrow>
          (case skip_ws r of
             [] \<Rightarrow> None
           | d # r' \<Rightarrow> if d = CHR '']'' then Some (VList (acc @ [v]), r')
                       else if d = CHR '','' then scan_elems n (acc @ [v]) (skip_ws r') else None))"
| "scan_members 0 acc s = None"
| "scan_members (Suc n) acc s =
     (case scan_str s of
        None \<Rightarrow> None
      | Some (k, r) \<Rightarrow>
          (case skip_ws r of
             [] \<Rightarrow> None
           | d # r' \<Rightarrow>
               if d \<noteq> CHR '':'' then None
               else (case scan_value n (skip_ws r') of
                       None \<Rightarrow> None
                     | Some (v, r2) \<Rightarrow>
                         (case skip_ws r2 of
                            [] \<Rightarrow> None
                          | e # r3 \<Rightarrow>
                              if e = CHR ''}'' then Some (VDict (dict_set acc k v), r3)
                              else if e \<noteq> CHR '','' then None
                              else (case skip_ws r3 of
                                      [] \<Rightarrow> None
                                    | q # r4 \<Rightarrow> if q = CHR 0x22 then scan_members n (dict_set acc k v) r4
                                                else None)))))"

text \<open>\<open>json.loads\<close> on a text: a value between optional whitespace, nothing else.\<close>

definition json_loads :: "string \<Rightarrow> pyval option" where
  "json_loads s = (let t = skip_ws s in
     case scan_value (length t) t of
       None \<Rightarrow> None
     | Some (v, r) \<Rightarrow> if skip_ws r = [] then Some v else None)"

section \<open>Lemmas on the scanner\<close>

subsection \<open>Strings and whitespace\<close>

lemma hex_val_digit: "d < 16 \<Longrightarrow> hex_val (hex_digit d) = Some d"
  by (auto simp: hex_val_def hex_digit_def Let_def)

lemma scan_esc_self: "(of_char c :: nat) = 34 \<or> (of_char c :: nat) = 92 \<Longrightarrow>
   scan_str (json_escape_char c @ rest) = map_option (apfst (Cons c)) (scan_str rest)"
  by (auto simp: json_escape_char_def short_escape_def)

lemma scan_esc_short:
  assumes "(of_char c :: nat) = n" "n \<in> {8, 9, 10, 12, 13}"
  shows "scan_str (json_escape_char c @ rest) = map_option (apfst (Cons c)) (scan_str rest)"
proof -
  have c: "c = char_of n" by (rule char_of_code[OF assms(1)])
  from assms(2) show ?thesis
    by (auto simp: json_escape_char_def short_escape_def assms(1) c)
qed

lemma scan_esc_plain:
  assumes "(of_char c :: nat) = n" "n \<noteq> 34" "n \<noteq> 92" "32 \<le> n" "n \<le> 126"
  shows "scan_str (json_escape_char c @ rest) = map_option (apfst (Cons c)) (scan_str rest)"
proof -
  have "c \<noteq> CHR 0x5C" "c \<noteq> CHR 0x22" "\<not> (of_char c :: nat) < 32" using assms by auto
  moreover have "json_escape_char c = [c]" using assms by (simp add: json_escape_char_def)
  ultimately show ?thesis by simp
qed

lemma scan_esc_unicode:
  assumes "(of_char c :: nat) = n" "n \<notin> {8, 9, 10, 12, 13, 34, 92}" "\<not> (32 \<le> n \<and> n \<le> 126)"
  shows "scan_str (json_escape_char c @ rest) = map_option (apfst (Cons c)) (scan_str rest)"
proof -
  have c: "c = char_of n" by (rule char_of_code[OF assms(1)])
  have lt: "n < 256" using assms(1) by (metis nat_of_char_less_256)
  have e: "json_escape_char c = [CHR 0x5C, CHR ''u'', CHR ''0'', CHR ''0'', hex_digit (n div 16), hex_digit (n mod 16)]"
    using assms by (simp add: json_escape_char_def)
  have "hex4 (CHR ''0'') (CHR ''0'') (hex_digit (n div 16)) (hex_digit (n mod 16)) = Some n"
    using lt by (simp add: hex4_def hex_val_digit less_mult_imp_div_less) (simp add: hex_val_def)
  with e lt show ?thesis by (simp add: c)
qed

lemma scan_str_escape_char:
  "scan_str (json_escape_char c @ rest) = map_option (apfst (Cons c)) (scan_str rest)"
proof -
  obtain n where n: "(of_char c :: nat) = n" by blast
  consider "n = 34 \<or> n = 92" | "n \<in> {8, 9, 10, 12, 13}"
    | "n \<noteq> 34" "n \<noteq> 92" "32 \<le> n" "n \<le> 126"
    | "n \<notin> {8, 9, 10, 12, 13, 34, 92}" "\<not> (32 \<le> n \<and> n \<le> 126)" by fastforce
  then show ?thesis
  proof cases
    case 1
    then show ?thesis using scan_esc_self n by blast
  next
    case 2
    then show ?thesis by (rule scan_esc_short[OF n])
  next
    case 3
    then show ?thesis by (rule scan_esc_plain[OF n])
  next
    case 4
    then show ?thesis by (rule scan_esc_unicode[OF n])
  qed
qed

lemma scan_str_escape: "scan_str (concat (map json_escape_char s) @ CHR 0x22 # rest) = Some (s, rest)"
  by (induction s) (simp_all add: scan_str_escape_char)

lemma scan_str_quote: "json_quote s @ rest = CHR 0x22 # (concat (map json_escape_char s) @ CHR 0x22 # rest)"
  by (simp add: json_quote_def)


lemma skip_ws_Cons: "\<not> json_ws c \<Longrightarrow> skip_ws (c # s) = c # s"
  by (simp add: skip_ws_def)

lemma skip_ws_append: "list_all json_ws w \<Longrightarrow> skip_ws (w @ s) = skip_ws s"
  by (induction w) (simp_all add: skip_ws_def)

lemma newline_indent_ws: "list_all json_ws (newline_indent k l)"
  by (simp add: newline_indent_def json_ws_def list_all_iff)

subsection \<open>Numbers\<close>

lemma num_stop_while: "num_stop rest \<Longrightarrow> takeWhile is_dec_digit rest = [] \<and> dropWhile is_dec_digit rest = rest"
  by (cases rest) (auto simp: num_stop_def)

lemma digits_append:
  "dropWhile is_dec_digit ds = [] \<Longrightarrow> num_stop rest \<Longrightarrow>
   takeWhile is_dec_digit (ds @ rest) = ds \<and> dropWhile is_dec_digit (ds @ rest) = rest"
  by (induction ds) (auto dest: num_stop_while split: if_splits)

lemma digits_append_stop:
  "dropWhile is_dec_digit r \<noteq> [] \<Longrightarrow> takeWhile is_dec_digit (r @ rest) = takeWhile is_dec_digit r \<and>
   dropWhile is_dec_digit (r @ rest) = dropWhile is_dec_digit r @ rest"
  by (induction r) auto

lemma takeWhile_all: "dropWhile P ds = [] \<Longrightarrow> takeWhile P ds = ds"
  by (simp add: takeWhile_eq_all_conv)

lemma digit_not_special: "is_dec_digit c \<Longrightarrow> c \<noteq> CHR ''.'' \<and> c \<noteq> CHR ''e'' \<and> c \<noteq> CHR ''E'' \<and>
   c \<noteq> CHR ''-'' \<and> c \<noteq> CHR ''+'' \<and> c \<noteq> CHR ''I''"
  by (auto simp: is_dec_digit_def)

lemma scan_exp_Nil_stop: "num_stop rest \<Longrightarrow> scan_exp rest = ([], rest)"
  by (cases rest) (auto simp: scan_exp_def num_stop_def)

lemma scan_exp_append:
  assumes ex: "scan_exp s = (ex, [])" and st: "num_stop rest"
  shows "scan_exp (s @ rest) = (ex, rest)"
proof (cases s)
  case Nil
  with ex st show ?thesis by (simp add: scan_exp_Nil_stop) (simp add: scan_exp_def)
next
  case (Cons e r)
  with ex have e: "e = CHR ''e'' \<or> e = CHR ''E''" by (auto simp: scan_exp_def split: if_splits)
  have digits: "scan_exp (e # d # r2 @ rest) = (e # d # takeWhile is_dec_digit r2, rest)"
    if "is_dec_digit d" "dropWhile is_dec_digit r2 = []" for d r2
    using that e digits_append[OF _ st] digit_not_special by (auto simp: scan_exp_def takeWhile_all)
  have signed: "scan_exp (e # c # d # r2 @ rest) = (e # c # d # takeWhile is_dec_digit r2, rest)"
    if "c = CHR ''+'' \<or> c = CHR ''-''" "is_dec_digit d" "dropWhile is_dec_digit r2 = []" for c d r2
    using that e digits_append[OF _ st] by (auto simp: scan_exp_def takeWhile_all)
  show ?thesis
  proof (cases r)
    case Nil
    with ex \<open>s = e # r\<close> have False by (simp add: scan_exp_def Let_def split: if_splits)
    then show ?thesis ..
  next
    case (Cons c r')
    show ?thesis
    proof (cases "c = CHR ''+'' \<or> c = CHR ''-''")
      case True
      with ex \<open>s = e # r\<close> Cons e obtain d r2 where "r' = d # r2" "is_dec_digit d"
          "dropWhile is_dec_digit r2 = []" "ex = e # c # d # takeWhile is_dec_digit r2"
        by (auto simp: scan_exp_def split: list.splits if_splits)
      with signed[OF True] \<open>s = e # r\<close> Cons show ?thesis by simp
    next
      case False
      with ex \<open>s = e # r\<close> Cons e have "is_dec_digit c" "dropWhile is_dec_digit r' = []"
          "ex = e # c # takeWhile is_dec_digit r'"
        by (auto simp: scan_exp_def split: if_splits)
      with digits \<open>s = e # r\<close> Cons show ?thesis by simp
    qed
  qed
qed

lemma scan_exp_hd: "scan_exp s = (ex, []) \<Longrightarrow> s \<noteq> [] \<Longrightarrow> hd s = CHR ''e'' \<or> hd s = CHR ''E''"
  by (cases s) (auto simp: scan_exp_def split: if_splits)

lemma scan_frac_append:
  assumes fr: "scan_frac s = (fr, s3)" and ex: "scan_exp s3 = (ex, [])" and st: "num_stop rest"
  shows "scan_frac (s @ rest) = (fr, s3 @ rest)"
proof (cases "\<exists>d r. s = CHR ''.'' # d # r \<and> is_dec_digit d")
  case True
  then obtain d r where s: "s = CHR ''.'' # d # r" "is_dec_digit d" by blast
  with fr have f: "fr = CHR ''.'' # d # takeWhile is_dec_digit r" "s3 = dropWhile is_dec_digit r"
    by (auto simp: scan_frac_def)
  show ?thesis
  proof (cases "s3 = []")
    case True
    with s f digits_append[OF _ st, of r] show ?thesis by (simp add: scan_frac_def takeWhile_all)
  next
    case False
    with s f digits_append_stop[of r rest] show ?thesis by (simp add: scan_frac_def)
  qed
next
  case False
  then have f: "fr = [] \<and> s3 = s" using fr by (auto simp: scan_frac_def split: list.splits)
  show ?thesis
  proof (cases s)
    case Nil
    with f st show ?thesis by (cases rest) (auto simp: scan_frac_def num_stop_def split: list.splits)
  next
    case (Cons c r)
    with f scan_exp_hd[OF ex] have "c \<noteq> CHR ''.''" by auto
    with Cons f show ?thesis by (auto simp: scan_frac_def split: list.splits)
  qed
qed

lemma scan_int_part_append:
  assumes ip: "scan_int_part s = Some (i, s2)" and st: "s2 = [] \<Longrightarrow> num_stop rest"
  shows "scan_int_part (s @ rest) = Some (i, s2 @ rest)"
proof -
  obtain d r where s: "s = d # r" using ip by (cases s) (auto simp: scan_int_part_def)
  show ?thesis
  proof (cases "d = CHR ''0''")
    case True
    with ip s show ?thesis by (simp add: scan_int_part_def)
  next
    case False
    with ip s have d: "is_dec_digit d" "i = d # takeWhile is_dec_digit r" "s2 = dropWhile is_dec_digit r"
      by (auto simp: scan_int_part_def split: if_splits)
    show ?thesis
    proof (cases "s2 = []")
      case True
      have "num_stop rest" using st True .
      with True d s False digits_append[of r rest] show ?thesis by (simp add: scan_int_part_def takeWhile_all)
    next
      case False
      with d s \<open>d \<noteq> CHR ''0''\<close> digits_append_stop[of r rest] show ?thesis by (simp add: scan_int_part_def)
    qed
  qed
qed

lemma scan_number_append:
  assumes sn: "scan_number t = Some (t', b, [])" and st: "num_stop rest"
  shows "scan_number (t @ rest) = Some (t', b, rest)"
proof -
  define sg where "sg = (case t of [] \<Rightarrow> [] | c # r \<Rightarrow> if c = CHR ''-'' then ''-'' else [])"
  define s1 where "s1 = (case t of [] \<Rightarrow> t | c # r \<Rightarrow> if c = CHR ''-'' then r else t)"
  have t_ne: "t \<noteq> []" using sn by (auto simp: scan_number_def scan_int_part_def)
  have split: "(case t of [] \<Rightarrow> ([], t) | c # r \<Rightarrow> if c = CHR ''-'' then (''-'', r) else ([], t)) = (sg, s1)"
    by (simp add: sg_def s1_def split: list.splits)
  have split': "(case t @ rest of [] \<Rightarrow> ([], t @ rest)
      | c # r \<Rightarrow> if c = CHR ''-'' then (''-'', r) else ([], t @ rest)) = (sg, s1 @ rest)"
    using t_ne by (cases t) (simp_all add: sg_def s1_def)
  obtain i s2 where ip: "scan_int_part s1 = Some (i, s2)"
    using sn by (auto simp: scan_number_def split sg_def split: option.splits)
  obtain fr s3 where fr: "scan_frac s2 = (fr, s3)" by fastforce
  obtain ex s4 where ex: "scan_exp s3 = (ex, s4)" by fastforce
  have res: "t' = sg @ i @ fr @ ex \<and> b = (fr \<noteq> [] \<or> ex \<noteq> []) \<and> s4 = []"
    using sn by (simp add: scan_number_def split ip fr ex)
  have ex0: "scan_exp s3 = (ex, [])" using ex res by simp
  have s2st: "s2 = [] \<Longrightarrow> num_stop rest" using st .
  show ?thesis
    using scan_int_part_append[OF ip s2st] scan_frac_append[OF fr ex0 st] scan_exp_append[OF ex0 st] res
    by (simp add: scan_number_def split')
qed

lemma char_of_48: "char_of (48::nat) = CHR ''0''"
  using char_of_char[of "CHR ''0''"] by simp

lemma nat_str_hd_zero: "hd (nat_str n) = CHR ''0'' \<Longrightarrow> nat_str n = ''0''"
proof (induction n rule: nat_str.induct)
  case (1 n)
  show ?case
  proof (cases "n < 10")
    case True
    then have "of_char (char_of (48 + n) :: char) = (48 + n :: nat)" by (simp add: of_char_of)
    moreover have "char_of (48 + n) = CHR ''0''" using "1.prems" True by (subst (asm) nat_str.simps) simp
    ultimately have "n = 0" by simp
    then show ?thesis by (simp add: nat_str.simps char_of_48)
  next
    case False
    then have e: "nat_str n = nat_str (n div 10) @ [char_of (48 + n mod 10)]" by (subst nat_str.simps) simp
    with "1.prems" nat_str_nonempty[of "n div 10"] have "hd (nat_str (n div 10)) = CHR ''0''" by simp
    with "1.IH" False have "nat_str (n div 10) = ''0''" by simp
    then have "dec_value (nat_str (n div 10)) = dec_value ''0''" by simp
    moreover have "dec_value ''0'' = 0" by (simp add: dec_value_def is_dec_digit_def)
    ultimately have "n div 10 = 0" by (simp only: dec_value_nat_str)
    with False show ?thesis by simp
  qed
qed

lemma scan_int_part_nat_str: "scan_int_part (nat_str n) = Some (nat_str n, [])"
proof -
  obtain d r where nr: "nat_str n = d # r" using nat_str_nonempty[of n] by (cases "nat_str n") auto
  have dig: "is_dec_digit d" "list_all is_dec_digit r" using nat_str_digits[of n] nr by simp_all
  show ?thesis
  proof (cases "d = CHR ''0''")
    case True
    with nr nat_str_hd_zero[of n] show ?thesis by (simp add: scan_int_part_def)
  next
    case False
    with nr dig show ?thesis
      by (simp add: scan_int_part_def list_all_iff takeWhile_eq_all_conv dropWhile_eq_Nil_conv)
  qed
qed

lemma scan_number_int_str: "scan_number (int_str i) = Some (int_str i, False, [])"
proof -
  have frac: "scan_frac [] = ([], [])" and ex: "scan_exp [] = ([], [])"
    by (simp_all add: scan_frac_def scan_exp_def)
  obtain d r where nr: "nat_str (nat i) = d # r" using nat_str_nonempty[of "nat i"] by (cases "nat_str (nat i)") auto
  have "is_dec_digit d" using nat_str_digits[of "nat i"] nr by simp
  then have "d \<noteq> CHR ''-''" by (auto simp: is_dec_digit_def)
  then show ?thesis
    using scan_int_part_nat_str[of "nat (- i)"] scan_int_part_nat_str[of "nat i"] nr frac ex
    by (simp add: scan_number_def int_str_def)
qed

lemma number_value_int_str: "number_value (int_str i) False = Some (VInt i)"
  by (simp add: number_value_def parse_int_literal_int_str)

lemma scan_number_hd:
  assumes "scan_number s = Some x"
  shows "\<exists>c r. s = c # r \<and> (is_dec_digit c \<or> (c = CHR ''-'' \<and> r \<noteq> [] \<and> is_dec_digit (hd r)))"
proof -
  obtain c r where s: "s = c # r" using assms by (cases s) (auto simp: scan_number_def scan_int_part_def)
  show ?thesis
  proof (cases "c = CHR ''-''")
    case True
    with assms s show ?thesis
      by (cases r) (auto simp: scan_number_def scan_int_part_def is_dec_digit_def split: if_splits)
  next
    case False
    with assms s show ?thesis
      by (auto simp: scan_number_def scan_int_part_def is_dec_digit_def split: if_splits)
  qed
qed

lemma scan_value_number:
  assumes "scan_number s = Some (t, b, r)"
  shows "scan_value (Suc n) s = map_option (\<lambda>v. (v, r)) (number_value t b)"
proof -
  obtain c r' where s: "s = c # r'" and h: "is_dec_digit c \<or> (c = CHR ''-'' \<and> r' \<noteq> [] \<and> is_dec_digit (hd r'))"
    using scan_number_hd[OF assms] by blast
  show ?thesis
  proof (cases "is_dec_digit c")
    case True
    then have "c \<noteq> CHR 0x22 \<and> c \<noteq> CHR ''{'' \<and> c \<noteq> CHR ''['' \<and> c \<noteq> CHR ''n'' \<and> c \<noteq> CHR ''t'' \<and>
        c \<noteq> CHR ''f'' \<and> c \<noteq> CHR ''N'' \<and> c \<noteq> CHR ''I'' \<and> c \<noteq> CHR ''-''"
      by (auto simp: is_dec_digit_def)
    with s assms show ?thesis by (simp add: take_Cons')
  next
    case False
    with h obtain d r2 where "c = CHR ''-''" "r' = d # r2" "is_dec_digit d" by (cases r') auto
    moreover have "d \<noteq> CHR ''I''" using \<open>is_dec_digit d\<close> by (auto simp: is_dec_digit_def)
    ultimately show ?thesis using s assms by (simp add: take_Cons')
  qed
qed

lemma ws_num_stop: "list_all json_ws w \<Longrightarrow> num_stop (c # r) \<Longrightarrow> num_stop (w @ c # r)"
  by (cases w) (auto simp: num_stop_def json_ws_def is_dec_digit_def)

lemma json_enc_hd:
  assumes ok: "json_ok fmt v"
  shows "\<exists>c r. json_enc fmt ind lvl v = c # r \<and> \<not> json_ws c \<and> c \<noteq> CHR '']'' \<and> c \<noteq> CHR ''}''"
proof (cases v)
  case (VInt i)
  obtain d r where "nat_str (nat i) = d # r" using nat_str_nonempty[of "nat i"] by (cases "nat_str (nat i)") auto
  moreover have "is_dec_digit d" using nat_str_digits[of "nat i"] calculation by simp
  ultimately show ?thesis using VInt
    by (auto simp: int_str_def json_ws_def is_dec_digit_def)
next
  case (VFloat f)
  show ?thesis
  proof (cases f)
    case (Fin r)
    with ok VFloat Fin have "scan_number (fmt r) = Some (fmt r, True, [])" by (simp add: float_repr_ok_def)
    from scan_number_hd[OF this] VFloat Fin show ?thesis by (auto simp: json_ws_def is_dec_digit_def)
  qed (auto simp: VFloat json_ws_def)
qed (auto simp: json_ws_def json_container_def json_quote_def split: option.splits)

subsection \<open>Arrays and objects\<close>

lemma py_join_Cons: "py_join sep (x # xs) = x @ (if xs = [] then [] else sep @ py_join sep xs)"
  by (cases xs) simp_all

lemma skip_ws_hd: "\<not> json_ws c \<Longrightarrow> skip_ws ((c # r) @ s) = (c # r) @ s"
  by (simp add: skip_ws_def)

lemma scan_elems_join:
  assumes "vs \<noteq> []"
    and val: "\<forall>v\<in>set vs. \<forall>n rest. length (e v) \<le> n \<longrightarrow> num_stop rest \<longrightarrow> scan_value n (e v @ rest) = Some (v, rest)"
    and hd: "\<forall>v\<in>set vs. \<exists>c r. e v = c # r \<and> \<not> json_ws c"
    and w1: "list_all json_ws w1" and w2: "list_all json_ws w2"
    and len: "length (py_join (CHR '','' # w1) (map e vs)) + length w2 < m"
  shows "scan_elems m acc (py_join (CHR '','' # w1) (map e vs) @ w2 @ CHR '']'' # rest) = Some (VList (acc @ vs), rest)"
  using assms
proof (induction vs arbitrary: acc m)
  case Nil
  then show ?case by simp
next
  case (Cons v vs)
  obtain m' where m: "m = Suc m'" using Cons.prems(6) by (cases m) auto
  have stop_close: "num_stop (w2 @ CHR '']'' # rest)" by (rule ws_num_stop[OF w2]) (simp add: num_stop_def is_dec_digit_def)
  have skip_close: "skip_ws (w2 @ CHR '']'' # rest) = CHR '']'' # rest"
    using w2 by (simp add: skip_ws_append) (simp add: skip_ws_def json_ws_def)
  show ?case
  proof (cases "vs = []")
    case True
    have "length (e v) \<le> m'" using Cons.prems(6) True m by simp
    with Cons.prems(2) stop_close have "scan_value m' (e v @ w2 @ CHR '']'' # rest) = Some (v, w2 @ CHR '']'' # rest)"
      by simp
    with True m skip_close show ?thesis by simp
  next
    case False
    let ?tail = "w1 @ py_join (CHR '','' # w1) (map e vs) @ w2 @ CHR '']'' # rest"
    have j: "py_join (CHR '','' # w1) (map e (v # vs)) = e v @ CHR '','' # w1 @ py_join (CHR '','' # w1) (map e vs)"
      using False by (simp add: py_join_Cons)
    have "length (e v) \<le> m'" using Cons.prems(6) m j by simp
    moreover have "num_stop (CHR '','' # ?tail)" by (simp add: num_stop_def is_dec_digit_def)
    ultimately have sv: "scan_value m' (e v @ CHR '','' # ?tail) = Some (v, CHR '','' # ?tail)"
      using Cons.prems(2) by simp
    obtain c r where er: "e (hd vs) = c # r" "\<not> json_ws c" using Cons.prems(3) False by (cases vs) auto
    obtain y where y: "py_join (CHR '','' # w1) (map e vs) = (c # r) @ y"
      using False er by (cases vs) (simp_all add: py_join_Cons)
    have "skip_ws ?tail = skip_ws ((c # r) @ y @ w2 @ CHR '']'' # rest)"
      using w1 y by (simp add: skip_ws_append)
    then have sk: "skip_ws ?tail = py_join (CHR '','' # w1) (map e vs) @ w2 @ CHR '']'' # rest"
      using y skip_ws_hd[OF er(2)] by simp
    have comma: "skip_ws (CHR '','' # ?tail) = CHR '','' # ?tail" by (simp add: skip_ws_def json_ws_def)
    have ih: "scan_elems m' (acc @ [v]) (py_join (CHR '','' # w1) (map e vs) @ w2 @ CHR '']'' # rest) =
        Some (VList ((acc @ [v]) @ vs), rest)"
      using Cons.IH[OF False] Cons.prems(2,3) w1 w2 Cons.prems(6) m j by simp
    show ?thesis using sv comma sk ih m j by simp
  qed
qed

lemma scan_members_join:
  assumes "kvs \<noteq> []"
    and val: "\<forall>kv\<in>set kvs. \<forall>n rest. length (e (snd kv)) \<le> n \<longrightarrow> num_stop rest \<longrightarrow>
                scan_value n (e (snd kv) @ rest) = Some (snd kv, rest)"
    and hd: "\<forall>kv\<in>set kvs. \<exists>c r. e (snd kv) = c # r \<and> \<not> json_ws c"
    and w1: "list_all json_ws w1" and w2: "list_all json_ws w2" and w3: "list_all json_ws w3"
    and dist: "distinct (map fst kvs)" and fresh: "\<forall>kv\<in>set kvs. fst kv \<notin> fst ` set acc"
    and len: "length (py_join (CHR '','' # w1) (map (\<lambda>kv. json_quote (fst kv) @ CHR '':'' # w3 @ e (snd kv)) kvs)) +
              length w2 \<le> m"
  shows "scan_members m acc
           (tl (py_join (CHR '','' # w1) (map (\<lambda>kv. json_quote (fst kv) @ CHR '':'' # w3 @ e (snd kv)) kvs)) @
            w2 @ CHR ''}'' # rest) = Some (VDict (acc @ kvs), rest)"
  using assms
proof (induction kvs arbitrary: acc m)
  case Nil
  then show ?case by simp
next
  case (Cons kv kvs)
  obtain k v where kv: "kv = (k, v)" by fastforce
  let ?item = "\<lambda>kv. json_quote (fst kv) @ CHR '':'' # w3 @ e (snd kv)"
  let ?J = "\<lambda>xs. py_join (CHR '','' # w1) (map ?item xs)"
  let ?after = "if kvs = [] then w2 @ CHR ''}'' # rest else CHR '','' # w1 @ ?J kvs @ w2 @ CHR ''}'' # rest"
  have j: "tl (?J (kv # kvs)) @ w2 @ CHR ''}'' # rest =
      concat (map json_escape_char k) @ CHR 0x22 # CHR '':'' # w3 @ e v @ ?after"
    by (simp add: py_join_Cons kv json_quote_def)
  have lenJ: "length (?J (kv # kvs)) = length (?item kv) + (if kvs = [] then 0 else Suc (length w1) + length (?J kvs))"
    by (simp add: py_join_Cons)
  obtain m' where m: "m = Suc m'" using Cons.prems(9) lenJ by (cases m) (auto simp: json_quote_def)
  have lv: "length (e v) \<le> m'" using Cons.prems(9) lenJ m kv by (simp add: json_quote_def)
  have colon: "skip_ws (CHR '':'' # w3 @ e v @ ?after) = CHR '':'' # w3 @ e v @ ?after"
    by (simp add: skip_ws_def json_ws_def)
  obtain c r where er: "e v = c # r" "\<not> json_ws c" using Cons.prems(3) kv by auto
  have sv_in: "skip_ws (w3 @ e v @ ?after) = e v @ ?after"
    using w3 er by (simp add: skip_ws_append skip_ws_Cons)
  have fr: "k \<notin> fst ` set acc" using Cons.prems(8) kv by simp
  show ?case
  proof (cases "kvs = []")
    case True
    have "num_stop (w2 @ CHR ''}'' # rest)" by (rule ws_num_stop[OF w2]) (simp add: num_stop_def is_dec_digit_def)
    with Cons.prems(2) kv lv True have sv: "scan_value m' (e v @ ?after) = Some (v, ?after)" by simp
    have "skip_ws (w2 @ CHR ''}'' # rest) = CHR ''}'' # rest"
      using w2 by (simp add: skip_ws_append) (simp add: skip_ws_def json_ws_def)
    with True j m sv colon sv_in fr show ?thesis by (simp add: scan_str_escape dict_set_fresh kv)
  next
    case False
    have "num_stop (CHR '','' # w1 @ ?J kvs @ w2 @ CHR ''}'' # rest)" by (simp add: num_stop_def is_dec_digit_def)
    with Cons.prems(2) kv lv False have sv: "scan_value m' (e v @ ?after) = Some (v, ?after)" by simp
    have comma: "skip_ws ?after = ?after" using False by (simp add: skip_ws_def json_ws_def)
    obtain y where y: "?J kvs = CHR 0x22 # y" using False by (cases kvs) (simp_all add: py_join_Cons json_quote_def)
    have open_q: "skip_ws (w1 @ ?J kvs @ w2 @ CHR ''}'' # rest) = CHR 0x22 # y @ w2 @ CHR ''}'' # rest"
      using w1 y by (simp add: skip_ws_append skip_ws_Cons json_ws_def)
    have fresh': "\<forall>kv\<in>set kvs. fst kv \<notin> fst ` set (acc @ [(k, v)])"
      using Cons.prems(7,8) kv by auto
    have "length (?J kvs) + length w2 \<le> m'" using Cons.prems(9) lenJ m False by (simp add: json_quote_def)
    then have ih: "scan_members m' (acc @ [(k, v)]) (tl (?J kvs) @ w2 @ CHR ''}'' # rest) =
        Some (VDict ((acc @ [(k, v)]) @ kvs), rest)"
      using Cons.IH[OF False _ _ w1 w2 w3 _ fresh'] Cons.prems(2,3,7) by simp
    show ?thesis using j m sv colon sv_in comma open_q ih y False fr
      by (simp add: scan_str_escape dict_set_fresh kv)
  qed
qed

lemma json_container_split:
  assumes "items \<noteq> []"
  shows "json_container ind lvl op cl items =
     op # (case ind of None \<Rightarrow> [] | Some k \<Rightarrow> newline_indent k (Suc lvl)) @
     py_join (CHR '','' # (case ind of None \<Rightarrow> [] | Some k \<Rightarrow> newline_indent k (Suc lvl))) items @
     (case ind of None \<Rightarrow> [] | Some k \<Rightarrow> newline_indent k lvl) @ [cl]"
  using assms by (cases ind) (simp_all add: json_container_def)

lemma indent_ws: "list_all json_ws (case ind of None \<Rightarrow> [] | Some k \<Rightarrow> newline_indent k l)"
  by (cases ind) (simp_all add: newline_indent_ws)

lemma key_separator_split: "key_separator ind = CHR '':'' # (case ind of None \<Rightarrow> [] | Some k \<Rightarrow> '' '')"
  by (cases ind) (simp_all add: key_separator_def)

lemma key_separator_ws: "list_all json_ws (case ind of None \<Rightarrow> [] | Some k \<Rightarrow> '' '')"
  by (cases ind) (simp_all add: json_ws_def)

lemma scan_value_json_enc:
  "json_ok fmt v \<Longrightarrow> length (json_enc fmt ind lvl v) \<le> n \<Longrightarrow> num_stop rest \<Longrightarrow>
   scan_value n (json_enc fmt ind lvl v @ rest) = Some (v, rest)"
proof (induction fmt ind lvl v arbitrary: n rest rule: json_enc.induct)
  case (1 fmt ind lvl)
  then obtain n' where "n = Suc n'" by (cases n) auto
  then show ?case by simp
next
  case (2 fmt ind lvl b)
  then obtain n' where "n = Suc n'" by (cases n) (auto split: if_splits)
  then show ?case by (cases b) simp_all
next
  case (3 fmt ind lvl i)
  then obtain n' where n: "n = Suc n'" using nat_str_nonempty by (cases n) (auto simp: int_str_def split: if_splits)
  show ?case
    using scan_value_number[OF scan_number_append[OF scan_number_int_str "3.prems"(3)]] n
    by (simp add: number_value_int_str)
next
  case (4 fmt ind lvl f)
  show ?case
  proof (cases f)
    case (Fin r)
    with "4.prems"(1) have ok: "scan_number (fmt r) = Some (fmt r, True, [])" "parse_float_literal (fmt r) = Some (Fin r)"
      by (simp_all add: float_repr_ok_def)
    obtain n' where n: "n = Suc n'" using "4.prems"(2) Fin scan_number_hd[OF ok(1)] by (cases n) auto
    show ?thesis
      using scan_value_number[OF scan_number_append[OF ok(1) "4.prems"(3)]] n ok(2) Fin
      by (simp add: number_value_def)
  qed (insert "4.prems"(2), (cases n; simp)+)
next
  case (5 fmt ind lvl s)
  then obtain n' where "n = Suc n'" by (cases n) (auto simp: json_quote_def)
  then show ?case by (simp add: scan_str_quote scan_str_escape)
next
  case (6 fmt ind lvl vs)
  define e where "e = json_enc fmt ind (Suc lvl)"
  define w1 where "w1 = (case ind of None \<Rightarrow> [] | Some k \<Rightarrow> newline_indent k (Suc lvl))"
  define w2 where "w2 = (case ind of None \<Rightarrow> [] | Some k \<Rightarrow> newline_indent k lvl)"
  obtain n' where n: "n = Suc n'" using "6.prems"(2) by (cases n) (auto simp: json_container_def split: option.splits if_splits)
  show ?case
  proof (cases "vs = []")
    case True
    then show ?thesis using n by (simp add: json_container_def skip_ws_def json_ws_def)
  next
    case False
    have oks: "\<forall>v\<in>set vs. json_ok fmt v" using "6.prems"(1) by (simp add: list_all_iff)
    have enc: "json_enc fmt ind lvl (VList vs) = CHR ''['' # w1 @ py_join (CHR '','' # w1) (map e vs) @ w2 @ [CHR '']'']"
      using False by (simp add: json_container_split e_def w1_def w2_def)
    have val: "\<forall>v\<in>set vs. \<forall>n rest. length (e v) \<le> n \<longrightarrow> num_stop rest \<longrightarrow> scan_value n (e v @ rest) = Some (v, rest)"
      using "6.IH" oks by (simp add: e_def)
    have hd: "\<forall>v\<in>set vs. \<exists>c r. e v = c # r \<and> \<not> json_ws c" using json_enc_hd oks by (fastforce simp: e_def)
    obtain c r where er: "e (hd vs) = c # r" "\<not> json_ws c" "c \<noteq> CHR '']''"
      using json_enc_hd[where v = "hd vs" and ind = ind and lvl = "Suc lvl" and fmt = fmt] oks False by (auto simp: e_def)
    obtain y where y: "py_join (CHR '','' # w1) (map e vs) = (c # r) @ y"
      using False er by (cases vs) (simp_all add: py_join_Cons)
    have sk: "skip_ws (w1 @ py_join (CHR '','' # w1) (map e vs) @ w2 @ CHR '']'' # rest) =
        c # r @ y @ w2 @ CHR '']'' # rest"
      using y er indent_ws[where ind = ind and l = "Suc lvl"] by (simp add: w1_def skip_ws_append skip_ws_Cons)
    have len: "length (py_join (CHR '','' # w1) (map e vs)) + length w2 < n'"
      using "6.prems"(2) enc n by simp
    have "scan_elems n' [] (py_join (CHR '','' # w1) (map e vs) @ w2 @ CHR '']'' # rest) = Some (VList vs, rest)"
      using scan_elems_join[OF False val hd _ _ len, of "[]" rest] indent_ws by (simp add: w1_def w2_def)
    then show ?thesis using enc n sk y er by simp
  qed
next
  case (7 fmt ind lvl kvs)
  define e where "e = json_enc fmt ind (Suc lvl)"
  define w1 where "w1 = (case ind of None \<Rightarrow> [] | Some k \<Rightarrow> newline_indent k (Suc lvl))"
  define w2 where "w2 = (case ind of None \<Rightarrow> [] | Some k \<Rightarrow> newline_indent k lvl)"
  define w3 where "w3 = (case ind of None \<Rightarrow> [] | Some k \<Rightarrow> '' '')"
  define J where "J = py_join (CHR '','' # w1) (map (\<lambda>kv. json_quote (fst kv) @ CHR '':'' # w3 @ e (snd kv)) kvs)"
  obtain n' where n: "n = Suc n'" using "7.prems"(2) by (cases n) (auto simp: json_container_def split: option.splits if_splits)
  show ?case
  proof (cases "kvs = []")
    case True
    then show ?thesis using n by (simp add: json_container_def skip_ws_def json_ws_def)
  next
    case False
    have oks: "\<forall>kv\<in>set kvs. json_ok fmt (snd kv)" and dist: "distinct (map fst kvs)"
      using "7.prems"(1) by (simp_all add: list_all_iff)
    have enc: "json_enc fmt ind lvl (VDict kvs) = CHR ''{'' # w1 @ J @ w2 @ [CHR ''}'']"
      using False by (simp add: json_container_split key_separator_split e_def w1_def w2_def w3_def J_def)
    have val: "\<forall>kv\<in>set kvs. \<forall>n rest. length (e (snd kv)) \<le> n \<longrightarrow> num_stop rest \<longrightarrow>
        scan_value n (e (snd kv) @ rest) = Some (snd kv, rest)"
      using "7.IH" oks by (simp add: e_def)
    have hd: "\<forall>kv\<in>set kvs. \<exists>c r. e (snd kv) = c # r \<and> \<not> json_ws c"
      using json_enc_hd oks by (fastforce simp: e_def)
    obtain y where y: "J = CHR 0x22 # y"
      using False by (cases kvs) (simp_all add: J_def py_join_Cons json_quote_def)
    have sk: "skip_ws (w1 @ J @ w2 @ CHR ''}'' # rest) = CHR 0x22 # y @ w2 @ CHR ''}'' # rest"
      using y indent_ws[where ind = ind and l = "Suc lvl"] by (simp add: w1_def skip_ws_append skip_ws_Cons json_ws_def)
    have len: "length J + length w2 \<le> n'" using "7.prems"(2) enc n by simp
    have ws: "list_all json_ws w1" "list_all json_ws w2" "list_all json_ws w3"
      unfolding w1_def w2_def w3_def by (rule indent_ws indent_ws key_separator_ws)+
    have "scan_members n' [] (tl J @ w2 @ CHR ''}'' # rest) = Some (VDict kvs, rest)"
      using scan_members_join[OF False val hd ws dist _ len[unfolded J_def], of "[]" rest] by (simp add: J_def)
    then show ?thesis using enc n sk y by simp
  qed
qed

lemma distinct_map_sort_key: "distinct (map f (sort_key g xs)) = distinct (map f xs)"
  by (simp add: distinct_map)

lemma json_ok_sort_keys: "json_ok fmt v \<Longrightarrow> json_ok fmt (sort_keys v)"
proof (induction fmt v rule: json_ok.induct)
  case (2 fmt vs)
  then show ?case by (simp add: list_all_iff)
next
  case (3 fmt kvs)
  have "distinct (map fst (sort_key fst (map (map_prod id sort_keys) kvs)))"
    using "3.prems" by (simp add: distinct_map_sort_key comp_def)
  moreover have "list_all (\<lambda>kv. json_ok fmt (snd kv)) (sort_key fst (map (map_prod id sort_keys) kvs))"
    using 3 by (auto simp: list_all_iff)
  ultimately show ?case by simp
qed auto

subsection \<open>The fuel\<close>

text \<open>Every scanner consumes at least one character, and a successful scan with any fuel
  succeeds with as much fuel as it consumes characters: the fuel \<open>json_loads\<close> gives
  never cuts off a text that some fuel decodes.\<close>

lemma scan_str_shorter: "scan_str s = Some (k, r) \<Longrightarrow> length r < length s"
proof (induction s arbitrary: k rule: scan_str.induct)
  case (2 c cs)
  then show ?case
    by (auto split: if_splits list.splits option.splits) fastforce+
qed simp

lemma skip_ws_shorter: "length (skip_ws s) \<le> length s"
  by (simp add: skip_ws_def length_dropWhile_le)

lemma scan_number_shorter: "scan_number s = Some (t, b, r) \<Longrightarrow> length r < length s"
proof -
  assume sn: "scan_number s = Some (t, b, r)"
  define s1 where "s1 = (case s of [] \<Rightarrow> s | c # r \<Rightarrow> if c = CHR ''-'' then r else s)"
  have l1: "length s1 \<le> length s" by (simp add: s1_def split: list.splits)
  obtain ip s2 where ip: "scan_int_part s1 = Some (ip, s2)"
    using sn by (auto simp: scan_number_def s1_def split: list.splits if_splits option.splits)
  have l2: "length s2 < length s1" using ip
    by (auto simp: scan_int_part_def length_dropWhile_le less_Suc_eq_le split: list.splits if_splits)
  obtain fr s3 where fr: "scan_frac s2 = (fr, s3)" by fastforce
  have l3: "length s3 \<le> length s2" using fr
    by (auto simp: scan_frac_def split: list.splits if_splits intro: le_SucI le_trans[OF length_dropWhile_le])
  obtain ex s4 where ex: "scan_exp s3 = (ex, s4)" by fastforce
  have l4: "length s4 \<le> length s3" using ex
    by (auto simp: scan_exp_def Let_def split: list.splits if_splits prod.splits
             intro: le_SucI le_trans[OF length_dropWhile_le])
  have "r = s4" using sn ip fr ex by (auto simp: scan_number_def s1_def split: list.splits if_splits)
  with l1 l2 l3 l4 show ?thesis by simp
qed

lemma take_prefix_shorter: "take k s = t \<Longrightarrow> t \<noteq> [] \<Longrightarrow> length (drop k s) < length s"
  by (cases s) auto

lemma scan_shorter_all:
  "(\<forall>s x. scan_value n s = Some x \<longrightarrow> length (snd x) < length s) \<and>
   (\<forall>acc s x. scan_elems n acc s = Some x \<longrightarrow> length (snd x) < length s) \<and>
   (\<forall>ms s x. scan_members n ms s = Some x \<longrightarrow> length (snd x) < length s)"
proof (induction n)
  case 0
  then show ?case by simp
next
  case (Suc n)
  then have V: "\<And>s x. scan_value n s = Some x \<Longrightarrow> length (snd x) < length s"
    and E: "\<And>acc s x. scan_elems n acc s = Some x \<Longrightarrow> length (snd x) < length s"
    and M: "\<And>ms s x. scan_members n ms s = Some x \<Longrightarrow> length (snd x) < length s" by blast+
  have sv: "length (snd x) < length s" if h: "scan_value (Suc n) s = Some x" for s x
  proof -
    obtain c r where s: "s = c # r" using h by (cases s) auto
    have ws: "length (skip_ws r) \<le> length r" by (rule skip_ws_shorter)
    consider "c = CHR 0x22" | "c = CHR ''{''" | "c = CHR ''[''"
      | "c \<noteq> CHR 0x22" "c \<noteq> CHR ''{''" "c \<noteq> CHR ''[''" by blast
    then show ?thesis
    proof cases
      case 1
      with h s obtain k r' where "scan_str r = Some (k, r')" "x = (VStr k, r')" by auto
      with s show ?thesis by (auto dest: scan_str_shorter)
    next
      case 2
      with h s obtain d r' where sk: "skip_ws r = d # r'" by (auto split: list.splits)
      with h s 2 have "x = (VDict [], r') \<or> scan_members n [] r' = Some x" by (auto split: if_splits)
      with sk ws s show ?thesis by (auto dest: M)
    next
      case 3
      with h s obtain d r' where sk: "skip_ws r = d # r'" by (auto split: list.splits)
      with h s 3 have "x = (VList [], r') \<or> scan_elems n [] (d # r') = Some x" by (auto split: if_splits)
      with sk ws s show ?thesis by (auto dest: E)
    next
      case 4
      with h s show ?thesis
        by (auto split: if_splits option.splits dest: scan_number_shorter)
    qed
  qed
  have se: "length (snd x) < length s" if h: "scan_elems (Suc n) acc s = Some x" for acc s x
  proof -
    obtain v r where v: "scan_value n s = Some (v, r)" using h by (auto split: option.splits)
    obtain d r' where sk: "skip_ws r = d # r'" using h v by (auto split: list.splits)
    have "x = (VList (acc @ [v]), r') \<or> scan_elems n (acc @ [v]) (skip_ws r') = Some x"
      using h v sk by (auto split: if_splits)
    moreover have "length r < length s" using V[OF v] by simp
    ultimately show ?thesis
      using sk skip_ws_shorter[of r] skip_ws_shorter[of r'] by (auto dest!: E)
  qed
  have sm: "length (snd x) < length s" if h: "scan_members (Suc n) ms s = Some x" for ms s x
  proof -
    obtain k r where k: "scan_str s = Some (k, r)" using h by (auto split: option.splits)
    obtain d r' where sk: "skip_ws r = d # r'" using h k by (auto split: list.splits)
    obtain v r2 where v: "scan_value n (skip_ws r') = Some (v, r2)" using h k sk by (auto split: if_splits option.splits)
    obtain e r3 where sk2: "skip_ws r2 = e # r3" using h k sk v by (auto split: if_splits list.splits)
    have "x = (VDict (dict_set ms k v), r3) \<or>
          (\<exists>r4. skip_ws r3 = CHR 0x22 # r4 \<and> scan_members n (dict_set ms k v) r4 = Some x)"
      using h k sk v sk2 by (auto split: if_splits list.splits)
    moreover have "length r2 < length r'" using V[OF v] skip_ws_shorter[of r'] by simp
    moreover have "length r' < length s" using scan_str_shorter[OF k] sk skip_ws_shorter[of r] by simp
    ultimately show ?thesis
      using sk2 skip_ws_shorter[of r2] skip_ws_shorter[of r3] by (auto dest!: M)
  qed
  show ?case using sv se sm by blast
qed

lemma scan_value_fuel_indep:
  "c \<noteq> CHR ''{'' \<Longrightarrow> c \<noteq> CHR ''['' \<Longrightarrow> scan_value (Suc a) (c # r) = scan_value (Suc b) (c # r)"
  by simp

lemma scan_fuel_all:
  "(\<forall>s x m. scan_value n s = Some x \<longrightarrow> length s - length (snd x) \<le> m \<longrightarrow> scan_value m s = Some x) \<and>
   (\<forall>acc s x m. scan_elems n acc s = Some x \<longrightarrow> length s - length (snd x) \<le> m \<longrightarrow> scan_elems m acc s = Some x) \<and>
   (\<forall>ms s x m. scan_members n ms s = Some x \<longrightarrow> length s - length (snd x) \<le> m \<longrightarrow> scan_members m ms s = Some x)"
proof (induction n)
  case 0
  then show ?case by simp
next
  case (Suc n)
  then have V: "\<And>s x m. scan_value n s = Some x \<Longrightarrow> length s - length (snd x) \<le> m \<Longrightarrow> scan_value m s = Some x"
    and E: "\<And>acc s x m. scan_elems n acc s = Some x \<Longrightarrow> length s - length (snd x) \<le> m \<Longrightarrow> scan_elems m acc s = Some x"
    and M: "\<And>ms s x m. scan_members n ms s = Some x \<Longrightarrow> length s - length (snd x) \<le> m \<Longrightarrow> scan_members m ms s = Some x"
    by blast+
  note shorter = scan_shorter_all[THEN conjunct1, rule_format] scan_shorter_all[THEN conjunct2, THEN conjunct1, rule_format]
    scan_shorter_all[THEN conjunct2, THEN conjunct2, rule_format]
  have sv: "scan_value m s = Some x" if h: "scan_value (Suc n) s = Some x" and l: "length s - length (snd x) \<le> m" for s x m
  proof -
    obtain c r where s: "s = c # r" using h by (cases s) auto
    have lt: "length (snd x) < length s" by (rule shorter(1)[OF h])
    then obtain m' where m: "m = Suc m'" using l by (cases m) auto
    have ws: "length (skip_ws r) \<le> length r" by (rule skip_ws_shorter)
    consider "c = CHR ''{''" | "c = CHR ''[''" | "c \<noteq> CHR ''{''" "c \<noteq> CHR ''[''" by blast
    then show ?thesis
    proof cases
      case 1
      with h s obtain d r' where sk: "skip_ws r = d # r'" by (auto split: list.splits)
      show ?thesis
      proof (cases "d = CHR ''}''")
        case True
        with h s 1 sk m show ?thesis by simp
      next
        case False
        with h s 1 sk have d: "d = CHR 0x22" and ms: "scan_members n [] r' = Some x" by (auto split: if_splits)
        have "length r' - length (snd x) \<le> m'" using l m s sk ws by simp
        from M[OF ms this] d False sk s 1 m show ?thesis by simp
      qed
    next
      case 2
      with h s obtain d r' where sk: "skip_ws r = d # r'" by (auto split: list.splits)
      show ?thesis
      proof (cases "d = CHR '']''")
        case True
        with h s 2 sk m show ?thesis by simp
      next
        case False
        with h s 2 sk have es: "scan_elems n [] (d # r') = Some x" by simp
        have "length (d # r') - length (snd x) \<le> m'" using l m s sk ws by simp
        from E[OF es this] False sk s 2 m show ?thesis by simp
      qed
    next
      case 3
      with h s m show ?thesis using scan_value_fuel_indep[OF 3, where a = m' and b = n and r = r] by simp
    qed
  qed
  have se: "scan_elems m acc s = Some x" if h: "scan_elems (Suc n) acc s = Some x" and l: "length s - length (snd x) \<le> m" for acc s x m
  proof -
    obtain v r where v: "scan_value n s = Some (v, r)" using h by (auto split: option.splits)
    obtain d r' where sk: "skip_ws r = d # r'" using h v by (auto split: list.splits)
    have lr: "length r < length s" using shorter(1)[OF v] by simp
    have alt: "(d = CHR '']'' \<and> x = (VList (acc @ [v]), r')) \<or>
               (d = CHR '','' \<and> scan_elems n (acc @ [v]) (skip_ws r') = Some x)"
      using h v sk by (auto split: if_splits)
    have lx: "length (snd x) < length r"
      using alt sk skip_ws_shorter[of r] skip_ws_shorter[of r'] by (auto dest!: shorter(2))
    obtain m' where m: "m = Suc m'" using l lr lx by (cases m) auto
    have v': "scan_value m' s = Some (v, r)" using V[OF v] l m lx lr by simp
    show ?thesis
    proof (cases "d = CHR '']''")
      case True
      with alt v' sk m show ?thesis by simp
    next
      case False
      with alt have d: "d = CHR '',''" and es: "scan_elems n (acc @ [v]) (skip_ws r') = Some x" by auto
      have "length (skip_ws r') - length (snd x) \<le> m'"
        using l m lr lx sk skip_ws_shorter[of r] skip_ws_shorter[of r'] by simp
      from E[OF es this] v' sk d m show ?thesis by simp
    qed
  qed
  have sm: "scan_members m ms s = Some x" if h: "scan_members (Suc n) ms s = Some x" and l: "length s - length (snd x) \<le> m" for ms s x m
  proof -
    obtain k r where k: "scan_str s = Some (k, r)" using h by (auto split: option.splits)
    obtain d r' where sk: "skip_ws r = d # r'" using h k by (auto split: list.splits)
    have d: "d = CHR '':''" using h k sk by (auto split: if_splits)
    obtain v r2 where v: "scan_value n (skip_ws r') = Some (v, r2)" using h k sk d by (auto split: option.splits)
    obtain e r3 where sk2: "skip_ws r2 = e # r3" using h k sk d v by (auto split: list.splits)
    have alt: "(e = CHR ''}'' \<and> x = (VDict (dict_set ms k v), r3)) \<or>
          (e = CHR '','' \<and> (\<exists>r4. skip_ws r3 = CHR 0x22 # r4 \<and> scan_members n (dict_set ms k v) r4 = Some x))"
      using h k sk d v sk2 by (auto split: if_splits list.splits)
    have l2: "length r2 < length (skip_ws r')" using shorter(1)[OF v] by simp
    have l1: "length r' < length s" using scan_str_shorter[OF k] sk skip_ws_shorter[of r] by simp
    have lx: "length (snd x) < length r2"
      using alt shorter(3) sk2 skip_ws_shorter[of r2] skip_ws_shorter[of r3]
      by (auto dest!: shorter(3))
    obtain m' where m: "m = Suc m'" using l l1 l2 lx skip_ws_shorter[of r'] by (cases m) auto
    have v': "scan_value m' (skip_ws r') = Some (v, r2)"
      using V[OF v] l m l1 l2 lx skip_ws_shorter[of r'] by simp
    show ?thesis
    proof (cases "e = CHR ''}''")
      case True
      with alt k sk d v' sk2 m show ?thesis by simp
    next
      case False
      with alt obtain r4 where r4: "skip_ws r3 = CHR 0x22 # r4" and ms': "scan_members n (dict_set ms k v) r4 = Some x"
        and e: "e = CHR '',''" by auto
      have "length r4 - length (snd x) \<le> m'"
        using l m l1 l2 lx sk2 r4 skip_ws_shorter[of r'] skip_ws_shorter[of r2] skip_ws_shorter[of r3] by simp
      from M[OF ms' this] k sk d v' sk2 e r4 m show ?thesis by simp
    qed
  qed
  show ?case using sv se sm by blast
qed

lemma json_loads_iff:
  "json_loads s = Some v \<longleftrightarrow> (\<exists>n r. scan_value n (skip_ws s) = Some (v, r) \<and> skip_ws r = [])"
proof
  assume "json_loads s = Some v"
  then show "\<exists>n r. scan_value n (skip_ws s) = Some (v, r) \<and> skip_ws r = []"
    by (auto simp: json_loads_def Let_def split: option.splits if_splits) blast
next
  assume "\<exists>n r. scan_value n (skip_ws s) = Some (v, r) \<and> skip_ws r = []"
  then obtain n r where sv: "scan_value n (skip_ws s) = Some (v, r)" and e: "skip_ws r = []" by blast
  have "scan_value (length (skip_ws s)) (skip_ws s) = Some (v, r)"
    using scan_fuel_all[THEN conjunct1, rule_format, OF sv] by simp
  with e show "json_loads s = Some v" by (simp add: json_loads_def)
qed

section \<open>The round trip of a response body\<close>

text \<open>Every JSON body Flask writes, in debug mode or not, is read back by
  \<open>json.loads\<close> as the value it serialised with its objects' keys sorted, provided
  \<open>float.__repr__\<close> prints each finite float as a number that \<open>float()\<close> reads back and
  the keys of each object are distinct: the escaping, the separators, the indentation,
  the final newline and the non-finite constants all decode.\<close>

theorem json_loads_flask_body: "json_ok fmt v \<Longrightarrow> json_loads (flask_json_body debug fmt v) = Some (sort_keys v)"
proof -
  assume ok: "json_ok fmt v"
  let ?ind = "if debug then Some 2 else None"
  have ok': "json_ok fmt (sort_keys v)" by (rule json_ok_sort_keys[OF ok])
  obtain c r where er: "json_enc fmt ?ind 0 (sort_keys v) = c # r" "\<not> json_ws c"
    using json_enc_hd[OF ok'] by blast
  let ?t = "json_enc fmt ?ind 0 (sort_keys v) @ [CHR 0x0A]"
  have sk: "skip_ws ?t = ?t" using er by (simp add: skip_ws_def)
  have "scan_value (length ?t) ?t = Some (sort_keys v, [CHR 0x0A])"
    by (rule scan_value_json_enc[OF ok']) (simp_all add: num_stop_def is_dec_digit_def)
  moreover have "skip_ws [CHR 0x0A] = []" by (simp add: skip_ws_def json_ws_def)
  ultimately show ?thesis using sk by (simp add: json_loads_def flask_json_body_def Let_def)
qed

end
