(* ===== verification/Examples.thy ===== *)
theory Examples
  imports Api Upload_IO Json_Decode
begin

text \<open>
  Concrete inputs on which the model is run by the simplifier: a small set of model
  artifacts (a classifier whose probabilities are fixed per row, a discriminator, a
  one-component mixture, an identity scaler), the environment of one request, and the
  uploaded tables used by the examples of the root theory: a labelled table whose
  predictions cover the five classes, the table of the specification's worked example,
  an unlabelled table, a table with a NaN label, an empty table and a table with a
  negative label; and a server started with these artifacts and an empty upload folder,
  with three requests: an upload of a CSV file, a page view and an oversized upload.
  The lemmas evaluate \<open>predict\<close> on them.
\<close>

section \<open>Model artifacts\<close>

definition ex_probs :: "pyfloat list list" where
  "ex_probs = [[Fin (7/10), Fin (1/10), Fin (1/10), Fin (1/20), Fin (1/20)],
               [Fin (1/10), Fin (6/10), Fin (1/10), Fin (1/10), Fin (1/10)],
               [Fin (1/10), Fin (1/10), Fin (1/2), Fin (1/5), Fin (1/10)],
               [Fin (1/10), Fin (1/10), Fin (1/10), Fin (3/5), Fin (1/10)],
               [Fin (1/10), Fin (1/10), Fin (1/10), Fin (1/10), Fin (3/5)]]"

text \<open>The classifier answers for a row after the value of its first feature.\<close>

fun ex_row_class :: "pyfloat list list \<Rightarrow> nat" where
  "ex_row_class ((Fin a # _) # _) = nat \<lfloor>a\<rfloor> mod 5"
| "ex_row_class _ = 0"

definition ex_clf :: "(pyfloat list list, pyfloat list) keras_model" where
  "ex_clf = \<lparr>km_forward = \<lambda>b. Inr (map (\<lambda>r. ex_probs ! ex_row_class r) b), km_params = 30\<rparr>"

text \<open>A classifier whose output rows hold a NaN, as a network with a diverged weight gives.\<close>

definition ex_nan_clf :: "(pyfloat list list, pyfloat list) keras_model" where
  "ex_nan_clf = \<lparr>km_forward = \<lambda>b. Inr (map (\<lambda>_. [Fin (1/2), NaN, Fin 0, Fin 0, Fin 0]) b),
                  km_params = 30\<rparr>"

definition ex_scaler :: "nat \<Rightarrow> scaler_model" where
  "ex_scaler n = \<lparr>sc_n_features = n, sc_transform_row = id\<rparr>"

definition ex_artifacts :: "nat \<Rightarrow> artifacts" where
  "ex_artifacts n =
     \<lparr>art_generator = Inr \<lparr>km_forward = \<lambda>b. Inr (map (\<lambda>_. [Fin 0]) b), km_params = 10\<rparr>,
      art_discriminator = Inr \<lparr>km_forward = \<lambda>b. Inr (map (\<lambda>_. [Fin (1/2)]) b), km_params = 20\<rparr>,
      art_classifier = Inr ex_clf,
      art_gmm = Inr \<lparr>gmm_n_features = 1, gmm_n_components = 2, gmm_assign = \<lambda>_. 0\<rparr>,
      art_scaler = Inr (ex_scaler n)\<rparr>"

text \<open>The object before \<open>load_models\<close> runs, on a machine without a GPU.\<close>

definition ex_fresh :: ntc_state where
  "ex_fresh = \<lparr>labels_iscx = LABELS_ISCX, latent_dim = 100, models_loaded = False,
      device = ''/CPU:0'', generator = None, discriminator = None,
      classifier = None, gmm = None, scaler = None\<rparr>"

definition ex_state :: "nat \<Rightarrow> ntc_state" where
  "ex_state n = ntc_init [] (ex_artifacts n)"

text \<open>A start-up whose scaler file is missing.\<close>

definition ex_broken_state :: ntc_state where
  "ex_broken_state = ntc_init []
     ((ex_artifacts 2)\<lparr>art_scaler := Inl (LibError ''No such file or directory: models/scaler.pkl'')\<rparr>)"

definition ex_env :: pipeline_env where
  "ex_env = \<lparr>env_noise = \<lambda>n d. replicate n (replicate d (Fin 0)), env_t0 = 10, env_t1 = 12,
             env_mem_bytes = 2097152, env_render = \<lambda>_. ''iVBORw0KGgo=''\<rparr>"

text \<open>A network that works row by row, and its row function.\<close>

definition ex_double :: "int \<Rightarrow> int result" where
  "ex_double x = (if x < 0 then Inl (ValueError ''negative input'') else Inr (2 * x))"

definition ex_rowwise :: "(int, int) keras_model" where
  "ex_rowwise = \<lparr>km_forward = rmap ex_double, km_params = 0\<rparr>"

section \<open>Uploaded tables\<close>

definition ex_table :: dataframe where
  "ex_table = \<lparr>df_columns = [''id'', ''f1'', ''label''],
               df_rows = [[CInt 0, CInt 0, CInt 0], [CInt 1, CInt 1, CInt 1], [CInt 2, CInt 2, CInt 2],
                          [CInt 3, CInt 3, CStr '' 3''], [CInt 4, CInt 4, CFloat (Fin 4)]]\<rparr>"

definition ex_spec_table :: dataframe where
  "ex_spec_table = \<lparr>df_columns = [''id'', ''f1'', ''f2'', ''label''],
                    df_rows = [[CInt 0, CInt 0, CFloat (Fin (1/2)), CInt 0],
                               [CInt 1, CInt 1, CFloat (Fin (1/4)), CInt 1],
                               [CInt 2, CInt 1, CFloat (Fin 2), CInt 0]]\<rparr>"

definition ex_nolabel_table :: dataframe where
  "ex_nolabel_table = \<lparr>df_columns = [''id'', ''f1''], df_rows = [[CInt 0, CInt 0], [CInt 1, CInt 1]]\<rparr>"

definition ex_nan_table :: dataframe where
  "ex_nan_table = \<lparr>df_columns = [''id'', ''f1'', ''label''],
                   df_rows = [[CInt 0, CInt 0, CInt 0], [CInt 1, CInt 1, CFloat NaN]]\<rparr>"

definition ex_empty_table :: dataframe where
  "ex_empty_table = \<lparr>df_columns = [''id'', ''f1'', ''label''], df_rows = []\<rparr>"

definition ex_neg_table :: dataframe where
  "ex_neg_table = \<lparr>df_columns = [''id'', ''f1'', ''label''],
                   df_rows = [[CInt 0, CInt 0, CInt (-2)], [CInt 1, CInt 1, CStr ''1'']]\<rparr>"

section \<open>Requests to the server\<close>

definition ex_server :: server where
  "ex_server = server_start [] (ex_artifacts 2) Map.empty"

definition ex_nan_server :: server where
  "ex_nan_server = server_start [] ((ex_artifacts 2)\<lparr>art_classifier := Inr ex_nan_clf\<rparr>) Map.empty"

definition ex_app_env :: app_env where
  "ex_app_env = \<lparr>ae_read_csv = \<lambda>_. Inr ex_table, ae_pipeline = ex_env\<rparr>"

definition ex_upload_rq :: http_request where
  "ex_upload_rq = \<lparr>rq_method = POST, rq_path = ''/'', rq_content_length = 1024,
     rq_file = Some \<lparr>up_filename = ''../flows.CSV'', up_content = ''id,f1,label''\<rparr>\<rparr>"

definition ex_get_rq :: http_request where
  "ex_get_rq = \<lparr>rq_method = GET, rq_path = ''/'', rq_content_length = 0, rq_file = None\<rparr>"

definition ex_info_rq :: http_request where
  "ex_info_rq = \<lparr>rq_method = GET, rq_path = ''/model-info'', rq_content_length = 0, rq_file = None\<rparr>"

definition ex_big_rq :: http_request where
  "ex_big_rq = \<lparr>rq_method = POST, rq_path = ''/'', rq_content_length = 300 * 1024 * 1024,
     rq_file = Some \<lparr>up_filename = ''flows.csv'', up_content = []\<rparr>\<rparr>"

section \<open>Evaluation\<close>

lemmas pipeline_eval = predict_def predict_body_def preprocess_data_def extract_labels_def df_column_def
  df_features_def expand_dims_def scaler_transform_def sk_validate_def get_attr_def keras_predict_def
  np_argmax_def np_max_def get_discriminator_features_def gmm_predict_def to_categorical_def
  generate_fake_samples_def evaluate_def report_block_def print_report_text_def print_f1_scores_def distribution_def py_list_index_def bool_mask_def
  classification_report_def class_scores_def n_match_def safe_div_def scores_dict_def accuracy_def
  macro_avg_def weighted_avg_def fix_nan_recursive_def confusion_matrix_def onehot_def int64_ok_def
  np_int_ok_def pf_maximum_def batch_size_def parse_int_literal_def strip_space_def py_space_def
  split_sign_def is_dec_digit_def dec_value_def parse_float_literal_def ascii_lower_def
  parse_mantissa_def opt_digits_def parse_exponent_def round_float_def float_overflow_bound_def

lemmas example_eval = ex_state_def ntc_init_def load_models_def configure_gpu_def ex_artifacts_def
  ex_scaler_def LABELS_ISCX_def ex_env_def ex_probs_def ex_clf_def chunks.simps Let_def

lemma ex_table_run:
  "\<exists>r rep. predict (ex_state 2) ex_env ex_table = Inr r \<and> rb_report r = Some rep"
  by (simp add: pipeline_eval example_eval ex_table_def model_eval)

lemma ex_table_stages:
  "\<exists>Xs Xr y oh P. preprocess_data (ex_state 2) ex_table = Inr (Xs, Xr, y, oh) \<and>
     keras_predict ex_clf batch_size Xr = Inr P \<and> length P = 5 \<and>
     list_all (list_all (\<lambda>v. \<exists>x. v = Fin x \<and> 0 \<le> x \<and> x \<le> 1)) P"
  by (simp add: pipeline_eval example_eval ex_table_def model_eval
      del: eq_divide_eq_numeral1 divide_eq_eq_numeral1)

lemma ex_state_classifier: "classifier (ex_state n) = Some ex_clf \<and> models_loaded (ex_state n)"
  by (simp add: example_eval)

lemma ex_clf_row_preserving: "row_preserving ex_clf"
  by (simp add: row_preserving_def ex_clf_def)

lemma ex_nolabel_run: "\<exists>r. predict (ex_state 1) ex_env ex_nolabel_table = Inr r"
  by (simp add: pipeline_eval example_eval ex_nolabel_table_def model_eval)

lemma ex_nan_run: "\<exists>e. predict (ex_state 2) ex_env ex_nan_table = Inl e"
  by (simp add: pipeline_eval example_eval ex_nan_table_def model_eval)

lemma ex_upload_allowed: "allowed_file ''../flows.CSV''"
  by (simp add: allowed_file_def ALLOWED_EXTENSIONS_def ascii_lower_def model_eval)

lemma ex_upload_name: "secure_filename ''../flows.CSV'' = ''flows.CSV''"
  by (simp add: secure_filename_def nfkd_ascii_def py_split_def fn_safe_char_def py_strip_def py_space_def)

lemma ex_upload_of:
  "upload_of ex_upload_rq = Some \<lparr>up_filename = ''../flows.CSV'', up_content = ''id,f1,label''\<rparr>"
  using ex_upload_allowed by (simp add: upload_of_def ex_upload_rq_def MAX_CONTENT_LENGTH_def)

lemma ex_nan_clf_stages:
  "\<exists>r Xs Xr y oh P. predict (srv_classifier ex_nan_server) ex_env ex_table = Inr r \<and>
     classifier (srv_classifier ex_nan_server) = Some ex_nan_clf \<and>
     preprocess_data (srv_classifier ex_nan_server) ex_table = Inr (Xs, Xr, y, oh) \<and>
     keras_predict ex_nan_clf batch_size Xr = Inr P \<and> 0 < length P \<and> NaN \<in> set (P ! 0)"
  by (simp add: pipeline_eval example_eval ex_table_def model_eval ex_nan_server_def server_start_def
      ex_nan_clf_def)

lemma ex_error_body:
  "http_body False fmt (JsonResp 400 (error_json ''No selected file'')) = ''{\"error\":\"No selected file\"}\<newline>''"
  by (simp add: http_body_def flask_json_body_def error_json_def json_container_def key_separator_def
      json_quote_def json_escape_char_def)

lemma ex_error_body_debug:
  "http_body True fmt (JsonResp 400 (error_json ''No selected file'')) =
     ''{\<newline>  \"error\": \"No selected file\"\<newline>}\<newline>''"
  by (simp add: http_body_def flask_json_body_def error_json_def json_container_def key_separator_def
      newline_indent_def json_quote_def json_escape_char_def numeral_2_eq_2)

lemma ex_info_run: "\<exists>v. handle ex_app_env ex_info_rq ex_server = (JsonResp 200 v, ex_server)"
  by (simp add: handle_def model_info_def get_model_info_def get_attr_def ex_info_rq_def ex_server_def
                server_start_def example_eval)

end
