(* ===== verification/Spec2Isabelle.thy ===== *)
theory Spec2Isabelle
  imports Examples
begin

text \<open>
  \<^bold>\<open>A verification model of the network-traffic classifier service.\<close>

  The program (\<^verbatim>\<open>src/model_handler.py\<close>, \<^verbatim>\<open>src/app.py\<close>) classifies the rows of
  an uploaded CSV table into five traffic classes. \<^verbatim>\<open>NetworkTrafficClassifier\<close> loads
  five artifacts at start-up (a generator, a discriminator and a CNN classifier, a Gaussian
  mixture and a feature scaler); \<open>predict\<close> preprocesses the table, runs the classifier,
  the discriminator, the mixture and the generator, evaluates the predictions against a
  \<open>label\<close> column when there is one, and returns a result dictionary. The Flask layer
  saves the upload, reads it with \<open>pd.read_csv\<close> and serialises the result.

  \<^bold>\<open>Theories and what they model.\<close>
  \<^item> \<open>Prelude\<close>: Python exceptions as the datatype \<open>py_exc\<close>, results as
    \<open>py_exc + 'a\<close> (every \<open>raise\<close> is an \<open>Inl\<close>), sequencing \<open>rbind\<close>, re-raising
    \<open>rewrap\<close>, list comprehensions \<open>rmap\<close>, \<open>str\<close> of integers, counting lemmas.
  \<^item> \<open>PyValues\<close>: the library semantics the handler relies on: IEEE floats with NaN and
    infinities (\<open>pyfloat\<close>); numpy's row-wise \<open>argmax\<close> and \<open>max\<close> (first maximum,
    NaN propagation); Python's \<open>int()\<close> and \<open>float()\<close> on table cells, with the full
    literal grammars of strings; Keras \<open>to_categorical\<close>; JSON-like values \<open>pyval\<close>;
    \<open>np.isnan\<close> on such values.
  \<^item> \<open>Models\<close>: the artifacts as records (\<open>keras_model\<close> with batched \<open>predict\<close> in
    chunks of 128, \<open>scaler_model\<close>, \<open>gmm_model\<close>, scikit-learn's input validation);
    the object state \<open>ntc_state\<close>; \<open>configure_gpu\<close>, \<open>load_models\<close>, \<open>__init__\<close>
    (\<open>ntc_init\<close>) and \<open>get_model_info\<close> (lines 20--80, 297--308).
  \<^item> \<open>Preprocess\<close>: the table returned by \<open>pd.read_csv\<close> and \<open>preprocess_data\<close>
    (lines 82--112).
  \<^item> \<open>Evaluator\<close>: scikit-learn's \<open>classification_report\<close> (\<open>output_dict=True,
    zero_division=0\<close>) and \<open>confusion_matrix\<close>, the two NaN-repair passes and the
    evaluation block of \<open>predict\<close> (lines 182--267).
  \<^item> \<open>Pipeline\<close>: \<open>predict\<close> (lines 137--295) and its helpers
    \<open>generate_fake_samples\<close> and \<open>get_discriminator_features\<close>. The clock, the random
    noise, the memory footprint and the plot rendering come from an environment record.
  \<^item> \<open>App\<close>: \<^verbatim>\<open>src/app.py\<close>: \<open>allowed_file\<close>, werkzeug's \<open>secure_filename\<close>
    (NFKD folding to ASCII on code points below 256, separator removal, whitespace
    joining, the character whitelist, stripping of dots and underscores), the routes
    \<open>index\<close> and \<open>model_info\<close>, the 413 handler and Flask's dispatch (\<open>handle\<close>), on a
    server state holding the classifier object, the upload folder as a map from file
    names to contents, and a count of pipeline runs; \<open>reachable\<close> is the inductive set
    of states reached by any sequence of requests.
  \<^item> \<open>Api\<close>: the response contract: a type language \<open>jtype\<close> for JSON values, the
    judgement \<open>has_type\<close>, and the schema of each body by route and status
    (\<open>api_type\<close>).
  \<^item> \<open>Upload_IO\<close>: the upload path with the failures of \<open>file.save\<close> (line 42, outside
    the \<open>try\<close>): before the file exists or after a prefix is written; the exception
    reaches Flask's 500 handler (lines 78--81) or, under \<open>debug=True\<close> (line 84), the
    debugger. \<open>handle_io\<close> refines \<open>handle\<close>, and \<open>reachable_io\<close> collects its states.
  \<^item> \<open>Json\<close>: the text of every JSON body: Flask's \<open>jsonify\<close> as \<open>json.dumps\<close>
    with sorted keys, ASCII escaping of strings, compact separators outside debug mode and
    an indentation of 2 under \<open>debug=True\<close>, and a final newline (\<open>flask_json_body\<close>,
    \<open>http_body\<close>). Finite floats print through a parameter standing for
    \<open>float.__repr__\<close>.
  \<^item> \<open>Json_Decode\<close>: the client that reads those bodies: \<open>json.loads\<close> as CPython's
    scanner works (strict strings, the number grammar with \<open>int()\<close> and \<open>float()\<close>, the
    constants \<open>NaN\<close> and \<open>Infinity\<close>, objects built by dictionary assignment), as
    mutually recursive scanners \<open>scan_value\<close>, \<open>scan_elems\<close>, \<open>scan_members\<close> with fuel.
    It is not code of the repository; it states what a body means.
  \<^item> \<open>Examples\<close>: concrete artifacts, requests and tables on which the simplifier runs the
    model; this theory states the specification's worked example and applies every
    property with hypotheses to a concrete request.

  \<^bold>\<open>Properties.\<close> The claims are properties of the handler and the server, not
  of the library models. Shape of the response (one label and one score per row, the
  distribution partitions the predictions, the confidence is the arg-max probability,
  in [0, 1] when the probabilities are, and on a NaN-free row the label is that of the
  first class of maximal probability); error behaviour (unloaded models fail first, an
  empty table or a NaN label fails); the evaluation contract (a report exists exactly
  when five distinct classes occur, the report block's printing and repair steps never
  raise on scikit-learn's output, the report is finite and NaN-free, zero-support
  classes score 0.0, the recursive repair leaves no NaN); preprocessing (accepted labels
  are those in [-5, 5), the label column is a feature, so a scaler cannot accept both
  forms of a table); start-up (\<open>models_loaded\<close> implies every attribute,
  \<open>get_model_info\<close> fails after a partial load); the HTTP boundary (an accepted upload is
  saved under a plain, non-empty file name, only an accepted upload changes the state,
  an oversized upload gets 413 without entering the pipeline, the response of an
  accepted upload on each path, every JSON body conforms to the interface schema, every
  reachable state answers each request as the start state does, and an aborted save
  leaves a partial file behind); the serialisation (finite probabilities give a response
  of finite floats only, while a NaN probability reaches the body of a 200 response as
  the bare token \<open>NaN\<close>, which is not JSON). Supporting lemmas about the library models
  (batching equals the row-wise map and ends after ceil(n/128) batches, numpy's arg-max
  loop finds the first maximum, the confusion matrix partitions the rows, \<open>handle_io\<close>
  with successful saves is \<open>handle\<close>, every body decodes with \<open>json.loads\<close>) carry these
  proofs; they are not claims about the repository's code.

  \<^bold>\<open>Bounds.\<close> No fuel is needed for the program: every loop of the handler runs over
  a finite list and is structural recursion, except the batching, whose termination is
  proved by the length measure. The decoder of \<open>Json_Decode\<close> has fuel, the length of
  its input: each scanner consumes a character before it recurses, and
  \<open>json_loads_iff\<close> shows that a text some fuel decodes is decoded with that much. The constants are the source's: batch size 128, at most 100 generated
  samples, latent size 100, five labels, int64 for \<open>to_categorical\<close> inputs.

  \<^bold>\<open>Not modelled.\<close> Network internals (the artifacts are abstract functions on rows);
  rounding of decimal strings and integers to the nearest double (values are exact reals;
  only overflow to infinity is modelled); \<open>pd.read_csv\<close> parsing (the table is its
  result); the plotting and base64 encoding (an environment function); the text of
  the prints (the prints whose arguments can raise are modelled as steps);
  Flask's automatic HEAD and OPTIONS answers and template rendering; the digits of
  \<open>float.__repr__\<close> (shortest round-trip decimal, a parameter of the encoder); HTTP
  headers; failures of \<open>os.remove\<close> and of \<open>jsonify\<close> (assumed to succeed); concurrent requests, which the
  development server handles one at a time. The learned parameters of the networks, the
  mixture and the scaler are artifacts on disk, not code of the repository: the model
  treats them as functions on rows, which is why those components are partly modelled.
\<close>

section \<open>The specification's worked example\<close>

text \<open>A computation, not a general property: on the specification's example (true labels 0, 1, 0 and predicted
  classes 0, 1, 1), the response counts the predictions per class (one chat, two email),
  and carries no classification report and no confusion matrix, because only two of the
  five classes occur and scikit-learn rejects the five target names.\<close>

theorem spec_example_no_report:
  "\<exists>r. predict (ex_state 3) ex_env ex_spec_table = Inr r \<and>
     rb_predictions r = [''chat'', ''email'', ''email''] \<and>
     rb_distribution r = [(''chat'', 1), (''email'', 2), (''file'', 0), (''streaming'', 0), (''voip'', 0)] \<and>
     rb_report r = None \<and> rb_cm_img r = None"
  by (simp add: pipeline_eval example_eval ex_spec_table_def model_eval)

section \<open>The properties at concrete requests\<close>

theorem predict_rows_witness:
  "\<exists>r. predict (ex_state 2) ex_env ex_table = Inr r \<and>
     length (rb_predictions r) = rb_num_samples r \<and> length (rb_confidence r) = rb_num_samples r"
proof -
  obtain r where r: "predict (ex_state 2) ex_env ex_table = Inr r" using ex_table_run by blast
  have "classifier (ex_state 2) = Some ex_clf" using ex_state_classifier by blast
  from predict_rows[OF r this ex_clf_row_preserving] r show ?thesis by blast
qed

theorem predict_distribution_witness:
  "\<exists>r. predict (ex_state 2) ex_env ex_table = Inr r \<and> distinct (labels_iscx (ex_state 2)) \<and>
     (\<Sum>kv \<leftarrow> rb_distribution r. snd kv) = length (rb_predictions r)"
proof -
  obtain r where r: "predict (ex_state 2) ex_env ex_table = Inr r" using ex_table_run by blast
  have d: "distinct (labels_iscx (ex_state 2))" by (simp add: example_eval)
  from predict_distribution[OF r d] r d show ?thesis by blast
qed

theorem predict_confidence_witness:
  "\<exists>r Xs Xr y oh P. predict (ex_state 2) ex_env ex_table = Inr r \<and>
     preprocess_data (ex_state 2) ex_table = Inr (Xs, Xr, y, oh) \<and>
     keras_predict ex_clf batch_size Xr = Inr P \<and> 0 < length P \<and>
     (\<exists>k. np_argmax (P ! 0) = Inr k \<and> k < length (P ! 0) \<and> rb_confidence r ! 0 = P ! 0 ! k \<and>
          np_max (P ! 0) = Inr (rb_confidence r ! 0) \<and> rb_predictions r ! 0 = labels_iscx (ex_state 2) ! k)"
proof -
  obtain r where r: "predict (ex_state 2) ex_env ex_table = Inr r" using ex_table_run by blast
  obtain Xs Xr y oh P where pre: "preprocess_data (ex_state 2) ex_table = Inr (Xs, Xr, y, oh)"
      and P: "keras_predict ex_clf batch_size Xr = Inr P" and l: "length P = 5"
    using ex_table_stages by blast
  have c: "classifier (ex_state 2) = Some ex_clf" using ex_state_classifier by blast
  from predict_confidence[OF r c pre P, of 0] l r pre P show ?thesis by auto
qed

theorem predict_confidence_bounds_witness:
  "\<exists>r Xs Xr y oh P. predict (ex_state 2) ex_env ex_table = Inr r \<and>
     preprocess_data (ex_state 2) ex_table = Inr (Xs, Xr, y, oh) \<and>
     keras_predict ex_clf batch_size Xr = Inr P \<and>
     list_all (list_all (\<lambda>v. \<exists>x. v = Fin x \<and> 0 \<le> x \<and> x \<le> 1)) P \<and> 4 < length P \<and>
     (\<exists>x. rb_confidence r ! 4 = Fin x \<and> 0 \<le> x \<and> x \<le> 1)"
proof -
  obtain r where r: "predict (ex_state 2) ex_env ex_table = Inr r" using ex_table_run by blast
  obtain Xs Xr y oh P where pre: "preprocess_data (ex_state 2) ex_table = Inr (Xs, Xr, y, oh)"
      and P: "keras_predict ex_clf batch_size Xr = Inr P" and l: "length P = 5"
      and b: "list_all (list_all (\<lambda>v. \<exists>x. v = Fin x \<and> 0 \<le> x \<and> x \<le> 1)) P"
    using ex_table_stages by blast
  have c: "classifier (ex_state 2) = Some ex_clf" using ex_state_classifier by blast
  from predict_confidence_bounds[OF r c pre P b, of 4] l r pre P b show ?thesis by auto
qed

theorem predict_label_first_max_witness:
  "\<exists>r Xs Xr y oh P. predict (ex_state 2) ex_env ex_table = Inr r \<and>
     preprocess_data (ex_state 2) ex_table = Inr (Xs, Xr, y, oh) \<and>
     keras_predict ex_clf batch_size Xr = Inr P \<and> 0 < length P \<and> \<not> list_ex isnan (P ! 0) \<and>
     (\<exists>k. k < length (P ! 0) \<and> rb_predictions r ! 0 = labels_iscx (ex_state 2) ! k \<and>
          rb_confidence r ! 0 = P ! 0 ! k \<and> (\<forall>j < length (P ! 0). pf_le (P ! 0 ! j) (P ! 0 ! k)) \<and>
          (\<forall>j < k. \<not> pf_le (P ! 0 ! k) (P ! 0 ! j)))"
proof -
  obtain r where r: "predict (ex_state 2) ex_env ex_table = Inr r" using ex_table_run by blast
  obtain Xs Xr y oh P where pre: "preprocess_data (ex_state 2) ex_table = Inr (Xs, Xr, y, oh)"
      and P: "keras_predict ex_clf batch_size Xr = Inr P" and l: "length P = 5"
      and b: "list_all (list_all (\<lambda>v. \<exists>x. v = Fin x \<and> 0 \<le> x \<and> x \<le> 1)) P"
    using ex_table_stages by blast
  have c: "classifier (ex_state 2) = Some ex_clf" using ex_state_classifier by blast
  have "P ! 0 \<in> set P" using l by simp
  then have n: "\<not> list_ex isnan (P ! 0)" using b by (fastforce simp: list_all_iff list_ex_iff)
  from Pipeline.predict_label_first_max[OF r c pre P _ n] l r pre P n show ?thesis by auto
qed

theorem predict_not_loaded_witness:
  "\<not> models_loaded ex_broken_state \<and>
   predict ex_broken_state ex_env ex_table =
     Inl (ValueError ''Error in prediction pipeline: Models not loaded properly'')"
proof -
  have n: "\<not> models_loaded ex_broken_state"
    by (simp add: ex_broken_state_def example_eval)
  from predict_not_loaded[OF n] n show ?thesis by blast
qed

theorem predict_no_label_no_report_witness:
  "''label'' \<notin> set (df_columns ex_nolabel_table) \<and>
   (\<exists>r. predict (ex_state 1) ex_env ex_nolabel_table = Inr r \<and> rb_report r = None \<and> rb_cm_img r = None)"
proof -
  have n: "''label'' \<notin> set (df_columns ex_nolabel_table)" by (simp add: ex_nolabel_table_def)
  obtain r where r: "predict (ex_state 1) ex_env ex_nolabel_table = Inr r" using ex_nolabel_run by blast
  from predict_no_label_no_report[OF n r] n r show ?thesis by blast
qed

theorem predict_report_finite_witness:
  "\<exists>r rep. predict (ex_state 2) ex_env ex_table = Inr r \<and> rb_report r = Some rep \<and>
     all_finite rep \<and> \<not> has_nan rep"
proof -
  obtain r rep where r: "predict (ex_state 2) ex_env ex_table = Inr r" and s: "rb_report r = Some rep"
    using ex_table_run by blast
  from predict_report_finite[OF r s] r s show ?thesis by blast
qed

theorem predict_report_iff_all_classes_witness:
  "\<exists>r. predict (ex_state 2) ex_env ex_table = Inr r \<and> ''label'' \<in> set (df_columns ex_table) \<and>
     (\<exists>ys ks. rmap py_int (df_column ex_table ''label'') = Inr ys \<and>
        map ((!) (labels_iscx (ex_state 2))) ks = rb_predictions r \<and>
        (rb_report r \<noteq> None \<longleftrightarrow> card (set ys \<union> int ` set ks) = length (labels_iscx (ex_state 2))))"
proof -
  obtain r where r: "predict (ex_state 2) ex_env ex_table = Inr r" using ex_table_run by blast
  have l: "''label'' \<in> set (df_columns ex_table)" by (simp add: ex_table_def)
  have c: "classifier (ex_state 2) = Some ex_clf" using ex_state_classifier by blast
  from predict_report_iff_all_classes[OF r l c ex_clf_row_preserving] r l show ?thesis by blast
qed

theorem predict_nan_label_witness:
  "models_loaded (ex_state 2) \<and> ''label'' \<in> set (df_columns ex_nan_table) \<and>
   CFloat NaN \<in> set (df_column ex_nan_table ''label'') \<and>
   (\<exists>m. predict (ex_state 2) ex_env ex_nan_table =
      Inl (ValueError (''Error in prediction pipeline: Error in preprocessing data: '' @ m)))"
proof -
  have a: "models_loaded (ex_state 2)" using ex_state_classifier by blast
  have b: "''label'' \<in> set (df_columns ex_nan_table)" by (simp add: ex_nan_table_def)
  have c: "CFloat NaN \<in> set (df_column ex_nan_table ''label'')"
    by (simp add: ex_nan_table_def df_column_def)
  from predict_nan_label[OF a b c] a b c show ?thesis by blast
qed

theorem extract_labels_accepts_witness:
  "length (labels_iscx (ex_state 2)) = 5 \<and> ''label'' \<in> set (df_columns ex_neg_table) \<and>
   rmap py_int (df_column ex_neg_table ''label'') = Inr [-2, 1] \<and>
   (\<exists>oh. extract_labels (ex_state 2) ex_neg_table = Inr (Some [-2, 1], Some oh))"
proof -
  have a: "length (labels_iscx (ex_state 2)) = 5" by (simp add: example_eval)
  have b: "''label'' \<in> set (df_columns ex_neg_table)" by (simp add: ex_neg_table_def)
  have c: "rmap py_int (df_column ex_neg_table ''label'') = Inr [-2, 1]"
    by (simp add: ex_neg_table_def pipeline_eval model_eval)
  from extract_labels_accepts[OF a b c] a b c show ?thesis by simp
qed

theorem label_column_is_feature_witness:
  "df_wf ex_table \<and> ''label'' \<in> set (df_columns ex_table) \<and> hd (df_columns ex_table) \<noteq> ''label'' \<and>
   3 < length (df_rows ex_table) \<and>
   df_features ex_table ! 3 ! (col_index (df_columns ex_table) ''label'' - 1) = df_column ex_table ''label'' ! 3"
proof -
  have a: "df_wf ex_table" "''label'' \<in> set (df_columns ex_table)"
    "hd (df_columns ex_table) \<noteq> ''label''" "3 < length (df_rows ex_table)"
    by (simp_all add: ex_table_def df_wf_def)
  from label_column_is_feature[OF a] a show ?thesis by blast
qed

theorem scaler_rejects_labelled_witness:
  "\<exists>X. scaler_transform (ex_scaler 1) (df_features ex_nolabel_table) = Inr X \<and>
     length [CInt 0, CInt 1] = length (df_rows ex_nolabel_table) \<and>
     (\<exists>e. scaler_transform (ex_scaler 1) (df_features (ex_nolabel_table\<lparr>df_columns := df_columns ex_nolabel_table @ [''label''],
            df_rows := map2 (\<lambda>r y. r @ [y]) (df_rows ex_nolabel_table) [CInt 0, CInt 1]\<rparr>)) = Inl e)"
proof -
  obtain X where X: "scaler_transform (ex_scaler 1) (df_features ex_nolabel_table) = Inr X"
    by (simp add: pipeline_eval ex_scaler_def ex_nolabel_table_def)
  have l: "length [CInt 0, CInt 1] = length (df_rows ex_nolabel_table)"
    by (simp add: ex_nolabel_table_def)
  from scaler_rejects_labelled[OF X l] X l show ?thesis by blast
qed

theorem predict_pseudo_range_witness:
  "\<exists>r. predict (ex_state 2) ex_env ex_table = Inr r \<and>
     list_all (\<lambda>p. 0 \<le> p \<and> p < int (length (labels_iscx (ex_state 2)))) (rb_pseudo_labels r)"
proof -
  obtain r where r: "predict (ex_state 2) ex_env ex_table = Inr r" using ex_table_run by blast
  from predict_pseudo_range[OF r] r show ?thesis by blast
qed

theorem predict_empty_table_witness:
  "df_rows ex_empty_table = [] \<and> (\<exists>e. predict (ex_state 2) ex_env ex_empty_table = Inl e)"
proof -
  have e: "df_rows ex_empty_table = []" by (simp add: ex_empty_table_def)
  from predict_empty_table[OF e] e show ?thesis by blast
qed

theorem predict_runs_generator_witness:
  "\<exists>r. predict (ex_state 2) ex_env ex_table = Inr r \<and>
     (\<exists>g out. generator (ex_state 2) = Some g \<and>
        keras_predict g batch_size (env_noise ex_env (min 100 (length (df_rows ex_table))) (latent_dim (ex_state 2))) = Inr out)"
proof -
  obtain r where r: "predict (ex_state 2) ex_env ex_table = Inr r" using ex_table_run by blast
  from predict_runs_generator[OF r] r show ?thesis by blast
qed

theorem load_models_attrs_witness:
  "models_loaded (load_models (ex_artifacts 2) ex_fresh) \<and>
   generator (load_models (ex_artifacts 2) ex_fresh) \<noteq> None \<and>
   discriminator (load_models (ex_artifacts 2) ex_fresh) \<noteq> None \<and>
   classifier (load_models (ex_artifacts 2) ex_fresh) \<noteq> None \<and>
   gmm (load_models (ex_artifacts 2) ex_fresh) \<noteq> None \<and> scaler (load_models (ex_artifacts 2) ex_fresh) \<noteq> None"
proof -
  have m: "models_loaded (load_models (ex_artifacts 2) ex_fresh)"
    by (simp add: load_models_def ex_artifacts_def)
  from load_models_attrs[OF m] m show ?thesis by blast
qed

theorem report_zero_support_class_witness:
  "\<exists>kvs. classification_report LABELS_ISCX [0, 1, 2, 3, 3] [0, 1, 2, 3, 4] = Inr (VDict kvs) \<and>
     4 < length LABELS_ISCX \<and> count_list [0, 1, 2, 3, 3] (unique_labels [0, 1, 2, 3, 3] [0, 1, 2, 3, 4] ! 4) = 0 \<and>
     kvs ! 4 = (LABELS_ISCX ! 4, scores_dict [0, 0, 0, 0])"
proof -
  obtain kvs where k: "classification_report LABELS_ISCX [0, 1, 2, 3, 3] [0, 1, 2, 3, 4] = Inr (VDict kvs)"
    by (simp add: classification_report_def LABELS_ISCX_def model_eval Let_def)
  have l: "4 < length LABELS_ISCX" by (simp add: LABELS_ISCX_def)
  have c: "count_list [0, 1, 2, 3, 3] (unique_labels [0, 1, 2, 3, 3] [0, 1, 2, 3, 4] ! 4) = 0"
    by (simp add: model_eval)
  from report_zero_support_class[OF k l c] k l c show ?thesis by blast
qed

theorem fix_nan_recursive_no_nan_witness:
  "fix_nan_recursive (VDict [(''chat'', VDict [(''recall'', VFloat NaN)])]) =
     Inr (VDict [(''chat'', VDict [(''recall'', VFloat (Fin 0))])]) \<and>
   (\<exists>kvs. VDict [(''chat'', VDict [(''recall'', VFloat NaN)])] = VDict kvs) \<and>
   \<not> has_nan (VDict [(''chat'', VDict [(''recall'', VFloat (Fin 0))])])"
proof -
  have f: "fix_nan_recursive (VDict [(''chat'', VDict [(''recall'', VFloat NaN)])]) =
     Inr (VDict [(''chat'', VDict [(''recall'', VFloat (Fin 0))])])"
    by (simp add: fix_nan_recursive_def)
  from fix_nan_recursive_no_nan[OF f] f show ?thesis by blast
qed

theorem secure_filename_allowed_witness:
  "allowed_file ''../flows.CSV'' \<and> secure_filename ''../flows.CSV'' \<noteq> [] \<and>
   list_all fn_safe_char (secure_filename ''../flows.CSV'') \<and> hd (secure_filename ''../flows.CSV'') \<notin> set ''._''"
  using secure_filename_allowed[OF ex_upload_allowed] ex_upload_allowed by blast

theorem only_accepted_uploads_change_state_witness:
  "\<not> (rq_path ex_get_rq = ''/'' \<and> rq_method ex_get_rq = POST \<and> rq_content_length ex_get_rq \<le> MAX_CONTENT_LENGTH \<and>
      (\<exists>f. rq_file ex_get_rq = Some f \<and> up_filename f \<noteq> [] \<and> allowed_file (up_filename f))) \<and>
   snd (handle ex_app_env ex_get_rq ex_server) = ex_server"
proof -
  have n: "\<not> (rq_path ex_get_rq = ''/'' \<and> rq_method ex_get_rq = POST \<and> rq_content_length ex_get_rq \<le> MAX_CONTENT_LENGTH \<and>
      (\<exists>f. rq_file ex_get_rq = Some f \<and> up_filename f \<noteq> [] \<and> allowed_file (up_filename f)))"
    by (simp add: ex_get_rq_def)
  from only_accepted_uploads_change_state[OF n] n show ?thesis by blast
qed

theorem too_large_413_witness:
  "rq_path ex_big_rq = ''/'' \<and> rq_method ex_big_rq = POST \<and> MAX_CONTENT_LENGTH < rq_content_length ex_big_rq \<and>
   handle ex_app_env ex_big_rq ex_server = (JsonResp 413 (error_json ''File too large (max 200MB)''), ex_server)"
proof -
  have a: "rq_path ex_big_rq = ''/''" "rq_method ex_big_rq = POST"
    "MAX_CONTENT_LENGTH < rq_content_length ex_big_rq"
    by (simp_all add: ex_big_rq_def MAX_CONTENT_LENGTH_def)
  from too_large_413[OF a] a show ?thesis by blast
qed

theorem upload_response_witness:
  "\<exists>resp s'. handle ex_app_env ex_upload_rq ex_server = (resp, s') \<and>
     srv_uploads s' = (srv_uploads ex_server)(''flows.CSV'' := None) \<and>
     srv_pipeline_runs s' = 1 \<and>
     (\<exists>r. predict (srv_classifier ex_server) ex_env ex_table = Inr r \<and>
          resp = JsonResp 200 (VDict [(''success'', VBool True), (''results'', results_json r)]))"
proof -
  obtain resp s' where h: "handle ex_app_env ex_upload_rq ex_server = (resp, s')" by fastforce
  have a: "rq_path ex_upload_rq = ''/''" "rq_method ex_upload_rq = POST"
    "rq_content_length ex_upload_rq \<le> MAX_CONTENT_LENGTH"
    "rq_file ex_upload_rq = Some \<lparr>up_filename = ''../flows.CSV'', up_content = ''id,f1,label''\<rparr>"
    by (simp_all add: ex_upload_rq_def MAX_CONTENT_LENGTH_def)
  have al: "allowed_file (up_filename \<lparr>up_filename = ''../flows.CSV'', up_content = ''id,f1,label''\<rparr>)"
    using ex_upload_allowed by simp
  obtain r where r: "predict (srv_classifier ex_server) ex_env ex_table = Inr r"
    using ex_table_run by (auto simp: ex_server_def server_start_def ex_state_def)
  have sf: "secure_filename ''../flows.CSV'' = ''flows.CSV''"
    by (simp add: secure_filename_def nfkd_ascii_def py_split_def fn_safe_char_def py_strip_def py_space_def)
  from upload_response[OF a al h] r sf h show ?thesis
    by (simp add: ex_app_env_def ex_server_def server_start_def)
qed

theorem upload_response_finite_witness:
  "\<exists>v s' Xs Xr y oh P.
     process_upload ex_app_env \<lparr>up_filename = ''../flows.CSV'', up_content = ''id,f1,label''\<rparr> ex_server =
       (JsonResp 200 v, s') \<and>
     ae_read_csv ex_app_env ''id,f1,label'' = Inr ex_table \<and>
     classifier (srv_classifier ex_server) = Some ex_clf \<and>
     preprocess_data (srv_classifier ex_server) ex_table = Inr (Xs, Xr, y, oh) \<and>
     keras_predict ex_clf batch_size Xr = Inr P \<and> list_all (list_all is_fin) P \<and> all_finite v"
proof -
  have st: "srv_classifier ex_server = ex_state 2" by (simp add: ex_server_def server_start_def ex_state_def)
  obtain r where r: "predict (ex_state 2) ex_env ex_table = Inr r" using ex_table_run by blast
  let ?f = "\<lparr>up_filename = ''../flows.CSV'', up_content = ''id,f1,label''\<rparr>"
  obtain v s' where pu: "process_upload ex_app_env ?f ex_server = (JsonResp 200 v, s')"
    using r st by (simp add: process_upload_def ex_app_env_def Let_def)
  have rd: "ae_read_csv ex_app_env (up_content ?f) = Inr ex_table" by (simp add: ex_app_env_def)
  obtain Xs Xr y oh P where pre: "preprocess_data (ex_state 2) ex_table = Inr (Xs, Xr, y, oh)"
      and P: "keras_predict ex_clf batch_size Xr = Inr P"
      and b: "list_all (list_all (\<lambda>v. \<exists>x. v = Fin x \<and> 0 \<le> x \<and> x \<le> 1)) P"
    using ex_table_stages by blast
  have fin: "list_all (list_all is_fin) P" using b by (fastforce simp: list_all_iff)
  have c: "classifier (srv_classifier ex_server) = Some ex_clf" using ex_state_classifier st by simp
  from App.upload_response_finite[OF pu rd c, unfolded st, OF pre P fin] pu rd c pre P fin st show ?thesis
    by auto
qed

theorem handle_api_type_witness:
  "\<exists>code v s'. handle ex_app_env ex_info_rq ex_server = (JsonResp code v, s') \<and>
     has_type v (api_type (labels_iscx (srv_classifier ex_server)) ex_info_rq code)"
proof -
  obtain v where h: "handle ex_app_env ex_info_rq ex_server = (JsonResp 200 v, ex_server)"
    using ex_info_run by blast
  from handle_api_type[OF h] h show ?thesis by blast
qed

theorem service_availability_witness:
  "reachable ex_server (snd (handle ex_app_env ex_upload_rq ex_server)) \<and>
   fst (handle ex_app_env ex_info_rq (snd (handle ex_app_env ex_upload_rq ex_server))) =
   fst (handle ex_app_env ex_info_rq ex_server)"
proof -
  have r: "reachable ex_server (snd (handle ex_app_env ex_upload_rq ex_server))"
    by (rule reachable.step[OF reachable.start])
  from service_availability[OF r] r show ?thesis by blast
qed

theorem save_aborted_leaves_file_witness:
  "upload_of ex_upload_rq = Some \<lparr>up_filename = ''../flows.CSV'', up_content = ''id,f1,label''\<rparr> \<and>
   srv_uploads ex_server ''flows.CSV'' = None \<and>
   reachable_io ex_server (snd (handle_io False (SaveAborted 3 ''No space left on device'') ex_app_env ex_upload_rq ex_server)) \<and>
   srv_uploads (snd (handle_io False (SaveAborted 3 ''No space left on device'') ex_app_env ex_upload_rq ex_server)) ''flows.CSV''
     = Some ''id,'' \<and>
   fst (handle_io False (SaveAborted 3 ''No space left on device'') ex_app_env ex_upload_rq ex_server) =
     JsonResp 500 (error_json ''Internal server error'')"
proof -
  have u: "upload_of ex_upload_rq = Some \<lparr>up_filename = ''../flows.CSV'', up_content = ''id,f1,label''\<rparr>"
    by (rule ex_upload_of)
  have e: "srv_uploads ex_server (secure_filename (up_filename \<lparr>up_filename = ''../flows.CSV'', up_content = ''id,f1,label''\<rparr>)) = None"
    by (simp add: ex_server_def server_start_def)
  from save_aborted_leaves_file[OF u e, of False 3 "''No space left on device''" ex_app_env] u e
  show ?thesis by (simp add: ex_upload_name unhandled_error_def)
qed

theorem report_block_fails_iff_witness:
  "\<exists>e. report_block (\<lambda>_. ''iVBORw0KGgo='') LABELS_ISCX [0, 1, 0] [0, 1, 1] = Inl e"
proof -
  have "set [0, 1, 0 :: int] \<union> set [0, 1, 1] = {0, 1}" by auto
  then have "card (set [0, 1, 0 :: int] \<union> set [0, 1, 1]) \<noteq> length LABELS_ISCX"
    by (simp add: LABELS_ISCX_def)
  with report_block_fails_iff[of "\<lambda>_. ''iVBORw0KGgo=''" LABELS_ISCX "[0, 1, 0]" "[0, 1, 1]"]
  show ?thesis by blast
qed

theorem nan_confidence_in_body_witness:
  "\<exists>r. predict (srv_classifier ex_nan_server) ex_env ex_table = Inr r \<and> rb_confidence r ! 0 = NaN \<and>
     sublist ''NaN'' (http_body False (\<lambda>_. ''0.5'')
       (fst (process_upload ex_app_env \<lparr>up_filename = ''flows.csv'', up_content = ''id,f1,label''\<rparr> ex_nan_server)))"
proof -
  obtain r Xs Xr y oh P where r: "predict (srv_classifier ex_nan_server) ex_env ex_table = Inr r"
    and c: "classifier (srv_classifier ex_nan_server) = Some ex_nan_clf"
    and pre: "preprocess_data (srv_classifier ex_nan_server) ex_table = Inr (Xs, Xr, y, oh)"
    and P: "keras_predict ex_nan_clf batch_size Xr = Inr P" and l: "0 < length P" and n: "NaN \<in> set (P ! 0)"
    using ex_nan_clf_stages by blast
  have rd: "ae_read_csv ex_app_env (up_content \<lparr>up_filename = ''flows.csv'', up_content = ''id,f1,label''\<rparr>) = Inr ex_table"
    and pe: "ae_pipeline ex_app_env = ex_env" by (simp_all add: ex_app_env_def)
  from Json.nan_confidence_in_body[OF rd, unfolded pe, OF r c pre P l n] r show ?thesis by blast
qed

end
